(* ===== verification/Prelude.thy ===== *)
theory Prelude
  imports Main "HOL-Library.Word"
begin

text \<open>
  What every component of the model shares: the Go \<^verbatim>\<open>error\<close> values, the
  state-and-error computations in which the operations are written, the rules that
  carry invariants through them, 64-bit and 32-bit integer ranges, and the laws of
  list-shaped tables.
\<close>

section \<open>Go error values\<close>

text \<open>
  The sentinel errors the code compares with \<^verbatim>\<open>errors.Is\<close> are constructors of
  their own.  \<^verbatim>\<open>Err\<close> is an error built from a message (\<^verbatim>\<open>errors.New\<close>,
  \<^verbatim>\<open>fmt.Errorf\<close> without a wrapped cause), \<^verbatim>\<open>Wrap\<close> is \<^verbatim>\<open>fmt.Errorf\<close>
  with \<^verbatim>\<open>%w\<close>, and \<^verbatim>\<open>Ext\<close> an error returned by code outside the repository.
\<close>

datatype goerr =
    ErrNotFound
  | ErrForbidden
  | Err string
  | Wrap string goerr
  | Ext string

text \<open>\<^verbatim>\<open>errors.Is (err, target)\<close>: the chain of wrapped causes is searched.\<close>

fun err_is :: "goerr \<Rightarrow> goerr \<Rightarrow> bool" where
  "err_is (Wrap m e) t = (Wrap m e = t \<or> err_is e t)"
| "err_is e t = (e = t)"

section \<open>Computations with a state and an error\<close>

text \<open>
  A Go function that returns \<^verbatim>\<open>(T, error)\<close> and changes some state is a
  computation \<^verbatim>\<open>('x, 's, 'a) io\<close>: it maps a state to either an error of type
  \<^verbatim>\<open>'x\<close> or a result, with the state it leaves behind.  The state is kept on the error
  path: nothing is rolled back when a Go function returns early.
\<close>

type_synonym ('x, 's, 'a) io = "'s \<Rightarrow> ('x + 'a) \<times> 's"

definition io_ret :: "'a \<Rightarrow> ('x, 's, 'a) io" where
  "io_ret x s = (Inr x, s)"

definition io_raise :: "'x \<Rightarrow> ('x, 's, 'a) io" where
  "io_raise e s = (Inl e, s)"

text \<open>\<^verbatim>\<open>x, err := m(); if err != nil { return err }; k(x)\<close>.\<close>

definition io_bind :: "('x, 's, 'a) io \<Rightarrow> ('a \<Rightarrow> ('x, 's, 'b) io) \<Rightarrow> ('x, 's, 'b) io" where
  "io_bind m k s = (case m s of (Inl e, t) \<Rightarrow> (Inl e, t) | (Inr x, t) \<Rightarrow> k x t)"

definition io_seq :: "('x, 's, 'a) io \<Rightarrow> ('x, 's, 'b) io \<Rightarrow> ('x, 's, 'b) io" where
  "io_seq m n = io_bind m (\<lambda>_. n)"

text \<open>
  \<^verbatim>\<open>x, err := m()\<close> with the error inspected by the code instead of returned; the
  continuation receives the sum.  \<^verbatim>\<open>_ = m()\<close> is a use that ignores it.
\<close>

definition io_try :: "('x, 's, 'a) io \<Rightarrow> ('y, 's, 'x + 'a) io" where
  "io_try m s = (case m s of (r, t) \<Rightarrow> (Inr r, t))"

definition io_gets :: "('s \<Rightarrow> 'a) \<Rightarrow> ('x, 's, 'a) io" where
  "io_gets f s = (Inr (f s), s)"

definition io_modify :: "('s \<Rightarrow> 's) \<Rightarrow> ('x, 's, unit) io" where
  "io_modify f s = (Inr (), f s)"

text \<open>\<^verbatim>\<open>if err != nil { return g(err) }\<close>: the error is translated on its way out.\<close>

definition io_maperr :: "('x \<Rightarrow> 'y) \<Rightarrow> ('x, 's, 'a) io \<Rightarrow> ('y, 's, 'a) io" where
  "io_maperr g m s = (case m s of (Inl e, t) \<Rightarrow> (Inl (g e), t) | (Inr x, t) \<Rightarrow> (Inr x, t))"

text \<open>A \<^verbatim>\<open>for _, x := range xs\<close> loop whose body may return an error.\<close>

fun io_foreach :: "('a \<Rightarrow> ('x, 's, unit) io) \<Rightarrow> 'a list \<Rightarrow> ('x, 's, unit) io" where
  "io_foreach f [] = io_ret ()"
| "io_foreach f (x # xs) = io_seq (f x) (io_foreach f xs)"

definition io_guard :: "bool \<Rightarrow> 'x \<Rightarrow> ('x, 's, unit) io" where
  "io_guard b e = (if b then io_ret () else io_raise e)"

lemmas io_defs = io_ret_def io_raise_def io_bind_def io_seq_def io_try_def io_gets_def
  io_modify_def io_maperr_def io_guard_def

lemma io_bind_ret [simp]: "io_bind (io_ret x) k = k x"
  by (simp add: io_defs fun_eq_iff)

lemma io_bind_raise [simp]: "io_bind (io_raise e) k = io_raise e"
  by (simp add: io_defs fun_eq_iff)

lemma io_bind_assoc: "io_bind (io_bind m k) l = io_bind m (\<lambda>x. io_bind (k x) l)"
  by (simp add: io_defs fun_eq_iff split: prod.splits sum.splits)

lemma io_bind_Inr:
  "io_bind m k s = (Inr y, u) \<longleftrightarrow> (\<exists>x t. m s = (Inr x, t) \<and> k x t = (Inr y, u))"
  by (auto simp: io_bind_def split: prod.splits sum.splits)

lemma io_seq_Inr:
  "io_seq m n s = (Inr y, u) \<longleftrightarrow> (\<exists>x t. m s = (Inr x, t) \<and> n t = (Inr y, u))"
  by (simp add: io_seq_def io_bind_Inr)

lemma io_ret_Inr [simp]: "io_ret x s = (Inr y, t) \<longleftrightarrow> y = x \<and> t = s"
  by (auto simp: io_ret_def)

lemma io_raise_Inr [simp]: "io_raise e s = (Inr y, t) \<longleftrightarrow> False"
  by (simp add: io_raise_def)

lemma io_guard_Inr [simp]: "io_guard b e s = (Inr y, t) \<longleftrightarrow> b \<and> t = s"
  by (auto simp: io_guard_def)

lemma io_maperr_Inr [simp]: "io_maperr g m s = (Inr y, t) \<longleftrightarrow> m s = (Inr y, t)"
  by (auto simp: io_maperr_def split: prod.splits sum.splits)

lemma io_gets_Inr [simp]: "io_gets f s = (Inr y, t) \<longleftrightarrow> y = f s \<and> t = s"
  by (auto simp: io_gets_def)

lemma io_modify_Inr [simp]: "io_modify f s = (Inr y, t) \<longleftrightarrow> t = f s"
  by (auto simp: io_modify_def)

lemma io_try_Inr [simp]: "io_try m s = (Inr r, t) \<longleftrightarrow> m s = (r, t)"
  by (auto simp: io_try_def split: prod.splits)

lemmas io_inr = io_bind_Inr io_seq_Inr

section \<open>Invariants of computations\<close>

text \<open>
  \<^verbatim>\<open>io_keeps I m\<close>: the computation keeps the invariant on every path, the error
  paths included.  The rules are collected in \<^verbatim>\<open>io_keep\<close>.
\<close>

named_theorems io_keep

definition io_keeps :: "('s \<Rightarrow> bool) \<Rightarrow> ('x, 's, 'a) io \<Rightarrow> bool" where
  "io_keeps I m \<longleftrightarrow> (\<forall>s. I s \<longrightarrow> I (snd (m s)))"

lemma io_keepsI: "(\<And>s. I s \<Longrightarrow> I (snd (m s))) \<Longrightarrow> io_keeps I m"
  by (simp add: io_keeps_def)

lemma io_keepsD: "io_keeps I m \<Longrightarrow> I s \<Longrightarrow> m s = (r, t) \<Longrightarrow> I t"
  by (metis io_keeps_def snd_conv)

lemma io_keepsE: "io_keeps I m \<Longrightarrow> I s \<Longrightarrow> I (snd (m s))"
  by (simp add: io_keeps_def)

lemma io_keeps_ret [io_keep, simp]: "io_keeps I (io_ret x)"
  by (simp add: io_keeps_def io_defs)

lemma io_keeps_raise [io_keep, simp]: "io_keeps I (io_raise e)"
  by (simp add: io_keeps_def io_defs)

lemma io_keeps_gets [io_keep, simp]: "io_keeps I (io_gets f)"
  by (simp add: io_keeps_def io_defs)

lemma io_keeps_guard [io_keep, simp]: "io_keeps I (io_guard b e)"
  by (simp add: io_keeps_def io_defs)

lemma io_keeps_modify [io_keep]: "(\<And>s. I s \<Longrightarrow> I (f s)) \<Longrightarrow> io_keeps I (io_modify f)"
  by (simp add: io_keeps_def io_defs)

lemma io_keeps_try [io_keep]: "io_keeps I m \<Longrightarrow> io_keeps I (io_try m)"
  by (auto simp: io_keeps_def io_defs split: prod.splits)

lemma io_keeps_maperr [io_keep]: "io_keeps I m \<Longrightarrow> io_keeps I (io_maperr g m)"
  by (auto simp: io_keeps_def io_defs split: prod.splits sum.splits)

lemma io_keeps_bind [io_keep]:
  assumes "io_keeps I m" and "\<And>x. io_keeps I (k x)"
  shows "io_keeps I (io_bind m k)"
proof (rule io_keepsI)
  fix s
  assume "I s"
  with assms(1) have "I (snd (m s))" by (simp add: io_keeps_def)
  with assms(2) show "I (snd (io_bind m k s))"
    by (cases "m s"; cases "fst (m s)") (auto simp: io_defs io_keeps_def split: sum.splits)
qed

lemma io_keeps_seq [io_keep]: "io_keeps I m \<Longrightarrow> io_keeps I n \<Longrightarrow> io_keeps I (io_seq m n)"
  by (simp add: io_seq_def io_keeps_bind)

lemma io_keeps_if [io_keep]:
  "(b \<Longrightarrow> io_keeps I m) \<Longrightarrow> (\<not> b \<Longrightarrow> io_keeps I n) \<Longrightarrow> io_keeps I (if b then m else n)"
  by simp

lemma io_keeps_case_sum [io_keep]:
  "(\<And>e. io_keeps I (f e)) \<Longrightarrow> (\<And>x. io_keeps I (g x)) \<Longrightarrow>
   io_keeps I (case r of Inl e \<Rightarrow> f e | Inr x \<Rightarrow> g x)"
  by (cases r) simp_all

lemma io_keeps_case_option [io_keep]:
  "io_keeps I m \<Longrightarrow> (\<And>x. io_keeps I (g x)) \<Longrightarrow>
   io_keeps I (case r of None \<Rightarrow> m | Some x \<Rightarrow> g x)"
  by (cases r) simp_all

lemma io_keeps_case_prod [io_keep]:
  "(\<And>x y. io_keeps I (f x y)) \<Longrightarrow> io_keeps I (case p of (x, y) \<Rightarrow> f x y)"
  by (cases p) simp

lemma io_keeps_foreach [io_keep]:
  "(\<And>x. x \<in> set xs \<Longrightarrow> io_keeps I (f x)) \<Longrightarrow> io_keeps I (io_foreach f xs)"
  by (induction xs) (auto intro: io_keeps_seq)

section \<open>Triples\<close>

text \<open>
  What a computation started in \<^verbatim>\<open>P\<close> satisfies: \<^verbatim>\<open>Q\<close> of its result and the state it
  leaves, or \<^verbatim>\<open>E\<close> of the state when it returns an error.
\<close>

definition io_spec :: "('s \<Rightarrow> bool) \<Rightarrow> ('x, 's, 'a) io \<Rightarrow> ('a \<Rightarrow> 's \<Rightarrow> bool) \<Rightarrow> ('s \<Rightarrow> bool) \<Rightarrow> bool" where
  "io_spec P m Q E \<longleftrightarrow> (\<forall>s. P s \<longrightarrow> (case m s of (Inl e, t) \<Rightarrow> E t | (Inr x, t) \<Rightarrow> Q x t))"

named_theorems io_triple \<open>rules for triples\<close>

lemma io_specI:
  "(\<And>s e t. P s \<Longrightarrow> m s = (Inl e, t) \<Longrightarrow> E t) \<Longrightarrow> (\<And>s x t. P s \<Longrightarrow> m s = (Inr x, t) \<Longrightarrow> Q x t) \<Longrightarrow>
   io_spec P m Q E"
  by (auto simp: io_spec_def split: prod.splits sum.splits)

lemma io_spec_Inr: "io_spec P m Q E \<Longrightarrow> P s \<Longrightarrow> m s = (Inr x, t) \<Longrightarrow> Q x t"
  by (auto simp: io_spec_def)

lemma io_spec_Inl: "io_spec P m Q E \<Longrightarrow> P s \<Longrightarrow> m s = (Inl e, t) \<Longrightarrow> E t"
  by (auto simp: io_spec_def)

lemma io_spec_state:
  assumes "io_spec P m Q E" "P s" and "\<And>x t. Q x t \<Longrightarrow> E t"
  shows "E (snd (m s))"
  using assms by (cases "m s"; cases "fst (m s)") (auto simp: io_spec_def)

lemma io_spec_weaken:
  "io_spec P m Q E \<Longrightarrow> (\<And>s. P' s \<Longrightarrow> P s) \<Longrightarrow> (\<And>x s. Q x s \<Longrightarrow> Q' x s) \<Longrightarrow> (\<And>s. E s \<Longrightarrow> E' s) \<Longrightarrow>
   io_spec P' m Q' E'"
  by (fastforce simp: io_spec_def split: prod.splits sum.splits)

lemma io_spec_ret [io_triple]: "(\<And>s. P s \<Longrightarrow> Q x s) \<Longrightarrow> io_spec P (io_ret x) Q E"
  by (simp add: io_spec_def io_ret_def)

lemma io_spec_raise [io_triple]: "(\<And>s. P s \<Longrightarrow> E s) \<Longrightarrow> io_spec P (io_raise e) Q E"
  by (simp add: io_spec_def io_raise_def)

lemma io_spec_bind:
  assumes "io_spec P m R E" and "\<And>x. io_spec (R x) (k x) Q E"
  shows "io_spec P (io_bind m k) Q E"
proof (rule io_specI)
  fix s e t
  assume s: "P s" and b: "io_bind m k s = (Inl e, t)"
  show "E t"
  proof (cases "fst (m s)")
    case (Inl e')
    with b have "m s = (Inl e', t)" by (cases "m s") (simp add: io_bind_def)
    with assms(1) s show ?thesis by (rule io_spec_Inl)
  next
    case (Inr x)
    then obtain u where u: "m s = (Inr x, u)" by (cases "m s") simp
    with b have k: "k x u = (Inl e, t)" by (simp add: io_bind_def)
    from assms(1) s u have "R x u" by (rule io_spec_Inr)
    with assms(2) show ?thesis using k by (rule io_spec_Inl)
  qed
next
  fix s y t
  assume s: "P s" and "io_bind m k s = (Inr y, t)"
  then obtain x u where u: "m s = (Inr x, u)" and k: "k x u = (Inr y, t)"
    by (auto simp: io_bind_Inr)
  from assms(1) s u have "R x u" by (rule io_spec_Inr)
  with assms(2) show "Q y t" using k by (rule io_spec_Inr)
qed

lemma io_spec_seq:
  "io_spec P m (\<lambda>_. R) E \<Longrightarrow> io_spec R n Q E \<Longrightarrow> io_spec P (io_seq m n) Q E"
  unfolding io_seq_def by (rule io_spec_bind)

lemma io_spec_try:
  assumes "io_spec P m (\<lambda>x. R (Inr x)) E" and "\<And>e s. E s \<Longrightarrow> R (Inl e) s"
  shows "io_spec P (io_try m) R E'"
proof (rule io_specI)
  fix s r t
  assume s: "P s" and "io_try m s = (Inr r, t)"
  then have "m s = (r, t)" by simp
  with assms s show "R r t" by (cases r) (blast dest: io_spec_Inr io_spec_Inl)+
next
  fix s e t
  assume "io_try m s = (Inl e, t)"
  then show "E' t" by (simp add: io_try_def split: prod.splits)
qed

lemma io_spec_maperr: "io_spec P m Q E \<Longrightarrow> io_spec P (io_maperr g m) Q E"
  by (fastforce simp: io_spec_def io_maperr_def split: prod.splits sum.splits)

lemma io_spec_gets: "(\<And>s. P s \<Longrightarrow> Q (f s) s) \<Longrightarrow> io_spec P (io_gets f) Q E"
  by (simp add: io_spec_def io_gets_def)

lemma io_spec_keeps: "io_keeps I m \<Longrightarrow> io_spec I m (\<lambda>_. I) I"
  by (rule io_specI) (auto dest: io_keepsD)

text \<open>The branches of a computation, and a premise on values the state does not change.\<close>

lemma io_spec_if [io_triple]:
  "(b \<Longrightarrow> io_spec P m Q E) \<Longrightarrow> (\<not> b \<Longrightarrow> io_spec P n Q E) \<Longrightarrow> io_spec P (if b then m else n) Q E"
  by simp

lemma io_spec_case_sum [io_triple]:
  "(\<And>e. r = Inl e \<Longrightarrow> io_spec P (f e) Q E) \<Longrightarrow> (\<And>x. r = Inr x \<Longrightarrow> io_spec P (g x) Q E) \<Longrightarrow>
   io_spec P (case r of Inl e \<Rightarrow> f e | Inr x \<Rightarrow> g x) Q E"
  by (cases r) simp_all

lemma io_spec_case_option [io_triple]:
  "(r = None \<Longrightarrow> io_spec P m Q E) \<Longrightarrow> (\<And>x. r = Some x \<Longrightarrow> io_spec P (g x) Q E) \<Longrightarrow>
   io_spec P (case r of None \<Rightarrow> m | Some x \<Rightarrow> g x) Q E"
  by (cases r) simp_all

lemma io_spec_case_prod [io_triple]:
  "(\<And>x y. p = (x, y) \<Longrightarrow> io_spec P (f x y) Q E) \<Longrightarrow> io_spec P (case p of (x, y) \<Rightarrow> f x y) Q E"
  by (cases p) simp

lemma io_spec_premise: "(b \<Longrightarrow> io_spec P m Q E) \<Longrightarrow> io_spec (\<lambda>s. P s \<and> b) m Q E"
  by (auto simp: io_spec_def)

text \<open>A loop: the invariant speaks of the elements still to come.\<close>

lemma io_spec_foreach:
  assumes "\<And>x xs. io_spec (I (x # xs)) (f x) (\<lambda>_. I xs) E"
  shows "io_spec (I xs) (io_foreach f xs) (\<lambda>_. I []) E"
  by (induction xs) (auto intro: io_spec_ret io_spec_seq assms)

section \<open>Machine integers\<close>

text \<open>
  Go's \<^verbatim>\<open>int\<close> is 64 bits wide on the platforms the server runs on, and PostgreSQL's
  \<^verbatim>\<open>INTEGER\<close> is 32 bits.  An integer is an \<^typ>\<open>int\<close> here and \<^verbatim>\<open>i64\<close> is the
  two's-complement value that remains of an arithmetic result; \<^verbatim>\<open>in_i32\<close> is the
  range check of an \<^verbatim>\<open>INTEGER\<close> column.
\<close>

definition i64 :: "int \<Rightarrow> int" where
  "i64 x = (x + 2 ^ 63) mod 2 ^ 64 - 2 ^ 63"

definition in_i64 :: "int \<Rightarrow> bool" where
  "in_i64 x \<longleftrightarrow> - (2 ^ 63) \<le> x \<and> x < 2 ^ 63"

definition in_i32 :: "int \<Rightarrow> bool" where
  "in_i32 x \<longleftrightarrow> - (2 ^ 31) \<le> x \<and> x < 2 ^ 31"

text \<open>\<^verbatim>\<open>i64\<close> is what a signed 64-bit word holds.\<close>

lemma i64_sint: "i64 x = sint (word_of_int x :: 64 word)"
  by (simp add: i64_def signed_of_int signed_take_bit_eq_take_bit_shift take_bit_eq_mod)

lemma i64_id: "in_i64 x \<Longrightarrow> i64 x = x"
  by (simp add: i64_def in_i64_def)

lemma i64_range: "in_i64 (i64 x)"
  by (simp add: i64_def in_i64_def)

lemma in_i32_i64: "in_i32 x \<Longrightarrow> in_i64 x"
  by (simp add: in_i32_def in_i64_def)

text \<open>A product of two column values does not leave the 64-bit range.\<close>

lemma in_i32_mult: "in_i32 a \<Longrightarrow> in_i32 b \<Longrightarrow> \<bar>a * b\<bar> \<le> 2 ^ 62"
proof -
  assume "in_i32 a" and "in_i32 b"
  then have "\<bar>a\<bar> \<le> 2 ^ 31" and "\<bar>b\<bar> \<le> 2 ^ 31"
    by (auto simp: in_i32_def)
  then have "\<bar>a\<bar> * \<bar>b\<bar> \<le> 2 ^ 31 * 2 ^ 31"
    by (intro mult_mono) auto
  then show ?thesis by (simp add: abs_mult)
qed

text \<open>Go's integer division truncates towards zero.\<close>

definition go_div :: "int \<Rightarrow> int \<Rightarrow> int" where
  "go_div a b = sgn a * sgn b * (\<bar>a\<bar> div \<bar>b\<bar>)"

lemma go_div_nonneg: "0 \<le> a \<Longrightarrow> 0 < b \<Longrightarrow> go_div a b = a div b"
  by (cases "a = 0") (simp_all add: go_div_def)

section \<open>List-shaped tables\<close>

text \<open>A row lookup, the update of the matching rows, and their interaction.\<close>

definition upd_rows :: "('r \<Rightarrow> bool) \<Rightarrow> ('r \<Rightarrow> 'r) \<Rightarrow> 'r list \<Rightarrow> 'r list" where
  "upd_rows P f rows = map (\<lambda>r. if P r then f r else r) rows"

definition del_rows :: "('r \<Rightarrow> bool) \<Rightarrow> 'r list \<Rightarrow> 'r list" where
  "del_rows P rows = filter (\<lambda>r. \<not> P r) rows"

lemma upd_rows_Nil [simp]: "upd_rows P f [] = []"
  by (simp add: upd_rows_def)

lemma upd_rows_Cons [simp]:
  "upd_rows P f (r # rs) = (if P r then f r else r) # upd_rows P f rs"
  by (simp add: upd_rows_def)

lemma set_upd_rows: "set (upd_rows P f rows) = (\<lambda>r. if P r then f r else r) ` set rows"
  by (simp add: upd_rows_def)

lemma set_del_rows [simp]: "set (del_rows P rows) = {r \<in> set rows. \<not> P r}"
  by (auto simp: del_rows_def)

lemma length_upd_rows [simp]: "length (upd_rows P f rows) = length rows"
  by (simp add: upd_rows_def)

lemma map_upd_rows:
  "(\<And>r. P r \<Longrightarrow> g (f r) = g r) \<Longrightarrow> map g (upd_rows P f rows) = map g rows"
  by (simp add: upd_rows_def)

lemma distinct_map_del_rows: "distinct (map g rows) \<Longrightarrow> distinct (map g (del_rows P rows))"
  by (simp add: del_rows_def distinct_map_filter)

lemma map_filter_eq_Nil_set: "filter P xs = [] \<longleftrightarrow> (\<forall>x \<in> set xs. \<not> P x)"
  by (simp add: filter_empty_conv)

lemma find_Some_iff_distinct:
  assumes "distinct (map k rows)"
  shows "find (\<lambda>r. k r = x) rows = Some r \<longleftrightarrow> r \<in> set rows \<and> k r = x"
  using assms
proof (induction rows)
  case Nil
  then show ?case by simp
next
  case (Cons a rows)
  show ?case
  proof (cases "k a = x")
    case True
    with Cons.prems have "\<And>r. r \<in> set rows \<Longrightarrow> k r \<noteq> x"
      by (metis distinct.simps(2) image_eqI list.simps(9) set_map)
    with True show ?thesis by auto
  next
    case False
    with Cons show ?thesis by auto
  qed
qed

lemma find_SomeD: "find P xs = Some x \<Longrightarrow> x \<in> set xs \<and> P x"
  by (induction xs) (auto split: if_splits)

lemma find_None_iff_all: "find P xs = None \<longleftrightarrow> (\<forall>x \<in> set xs. \<not> P x)"
  by (induction xs) auto

lemma find_append: "find P (xs @ ys) = (case find P xs of None \<Rightarrow> find P ys | Some x \<Rightarrow> Some x)"
  by (induction xs) auto

lemma find_append_Some: "find P xs = Some x \<Longrightarrow> find P (xs @ ys) = Some x"
  by (simp add: find_append)

lemma find_map: "find P (map f xs) = map_option f (find (P \<circ> f) xs)"
  by (induction xs) auto

lemma map_default_upd: "(m(k \<mapsto> v)) k = Some v"
  by simp

text \<open>\<^verbatim>\<open>m[k]\<close> of a Go \<^verbatim>\<open>map[string]string\<close>: the empty string when absent.\<close>

definition mget :: "(string \<rightharpoonup> string) \<Rightarrow> string \<Rightarrow> string" where
  "mget m k = (case m k of None \<Rightarrow> '''' | Some v \<Rightarrow> v)"

lemma mget_upd [simp]: "mget (m(k \<mapsto> v)) k' = (if k' = k then v else mget m k')"
  by (simp add: mget_def)

lemma mget_empty [simp]: "mget Map.empty k = ''''"
  by (simp add: mget_def)

end
