(* ===== verification/GoLib.thy ===== *)
theory GoLib
  imports Prelude "HOL-Library.Sublist"
begin

text \<open>
  The part of Go's \<^verbatim>\<open>strings\<close> and \<^verbatim>\<open>strconv\<close> packages the server uses.  A Go
  string is a byte sequence, here a \<^typ>\<open>string\<close>.  The functions that look at letter case
  or white space treat the ASCII characters as Go does and leave the other bytes as they
  are, so the model is exact on ASCII text, which host names, labels, paths and numbers are.
\<close>

section \<open>Characters\<close>

definition code_of :: "char \<Rightarrow> nat" where
  "code_of c = of_char c"

definition is_lower :: "char \<Rightarrow> bool" where
  "is_lower c \<longleftrightarrow> 97 \<le> code_of c \<and> code_of c \<le> 122"

definition is_upper :: "char \<Rightarrow> bool" where
  "is_upper c \<longleftrightarrow> 65 \<le> code_of c \<and> code_of c \<le> 90"

definition is_digit :: "char \<Rightarrow> bool" where
  "is_digit c \<longleftrightarrow> 48 \<le> code_of c \<and> code_of c \<le> 57"

definition is_space :: "char \<Rightarrow> bool" where
  "is_space c \<longleftrightarrow> code_of c = 32 \<or> 9 \<le> code_of c \<and> code_of c \<le> 13"

definition lower_char :: "char \<Rightarrow> char" where
  "lower_char c = (if is_upper c then char_of (code_of c + 32) else c)"

lemma code_of_char_of [simp]: "n < 256 \<Longrightarrow> code_of (char_of n) = n"
  by (simp add: code_of_def)

lemma code_of_less [simp]: "code_of c < 256"
  by (simp add: code_of_def)

lemma code_of_eq_iff: "code_of c = code_of d \<longleftrightarrow> c = d"
  by (simp add: code_of_def)

lemma not_upper_lower_char [simp]: "\<not> is_upper (lower_char c)"
  by (auto simp: lower_char_def is_upper_def)

lemma lower_char_idem [simp]: "lower_char (lower_char c) = lower_char c"
  by (simp add: lower_char_def [of "lower_char c"])

lemma is_space_lower_char [simp]: "is_space (lower_char c) = is_space c"
  by (auto simp: lower_char_def is_upper_def is_space_def)

section \<open>strings\<close>

definition hasPrefix :: "string \<Rightarrow> string \<Rightarrow> bool" where
  "hasPrefix s p \<longleftrightarrow> take (length p) s = p"

definition hasSuffix :: "string \<Rightarrow> string \<Rightarrow> bool" where
  "hasSuffix s p \<longleftrightarrow> length p \<le> length s \<and> drop (length s - length p) s = p"

definition trimPrefix :: "string \<Rightarrow> string \<Rightarrow> string" where
  "trimPrefix s p = (if hasPrefix s p then drop (length p) s else s)"

definition trimSuffix :: "string \<Rightarrow> string \<Rightarrow> string" where
  "trimSuffix s p = (if hasSuffix s p then take (length s - length p) s else s)"

definition trimWith :: "(char \<Rightarrow> bool) \<Rightarrow> string \<Rightarrow> string" where
  "trimWith P s = rev (dropWhile P (rev (dropWhile P s)))"

definition trimSpace :: "string \<Rightarrow> string" where
  "trimSpace s = trimWith is_space s"

definition toLower :: "string \<Rightarrow> string" where
  "toLower s = map lower_char s"

text \<open>\<^verbatim>\<open>strings.EqualFold\<close> on ASCII text.\<close>

definition equalFold :: "string \<Rightarrow> string \<Rightarrow> bool" where
  "equalFold s t \<longleftrightarrow> toLower s = toLower t"

text \<open>\<^verbatim>\<open>strings.IndexByte\<close>: \<^const>\<open>None\<close> for Go's \<^verbatim>\<open>-1\<close>.\<close>

fun indexByte :: "string \<Rightarrow> char \<Rightarrow> nat option" where
  "indexByte [] b = None"
| "indexByte (c # cs) b = (if c = b then Some 0 else map_option Suc (indexByte cs b))"

definition containsAny :: "string \<Rightarrow> string \<Rightarrow> bool" where
  "containsAny s chars \<longleftrightarrow> (\<exists>c \<in> set s. c \<in> set chars)"

text \<open>\<^verbatim>\<open>strings.Split\<close> by a separator of one character.\<close>

fun splitChar :: "char \<Rightarrow> string \<Rightarrow> string list" where
  "splitChar b [] = [[]]"
| "splitChar b (c # cs) =
     (if c = b then [] # splitChar b cs
      else (case splitChar b cs of [] \<Rightarrow> [[c]] | p # ps \<Rightarrow> (c # p) # ps))"

text \<open>\<^verbatim>\<open>strings.SplitN\<close> by a separator of one character: at most \<^verbatim>\<open>n\<close> parts.\<close>

fun splitN :: "nat \<Rightarrow> char \<Rightarrow> string \<Rightarrow> string list" where
  "splitN 0 b s = []"
| "splitN (Suc 0) b s = [s]"
| "splitN (Suc (Suc n)) b s =
     (case indexByte s b of None \<Rightarrow> [s]
      | Some i \<Rightarrow> take i s # splitN (Suc n) b (drop (Suc i) s))"

fun joinWith :: "string \<Rightarrow> string list \<Rightarrow> string" where
  "joinWith sep [] = []"
| "joinWith sep [p] = p"
| "joinWith sep (p # ps) = p @ sep @ joinWith sep ps"

lemma hasPrefix_iff: "hasPrefix s p \<longleftrightarrow> (\<exists>t. s = p @ t)"
  by (metis append_eq_conv_conj append_take_drop_id hasPrefix_def)

lemma hasPrefix_append [simp]: "hasPrefix (p @ t) p"
  by (simp add: hasPrefix_def)

lemma trimPrefix_append [simp]: "trimPrefix (p @ t) p = t"
  by (simp add: trimPrefix_def)

lemma hasSuffix_append [simp]: "hasSuffix (t @ p) p"
  by (simp add: hasSuffix_def)

lemma hasSuffix_iff: "hasSuffix s p \<longleftrightarrow> (\<exists>t. s = t @ p)"
  by (metis append_take_drop_id hasSuffix_append hasSuffix_def)

lemma trimSuffix_append [simp]: "trimSuffix (t @ p) p = t"
  by (simp add: trimSuffix_def)

lemma toLower_Nil [simp]: "toLower [] = []"
  by (simp add: toLower_def)

lemma toLower_append [simp]: "toLower (s @ t) = toLower s @ toLower t"
  by (simp add: toLower_def)

lemma toLower_idem [simp]: "toLower (toLower s) = toLower s"
  by (simp add: toLower_def)

lemma toLower_eq_Nil [simp]: "toLower s = [] \<longleftrightarrow> s = []"
  by (simp add: toLower_def)

lemma trimWith_Nil [simp]: "trimWith P [] = []"
  by (simp add: trimWith_def)

lemma trimWith_ends:
  assumes "trimWith P s \<noteq> []"
  shows "\<not> P (hd (trimWith P s))" and "\<not> P (last (trimWith P s))"
proof -
  let ?d = "dropWhile P s"
  let ?r = "dropWhile P (rev ?d)"
  from assms have r: "?r \<noteq> []" by (simp add: trimWith_def)
  then have "\<not> P (hd ?r)" by (simp add: hd_dropWhile)
  with r show "\<not> P (last (trimWith P s))" by (simp add: trimWith_def last_rev)
  from r have d: "?d \<noteq> []" by (metis dropWhile.simps(1) rev.simps(1))
  obtain pre where "rev ?d = pre @ ?r"
    by (metis takeWhile_dropWhile_id)
  then have "?d = rev ?r @ rev pre" by (metis rev_append rev_rev_ident)
  with r have "hd (rev ?r) = hd ?d" by (metis hd_append2 rev_is_Nil_conv)
  with d show "\<not> P (hd (trimWith P s))" by (simp add: trimWith_def hd_dropWhile)
qed

lemma trimWith_id:
  "s = [] \<or> \<not> P (hd s) \<and> \<not> P (last s) \<Longrightarrow> trimWith P s = s"
proof -
  assume *: "s = [] \<or> \<not> P (hd s) \<and> \<not> P (last s)"
  show ?thesis
  proof (cases "s = []")
    case True
    then show ?thesis by simp
  next
    case False
    with * have "dropWhile P s = s" by (cases s) auto
    moreover from False * have "dropWhile P (rev s) = rev s"
      by (metis dropWhile_eq_self_iff hd_rev)
    ultimately show ?thesis by (simp add: trimWith_def)
  qed
qed

lemma trimWith_idem [simp]: "trimWith P (trimWith P s) = trimWith P s"
  using trimWith_ends [of P s] by (intro trimWith_id) auto

lemma set_trimWith: "set (trimWith P s) \<subseteq> set s"
proof
  fix x
  assume "x \<in> set (trimWith P s)"
  then have "x \<in> set (dropWhile P s)" by (auto simp: trimWith_def dest: set_dropWhileD)
  then show "x \<in> set s" by (rule set_dropWhileD)
qed

lemma trimSpace_idem [simp]: "trimSpace (trimSpace s) = trimSpace s"
  by (simp add: trimSpace_def)

lemma indexByte_None: "indexByte s b = None \<longleftrightarrow> b \<notin> set s"
  by (induction s) auto

lemma indexByte_Some:
  "indexByte s b = Some i \<Longrightarrow> i < length s \<and> s ! i = b \<and> b \<notin> set (take i s)"
proof (induction s arbitrary: i)
  case Nil
  then show ?case by simp
next
  case (Cons c cs)
  then show ?case by (auto split: if_splits)
qed

lemma indexByte_append: "b \<notin> set p \<Longrightarrow> indexByte (p @ b # s) b = Some (length p)"
  by (induction p) auto

lemma indexByte_split: "indexByte s b = Some i \<Longrightarrow> s = take i s @ b # drop (Suc i) s"
  using indexByte_Some [of s b i] id_take_nth_drop [of i s] by metis

lemma splitChar_neq_Nil [simp]: "splitChar b s \<noteq> []"
  by (induction s) (auto split: list.splits)

lemma splitChar_no_sep: "b \<notin> set s \<Longrightarrow> splitChar b s = [s]"
  by (induction s) auto

lemma splitChar_append_sep:
  "b \<notin> set p \<Longrightarrow> splitChar b (p @ b # s) = p # splitChar b s"
  by (induction p) auto

lemma splitChar_parts: "p \<in> set (splitChar b s) \<Longrightarrow> b \<notin> set p"
proof (induction s arbitrary: p)
  case Nil
  then show ?case by simp
next
  case (Cons c cs)
  then show ?case by (cases "splitChar b cs") (auto split: if_splits)
qed

lemma joinWith_Cons: "ps \<noteq> [] \<Longrightarrow> joinWith sep (p # ps) = p @ sep @ joinWith sep ps"
  by (cases ps) auto

lemma joinWith_append:
  "ps \<noteq> [] \<Longrightarrow> qs \<noteq> [] \<Longrightarrow> joinWith sep (ps @ qs) = joinWith sep ps @ sep @ joinWith sep qs"
  by (induction ps rule: induct_list012) (auto simp: joinWith_Cons)

lemma splitChar_joinWith:
  "ps \<noteq> [] \<Longrightarrow> (\<And>p. p \<in> set ps \<Longrightarrow> b \<notin> set p) \<Longrightarrow> splitChar b (joinWith [b] ps) = ps"
  by (induction ps rule: induct_list012) (auto simp: splitChar_no_sep splitChar_append_sep)

lemma joinWith_splitChar: "joinWith [b] (splitChar b s) = s"
proof (induction s)
  case Nil
  then show ?case by simp
next
  case (Cons c cs)
  obtain p ps where "splitChar b cs = p # ps" by (cases "splitChar b cs") auto
  with Cons show ?case by (cases ps) auto
qed

section \<open>strconv\<close>

definition digit_char :: "nat \<Rightarrow> char" where
  "digit_char d = char_of (d + 48)"

definition digit_val :: "char \<Rightarrow> nat" where
  "digit_val c = code_of c - 48"

fun nat_digits :: "nat \<Rightarrow> string" where
  "nat_digits n = (if n < 10 then [digit_char n] else nat_digits (n div 10) @ [digit_char (n mod 10)])"

declare nat_digits.simps [simp del]

definition digits_val :: "string \<Rightarrow> nat" where
  "digits_val ds = foldl (\<lambda>v c. 10 * v + digit_val c) 0 ds"

text \<open>\<^verbatim>\<open>strconv.Itoa\<close> and \<^verbatim>\<open>fmt.Sprintf\<close> with \<^verbatim>\<open>%d\<close>.\<close>

definition goItoa :: "int \<Rightarrow> string" where
  "goItoa n = (if n < 0 then CHR ''-'' # nat_digits (nat (- n)) else nat_digits (nat n))"

text \<open>
  \<^verbatim>\<open>strconv.Atoi\<close>: an optional sign, at least one digit, nothing else, and a value
  in the range of \<^verbatim>\<open>int\<close>.  \<^const>\<open>None\<close> is either of its two errors.
\<close>

definition parse_digits :: "string \<Rightarrow> nat option" where
  "parse_digits ds = (if ds \<noteq> [] \<and> list_all is_digit ds then Some (digits_val ds) else None)"

definition signed_val :: "string \<Rightarrow> int option" where
  "signed_val s = (case s of
       [] \<Rightarrow> None
     | c # cs \<Rightarrow>
         if c = CHR ''-'' then map_option (\<lambda>n. - int n) (parse_digits cs)
         else if c = CHR ''+'' then map_option int (parse_digits cs)
         else map_option int (parse_digits s))"

definition goAtoi :: "string \<Rightarrow> int option" where
  "goAtoi s = (case signed_val s of None \<Rightarrow> None | Some n \<Rightarrow> if in_i64 n then Some n else None)"

text \<open>
  The value \<^verbatim>\<open>strconv.ParseInt(s, 10, 64)\<close> returns when its error is ignored: 0 for
  text that is no number, the nearest 64-bit value for a number out of range.
\<close>

definition parseInt_value :: "string \<Rightarrow> int" where
  "parseInt_value s = (case signed_val s of
       None \<Rightarrow> 0
     | Some n \<Rightarrow> if n < - (2 ^ 63) then - (2 ^ 63) else if 2 ^ 63 \<le> n then 2 ^ 63 - 1 else n)"

lemma digit_char_val [simp]: "d < 10 \<Longrightarrow> digit_val (digit_char d) = d"
  by (simp add: digit_val_def digit_char_def)

lemma is_digit_digit_char [simp]: "d < 10 \<Longrightarrow> is_digit (digit_char d)"
  by (simp add: is_digit_def digit_char_def)

lemma nat_digits_neq_Nil [simp]: "nat_digits n \<noteq> []"
  by (subst nat_digits.simps) simp

lemma nat_digits_all: "list_all is_digit (nat_digits n)"
proof (induction n rule: nat_digits.induct)
  case (1 n)
  then show ?case by (subst nat_digits.simps) auto
qed

lemma digits_val_snoc [simp]: "digits_val (ds @ [c]) = 10 * digits_val ds + digit_val c"
  by (simp add: digits_val_def)

lemma digits_val_nat_digits [simp]: "digits_val (nat_digits n) = n"
proof (induction n rule: nat_digits.induct)
  case (1 n)
  then show ?case by (subst nat_digits.simps) (auto simp: digits_val_def)
qed

lemma parse_digits_nat_digits [simp]: "parse_digits (nat_digits n) = Some n"
  by (simp add: parse_digits_def nat_digits_all)

lemma nat_digits_inj: "nat_digits m = nat_digits n \<longleftrightarrow> m = n"
  by (metis digits_val_nat_digits)

lemma not_digit_sign [simp]: "\<not> is_digit CHR ''-''" "\<not> is_digit CHR ''+''"
  by (simp_all add: is_digit_def code_of_def)

lemma hd_nat_digits: "is_digit (hd (nat_digits n))"
  using nat_digits_all [of n] by (cases "nat_digits n") auto

lemma signed_val_goItoa [simp]: "signed_val (goItoa n) = Some n"
proof (cases "n < 0")
  case True
  then show ?thesis by (simp add: goItoa_def signed_val_def)
next
  case False
  obtain c cs where c: "nat_digits (nat n) = c # cs"
    by (cases "nat_digits (nat n)") auto
  with hd_nat_digits [of "nat n"] have "c \<noteq> CHR ''-''" "c \<noteq> CHR ''+''"
    by auto
  with c False parse_digits_nat_digits [of "nat n"] show ?thesis
    by (simp add: goItoa_def signed_val_def)
qed

lemma goAtoi_goItoa: "in_i64 n \<Longrightarrow> goAtoi (goItoa n) = Some n"
  by (simp add: goAtoi_def)

lemma goItoa_inj: "goItoa m = goItoa n \<longleftrightarrow> m = n"
  by (metis option.inject signed_val_goItoa)

lemma goItoa_chars: "c \<in> set (goItoa n) \<Longrightarrow> is_digit c \<or> c = CHR ''-''"
  using nat_digits_all by (auto simp: goItoa_def list_all_iff split: if_splits)

lemma goAtoi_in_i64: "goAtoi s = Some n \<Longrightarrow> in_i64 n"
  by (auto simp: goAtoi_def split: option.splits if_splits)

lemma parseInt_value_goItoa: "in_i64 n \<Longrightarrow> parseInt_value (goItoa n) = n"
  by (simp add: parseInt_value_def in_i64_def)

section \<open>Quoted text\<close>

text \<open>\<^verbatim>\<open>fmt.Sprintf\<close> with \<^verbatim>\<open>%q\<close> on ASCII text.\<close>

definition hex_char :: "nat \<Rightarrow> char" where
  "hex_char d = char_of (if d < 10 then 48 + d else 87 + d)"

definition quote_char :: "char \<Rightarrow> string" where
  "quote_char c =
     (if c = CHR 0x22 \<or> c = CHR 0x5C then [CHR 0x5C, c]
      else if c = CHR 0x07 then [CHR 0x5C, CHR ''a''] else if c = CHR 0x08 then [CHR 0x5C, CHR ''b'']
      else if c = CHR 0x0C then [CHR 0x5C, CHR ''f''] else if c = CHR 0x0A then [CHR 0x5C, CHR ''n'']
      else if c = CHR 0x0D then [CHR 0x5C, CHR ''r''] else if c = CHR 0x09 then [CHR 0x5C, CHR ''t'']
      else if c = CHR 0x0B then [CHR 0x5C, CHR ''v'']
      else if code_of c < 32 \<or> code_of c = 127
        then [CHR 0x5C, CHR ''x'', hex_char (code_of c div 16), hex_char (code_of c mod 16)]
      else [c])"

definition go_quote :: "string \<Rightarrow> string" where
  "go_quote s = [CHR 0x22] @ concat (map quote_char s) @ [CHR 0x22]"

end
