(* ===== verification/StoreTypes.thy ===== *)
theory StoreTypes
  imports GoLib "HOL-Library.List_Lexorder" "HOL-Library.Char_ord"
begin

text \<open>
  The rows of the PostgreSQL schema in \<^verbatim>\<open>store.go\<close> (method \<^verbatim>\<open>migrate\<close>) and the
  database that holds them.  A table is the list of its rows in insertion order; the
  \<^verbatim>\<open>BIGSERIAL\<close> sequence of a table is a counter that never goes back.  Strings that are
  an enumeration in Go (\<^verbatim>\<open>Role\<close>, \<^verbatim>\<open>RequestStatus\<close>, \<^verbatim>\<open>TunnelKind\<close>) are strings
  here too, because the columns are \<^verbatim>\<open>TEXT\<close> without a check.

  Text columns holding JSON (\<^verbatim>\<open>env\<close>, \<^verbatim>\<open>advanced\<close> of a service) are represented by
  the value the JSON text encodes.
\<close>

section \<open>Rows\<close>

record route =
  rt_id :: int
  rt_subdomain :: string
  rt_containerID :: string
  rt_targetHost :: string
  rt_targetPort :: int
  rt_endpointID :: int
  rt_createdAt :: int

definition TunnelWiFi :: string where "TunnelWiFi = ''wifi''"
definition TunnelSSH :: string where "TunnelSSH = ''ssh''"

record tunnel =
  tn_id :: int
  tn_kind :: string
  tn_name :: string
  tn_sshHost :: string
  tn_sshPort :: int
  tn_sshUser :: string
  tn_remotePort :: int
  tn_localPort :: int
  tn_enabled :: bool
  tn_createdAt :: int

record registry =
  rg_id :: int
  rg_name :: string
  rg_url :: string
  rg_username :: string
  rg_passwordEnc :: string
  rg_owner :: string
  rg_createdAt :: int

definition RoleAdmin :: string where "RoleAdmin = ''admin''"
definition RoleMember :: string where "RoleMember = ''member''"

record user =
  us_id :: int
  us_username :: string
  us_passwordHash :: string
  us_role :: string
  us_cpuQuotaMilli :: int
  us_memQuotaMB :: int
  us_diskQuotaMB :: int
  us_createdAt :: int

definition StatusPending :: string where "StatusPending = ''pending''"
definition StatusApproved :: string where "StatusApproved = ''approved''"
definition StatusRejected :: string where "StatusRejected = ''rejected''"

record resource_request =
  rr_id :: int
  rr_userID :: int
  rr_username :: string
  rr_endpointID :: int
  rr_cpuMilli :: int
  rr_memMB :: int
  rr_diskMB :: int
  rr_note :: string
  rr_status :: string
  rr_reviewedBy :: string
  rr_reviewNote :: string
  rr_createdAt :: int
  rr_reviewedAt :: "int option"

record endpoint =
  ep_id :: int
  ep_name :: string
  ep_host :: string
  ep_tlsCAEnc :: string
  ep_tlsCertEnc :: string
  ep_tlsKeyEnc :: string
  ep_tls :: bool
  ep_createdAt :: int

record endpoint_grant =
  eg_endpointID :: int
  eg_cpuQuotaMilli :: int
  eg_memQuotaMB :: int
  eg_diskQuotaMB :: int

record volume_spec =
  vs_endpointID :: int
  vs_name :: string
  vs_owner :: string
  vs_sizeMB :: int

text \<open>The container options of \<^verbatim>\<open>docker/spec.go\<close>, persisted with a service.\<close>

record port_map =
  pm_hostIP :: string
  pm_hostPort :: string
  pm_containerPort :: string
  pm_proto :: string

record volume_mount =
  vm_type :: string
  vm_source :: string
  vm_target :: string
  vm_readOnly :: bool

record health_check =
  hc_test :: "string list"
  hc_intervalSec :: int
  hc_timeoutSec :: int
  hc_retries :: int
  hc_startSec :: int

record advanced_spec =
  ad_ports :: "port_map list"
  ad_mounts :: "volume_mount list"
  ad_command :: "string list"
  ad_entrypoint :: "string list"
  ad_workingDir :: string
  ad_user :: string
  ad_hostname :: string
  ad_labels :: "(string \<times> string) list"
  ad_extraHosts :: "string list"
  ad_restartPolicy :: string
  ad_restartRetries :: int
  ad_capAdd :: "string list"
  ad_capDrop :: "string list"
  ad_privileged :: bool
  ad_readonlyRootfs :: bool
  ad_init :: bool
  ad_dns :: "string list"
  ad_devices :: "string list"
  ad_sysctls :: "(string \<times> string) list"
  ad_tmpfs :: "(string \<times> string) list"
  ad_pidsLimit :: int
  ad_memorySwapMB :: int
  ad_cpuShares :: int
  ad_stopSignal :: string
  ad_stopTimeoutSec :: int
  ad_logDriver :: string
  ad_logOpts :: "(string \<times> string) list"
  ad_health :: "health_check option"

text \<open>The zero value of \<^verbatim>\<open>AdvancedSpec\<close>, which is what the JSON text \<^verbatim>\<open>{}\<close> encodes.\<close>

definition advanced_zero :: advanced_spec where
  "advanced_zero = \<lparr>ad_ports = [], ad_mounts = [], ad_command = [], ad_entrypoint = [],
     ad_workingDir = '''', ad_user = '''', ad_hostname = '''', ad_labels = [],
     ad_extraHosts = [], ad_restartPolicy = '''', ad_restartRetries = 0, ad_capAdd = [],
     ad_capDrop = [], ad_privileged = False, ad_readonlyRootfs = False, ad_init = False,
     ad_dns = [], ad_devices = [], ad_sysctls = [], ad_tmpfs = [], ad_pidsLimit = 0,
     ad_memorySwapMB = 0, ad_cpuShares = 0, ad_stopSignal = '''', ad_stopTimeoutSec = 0,
     ad_logDriver = '''', ad_logOpts = [], ad_health = None\<rparr>"

record service =
  sv_id :: int
  sv_name :: string
  sv_owner :: string
  sv_image :: string
  sv_subdomain :: string
  sv_containerPort :: int
  sv_network :: string
  sv_env :: string
  sv_cpuMilli :: int
  sv_memMB :: int
  sv_replicas :: int
  sv_minReplicas :: int
  sv_maxReplicas :: int
  sv_autoscale :: bool
  sv_targetCPUPct :: int
  sv_gitRepo :: string
  sv_gitBranch :: string
  sv_gitDockerfile :: string
  sv_webhookToken :: string
  sv_lastImage :: string
  sv_lastDeployAt :: "int option"
  sv_advanced :: string
  sv_endpointID :: int
  sv_createdAt :: int

section \<open>The database\<close>

datatype table = TRoutes | TTunnels | TEndpoints | TRegistries | TUsers | TRequests | TServices

text \<open>
  \<^verbatim>\<open>db_now\<close> is the server's clock (\<^verbatim>\<open>now()\<close>) and \<^verbatim>\<open>db_collate\<close> the sort key
  of its text collation (what \<^verbatim>\<open>ORDER BY\<close> of a text column compares).
\<close>

record db =
  db_routes :: "route list"
  db_tunnels :: "tunnel list"
  db_endpoints :: "endpoint list"
  db_registries :: "registry list"
  db_users :: "user list"
  db_requests :: "resource_request list"
  db_services :: "service list"
  db_user_endpoints :: "(int \<times> endpoint_grant) list"
  db_volume_specs :: "volume_spec list"
  db_seq :: "table \<Rightarrow> int"
  db_now :: int
  db_collate :: "string \<Rightarrow> string"

text \<open>The schema right after \<^verbatim>\<open>migrate\<close> on an empty database.\<close>

definition db_empty :: db where
  "db_empty = \<lparr>db_routes = [], db_tunnels = [], db_endpoints = [], db_registries = [],
     db_users = [], db_requests = [], db_services = [], db_user_endpoints = [],
     db_volume_specs = [], db_seq = (\<lambda>_. 0), db_now = 0, db_collate = (\<lambda>s. s)\<rparr>"

text \<open>A statement of the store: a result or an error, and the database after it.\<close>

type_synonym 'a stmt = "(goerr, db, 'a) io"

text \<open>\<^verbatim>\<open>nextval\<close>: the value is consumed even when the insert then fails.\<close>

definition next_id :: "table \<Rightarrow> db \<Rightarrow> int" where
  "next_id t d = db_seq d t + 1"

definition bump_seq :: "table \<Rightarrow> db \<Rightarrow> db" where
  "bump_seq t d = d\<lparr>db_seq := (db_seq d)(t := db_seq d t + 1)\<rparr>"

definition errUnique :: goerr where "errUnique = Ext ''duplicate key value violates unique constraint''"
definition errForeignKey :: goerr where "errForeignKey = Ext ''violates foreign key constraint''"
definition errRange :: goerr where "errRange = Ext ''is greater than maximum value for int4''"

section \<open>Tables with a serial id and a unique key\<close>

definition tbl_ok :: "('r \<Rightarrow> int) \<Rightarrow> ('r \<Rightarrow> 'k) \<Rightarrow> int \<Rightarrow> 'r list \<Rightarrow> bool" where
  "tbl_ok rid key n rows \<longleftrightarrow> 0 \<le> n \<and> distinct (map rid rows) \<and> distinct (map key rows) \<and>
     (\<forall>r \<in> set rows. 0 < rid r \<and> rid r \<le> n)"

named_theorems tbl \<open>facts about well-formed tables\<close>

lemma tbl_ok_empty [tbl]: "tbl_ok rid key 0 []"
  by (simp add: tbl_ok_def)

lemma tbl_ok_mono [tbl]: "tbl_ok rid key n rows \<Longrightarrow> n \<le> m \<Longrightarrow> tbl_ok rid key m rows"
  by (force simp: tbl_ok_def)

lemma tbl_ok_bump [tbl]: "tbl_ok rid key n rows \<Longrightarrow> tbl_ok rid key (n + 1) rows"
  by (rule tbl_ok_mono) auto

lemma tbl_ok_insert [tbl]:
  assumes "tbl_ok rid key n rows" and "rid r = n + 1" and "key r \<notin> key ` set rows"
  shows "tbl_ok rid key (n + 1) (rows @ [r])"
  using assms by (force simp: tbl_ok_def)

lemma tbl_ok_upd [tbl]:
  assumes "tbl_ok rid key n rows"
    and "\<And>r. P r \<Longrightarrow> rid (f r) = rid r" and "\<And>r. P r \<Longrightarrow> key (f r) = key r"
  shows "tbl_ok rid key n (upd_rows P f rows)"
  using assms by (auto simp: tbl_ok_def map_upd_rows set_upd_rows)

lemma tbl_ok_del [tbl]: "tbl_ok rid key n rows \<Longrightarrow> tbl_ok rid key n (del_rows P rows)"
  by (auto simp: tbl_ok_def distinct_map_del_rows)

lemma tbl_ok_key: "tbl_ok rid key n rows \<Longrightarrow> distinct (map key rows)"
  by (simp add: tbl_ok_def)

lemma tbl_ok_id: "tbl_ok rid key n rows \<Longrightarrow> distinct (map rid rows)"
  by (simp add: tbl_ok_def)

lemma tbl_ok_find_id:
  "tbl_ok rid key n rows \<Longrightarrow> find (\<lambda>r. rid r = x) rows = Some r \<longleftrightarrow> r \<in> set rows \<and> rid r = x"
  by (simp add: find_Some_iff_distinct tbl_ok_id)

lemma tbl_ok_find_key:
  "tbl_ok rid key n rows \<Longrightarrow> find (\<lambda>r. key r = x) rows = Some r \<longleftrightarrow> r \<in> set rows \<and> key r = x"
  by (simp add: find_Some_iff_distinct tbl_ok_key)

lemma tbl_ok_same_id:
  "tbl_ok rid key n rows \<Longrightarrow> r \<in> set rows \<Longrightarrow> q \<in> set rows \<Longrightarrow> rid r = rid q \<Longrightarrow> r = q"
  by (auto simp: tbl_ok_def distinct_map dest: inj_onD)

lemma tbl_ok_same_key:
  "tbl_ok rid key n rows \<Longrightarrow> r \<in> set rows \<Longrightarrow> q \<in> set rows \<Longrightarrow> key r = key q \<Longrightarrow> r = q"
  by (auto simp: tbl_ok_def distinct_map dest: inj_onD)

section \<open>Integrity of the database\<close>

text \<open>
  What the schema's constraints promise: primary keys, unique columns, foreign keys and the
  ranges of the \<^verbatim>\<open>INTEGER\<close> columns.
\<close>

definition users_ok :: "db \<Rightarrow> bool" where
  "users_ok d \<longleftrightarrow> tbl_ok us_id us_username (db_seq d TUsers) (db_users d) \<and>
     (\<forall>u \<in> set (db_users d). in_i32 (us_cpuQuotaMilli u) \<and> in_i32 (us_memQuotaMB u))"

definition services_ok :: "db \<Rightarrow> bool" where
  "services_ok d \<longleftrightarrow> tbl_ok sv_id sv_name (db_seq d TServices) (db_services d) \<and>
     (\<forall>s \<in> set (db_services d). in_i32 (sv_containerPort s) \<and> in_i32 (sv_cpuMilli s) \<and>
        in_i32 (sv_memMB s) \<and> in_i32 (sv_replicas s) \<and> in_i32 (sv_minReplicas s) \<and>
        in_i32 (sv_maxReplicas s) \<and> in_i32 (sv_targetCPUPct s))"

definition routes_ok :: "db \<Rightarrow> bool" where
  "routes_ok d \<longleftrightarrow> tbl_ok rt_id rt_subdomain (db_seq d TRoutes) (db_routes d) \<and>
     (\<forall>r \<in> set (db_routes d). in_i32 (rt_targetPort r))"

definition registries_ok :: "db \<Rightarrow> bool" where
  "registries_ok d \<longleftrightarrow> tbl_ok rg_id rg_name (db_seq d TRegistries) (db_registries d)"

definition tunnels_ok :: "db \<Rightarrow> bool" where
  "tunnels_ok d \<longleftrightarrow> tbl_ok tn_id tn_id (db_seq d TTunnels) (db_tunnels d)"

definition endpoints_ok :: "db \<Rightarrow> bool" where
  "endpoints_ok d \<longleftrightarrow> tbl_ok ep_id ep_id (db_seq d TEndpoints) (db_endpoints d)"

definition requests_ok :: "db \<Rightarrow> bool" where
  "requests_ok d \<longleftrightarrow> tbl_ok rr_id rr_id (db_seq d TRequests) (db_requests d) \<and>
     (\<forall>r \<in> set (db_requests d). rr_userID r \<in> us_id ` set (db_users d) \<and>
        in_i32 (rr_cpuMilli r) \<and> in_i32 (rr_memMB r))"

definition grants_ok :: "db \<Rightarrow> bool" where
  "grants_ok d \<longleftrightarrow> distinct (map (\<lambda>(u, g). (u, eg_endpointID g)) (db_user_endpoints d)) \<and>
     (\<forall>(u, g) \<in> set (db_user_endpoints d). u \<in> us_id ` set (db_users d) \<and>
        eg_endpointID g \<in> ep_id ` set (db_endpoints d) \<and>
        in_i32 (eg_cpuQuotaMilli g) \<and> in_i32 (eg_memQuotaMB g))"

definition volumes_ok :: "db \<Rightarrow> bool" where
  "volumes_ok d \<longleftrightarrow> distinct (map (\<lambda>v. (vs_endpointID v, vs_name v)) (db_volume_specs d))"

definition db_ok :: "db \<Rightarrow> bool" where
  "db_ok d \<longleftrightarrow> users_ok d \<and> services_ok d \<and> routes_ok d \<and> registries_ok d \<and> tunnels_ok d \<and>
     endpoints_ok d \<and> requests_ok d \<and> grants_ok d \<and> volumes_ok d"

lemmas db_ok_defs = users_ok_def services_ok_def routes_ok_def registries_ok_def tunnels_ok_def
  endpoints_ok_def requests_ok_def grants_ok_def volumes_ok_def

lemma db_ok_empty: "db_ok db_empty"
  by (simp add: db_ok_def db_ok_defs db_empty_def tbl_ok_empty)

lemma db_okD:
  "db_ok d \<Longrightarrow> users_ok d" "db_ok d \<Longrightarrow> services_ok d" "db_ok d \<Longrightarrow> routes_ok d"
  "db_ok d \<Longrightarrow> registries_ok d" "db_ok d \<Longrightarrow> tunnels_ok d" "db_ok d \<Longrightarrow> endpoints_ok d"
  "db_ok d \<Longrightarrow> requests_ok d" "db_ok d \<Longrightarrow> grants_ok d" "db_ok d \<Longrightarrow> volumes_ok d"
  by (simp_all add: db_ok_def)

text \<open>The clock and the collation are not part of the integrity.\<close>

lemma db_ok_now [simp]: "db_ok (d\<lparr>db_now := n\<rparr>) = db_ok d"
  by (simp add: db_ok_def db_ok_defs)

end
