(* ===== verification/KeyValue.thy ===== *)
theory KeyValue
  imports StoreTypes
begin

text \<open>
  The contract that the keyed tables of the database share, as a locale: what a lookup
  returns after an \<^verbatim>\<open>INSERT ... ON CONFLICT DO UPDATE\<close> and after a \<^verbatim>\<open>DELETE\<close>.
  The store theories interpret it on the routes, the environment grants and the volume
  budgets; the lemmas on sequences of writes are proved here once.
\<close>

section \<open>Upsert on a list of rows\<close>

definition row_look :: "('r \<Rightarrow> 'k) \<Rightarrow> 'r list \<Rightarrow> 'k \<Rightarrow> 'r option" where
  "row_look key rows k = find (\<lambda>r. key r = k) rows"

text \<open>\<^verbatim>\<open>INSERT r ON CONFLICT (key) DO UPDATE SET f\<close>.\<close>

definition upsert_row :: "('r \<Rightarrow> 'k) \<Rightarrow> ('r \<Rightarrow> 'r) \<Rightarrow> 'r \<Rightarrow> 'r list \<Rightarrow> 'r list" where
  "upsert_row key f r rows =
     (if key r \<in> key ` set rows then upd_rows (\<lambda>x. key x = key r) f rows else rows @ [r])"

lemma row_look_Some:
  "distinct (map key rows) \<Longrightarrow> row_look key rows k = Some r \<longleftrightarrow> r \<in> set rows \<and> key r = k"
  by (simp add: row_look_def find_Some_iff_distinct)

lemma row_look_None: "row_look key rows k = None \<longleftrightarrow> k \<notin> key ` set rows"
  by (auto simp: row_look_def find_None_iff_all)

lemma row_look_append:
  "row_look key (rows @ [r]) k =
     (case row_look key rows k of None \<Rightarrow> if key r = k then Some r else None | Some q \<Rightarrow> Some q)"
  by (induction rows) (auto simp: row_look_def)

lemma row_look_del:
  "row_look key (del_rows (\<lambda>r. key r = k) rows) k' =
     (if k' = k then None else row_look key rows k')"
  by (induction rows) (auto simp: row_look_def del_rows_def)

lemma row_look_upd:
  assumes "\<And>r. key r = k \<Longrightarrow> key (f r) = k"
  shows "row_look key (upd_rows (\<lambda>r. key r = k) f rows) k' =
     (if k' = k then map_option f (row_look key rows k) else row_look key rows k')"
  using assms by (induction rows) (auto simp: row_look_def)

lemma row_look_upsert:
  assumes "\<And>q. key q = key r \<Longrightarrow> key (f q) = key r"
  shows "row_look key (upsert_row key f r rows) k =
     (if k = key r then Some (case row_look key rows k of None \<Rightarrow> r | Some q \<Rightarrow> f q)
      else row_look key rows k)"
proof (cases "key r \<in> key ` set rows")
  case True
  then have "row_look key rows (key r) \<noteq> None" by (simp add: row_look_None)
  with True assms show ?thesis by (auto simp: upsert_row_def row_look_upd)
next
  case False
  then have "row_look key rows (key r) = None" by (simp add: row_look_None)
  with False show ?thesis by (auto simp: upsert_row_def row_look_append split: option.splits)
qed

lemma distinct_upsert_row:
  assumes "\<And>q. key q = key r \<Longrightarrow> key (f q) = key r" and "distinct (map key rows)"
  shows "distinct (map key (upsert_row key f r rows))"
proof (cases "key r \<in> key ` set rows")
  case True
  have "map key (upd_rows (\<lambda>x. key x = key r) f rows) = map key rows"
    by (rule map_upd_rows) (simp add: assms(1))
  with True assms(2) show ?thesis by (simp add: upsert_row_def)
next
  case False
  with assms(2) show ?thesis by (simp add: upsert_row_def)
qed

lemma set_upsert_row:
  "x \<in> set (upsert_row key f r rows) \<Longrightarrow>
   x = r \<or> x \<in> set rows \<or> (\<exists>q \<in> set rows. key q = key r \<and> x = f q)"
  by (auto simp: upsert_row_def set_upd_rows split: if_splits)

section \<open>The contract\<close>

text \<open>
  \<^verbatim>\<open>fits\<close> is what the table's constraints ask of a write (column ranges, foreign keys);
  a write that fits still fits after other writes.
\<close>

locale kv_writes =
  fixes ok :: "'s \<Rightarrow> bool"
    and fits :: "'s \<Rightarrow> 'k \<Rightarrow> 'v \<Rightarrow> bool"
    and look :: "'s \<Rightarrow> 'k \<Rightarrow> 'v option"
    and put :: "'k \<Rightarrow> 'v \<Rightarrow> 's \<Rightarrow> 's"
  assumes look_put: "ok s \<Longrightarrow> fits s k v \<Longrightarrow> look (put k v s) = (look s)(k \<mapsto> v)"
    and ok_put: "ok s \<Longrightarrow> ok (put k v s)"
    and fits_put: "ok s \<Longrightarrow> fits s k v \<Longrightarrow> fits (put k' v' s) k v"
begin

lemma put_same: "ok s \<Longrightarrow> fits s k v \<Longrightarrow> look (put k v s) k = Some v"
  by (simp add: look_put)

lemma put_other: "ok s \<Longrightarrow> fits s k v \<Longrightarrow> k' \<noteq> k \<Longrightarrow> look (put k v s) k' = look s k'"
  by (simp add: look_put)

lemma put_put:
  "ok s \<Longrightarrow> fits s k v \<Longrightarrow> fits s k v' \<Longrightarrow> look (put k v' (put k v s)) = look (put k v' s)"
  by (simp add: look_put ok_put fits_put)

lemma put_swap:
  "ok s \<Longrightarrow> fits s k v \<Longrightarrow> fits s k' v' \<Longrightarrow> k \<noteq> k' \<Longrightarrow>
   look (put k v (put k' v' s)) = look (put k' v' (put k v s))"
  by (simp add: look_put ok_put fits_put fun_upd_twist)

text \<open>A batch of writes: the last write of a key is the one that is found.\<close>

lemma ok_puts: "ok s \<Longrightarrow> ok (fold (\<lambda>(k, v). put k v) kvs s)"
  by (induction kvs arbitrary: s) (auto simp: ok_put)

lemma look_puts:
  "ok s \<Longrightarrow> (\<And>k v. (k, v) \<in> set kvs \<Longrightarrow> fits s k v) \<Longrightarrow>
   look (fold (\<lambda>(k, v). put k v) kvs s) = look s ++ map_of (rev kvs)"
proof (induction kvs arbitrary: s)
  case Nil
  then show ?case by simp
next
  case (Cons kv kvs)
  obtain k v where kv: "kv = (k, v)" by (cases kv)
  from Cons.prems have "ok (put k v s)" by (simp add: ok_put)
  moreover have "fits (put k v s) k' v'" if "(k', v') \<in> set kvs" for k' v'
    using Cons.prems that by (auto intro: fits_put)
  ultimately have "look (fold (\<lambda>(k, v). put k v) kvs (put k v s)) =
      look (put k v s) ++ map_of (rev kvs)"
    by (rule Cons.IH)
  with Cons.prems show ?case
    by (simp add: kv look_put map_add_def fun_eq_iff split: option.splits)
qed

end

text \<open>Tables from which the code also deletes single keys.\<close>

locale kv_store = kv_writes ok fits look put
  for ok :: "'s \<Rightarrow> bool"
    and fits :: "'s \<Rightarrow> 'k \<Rightarrow> 'v \<Rightarrow> bool"
    and look :: "'s \<Rightarrow> 'k \<Rightarrow> 'v option"
    and put :: "'k \<Rightarrow> 'v \<Rightarrow> 's \<Rightarrow> 's" +
  fixes del :: "'k \<Rightarrow> 's \<Rightarrow> 's"
  assumes look_del: "ok s \<Longrightarrow> look (del k s) = (look s)(k := None)"
    and ok_del: "ok s \<Longrightarrow> ok (del k s)"
begin

lemma del_put: "ok s \<Longrightarrow> fits s k v \<Longrightarrow> look (del k (put k v s)) = (look s)(k := None)"
  by (simp add: look_put look_del ok_put)

lemma del_missing: "ok s \<Longrightarrow> look s k = None \<Longrightarrow> look (del k s) = look s"
  by (simp add: look_del fun_upd_idem)

lemma del_del: "ok s \<Longrightarrow> look (del k (del k s)) = look (del k s)"
  by (simp add: look_del ok_del)

end

end
