(* ===== verification/Store.thy ===== *)
theory Store
  imports KeyValue
begin

text \<open>
  The statements of \<^verbatim>\<open>store/store.go\<close>: routes, tunnel configurations and registry
  credentials.  Each definition is the effect of one SQL statement of the file on the
  database, with the errors the schema's constraints raise.
\<close>

section \<open>Routes\<close>

text \<open>\<^verbatim>\<open>ORDER BY\<close> a text column, under the collation of the database.\<close>

definition order_by :: "db \<Rightarrow> ('r \<Rightarrow> string) \<Rightarrow> 'r list \<Rightarrow> 'r list" where
  "order_by d f rows = sort_key (\<lambda>r. db_collate d (f r)) rows"

definition ListRoutes :: "route list stmt" where
  "ListRoutes d = (Inr (order_by d rt_subdomain (db_routes d)), d)"

text \<open>The columns the conflict clause of \<^verbatim>\<open>UpsertRoute\<close> overwrites.\<close>

definition route_overwrite :: "route \<Rightarrow> route \<Rightarrow> route" where
  "route_overwrite r old = old\<lparr>rt_containerID := rt_containerID r, rt_targetHost := rt_targetHost r,
     rt_targetPort := rt_targetPort r, rt_endpointID := rt_endpointID r\<rparr>"

definition UpsertRoute :: "route \<Rightarrow> route stmt" where
  "UpsertRoute r d =
     (if \<not> in_i32 (rt_targetPort r) then (Inl errRange, d)
      else let row = r\<lparr>rt_id := next_id TRoutes d, rt_createdAt := db_now d\<rparr>;
               d' = bump_seq TRoutes d;
               rows = upsert_row rt_subdomain (route_overwrite r) row (db_routes d)
           in (case row_look rt_subdomain (db_routes d) (rt_subdomain r) of
                 None \<Rightarrow> Inr row
               | Some old \<Rightarrow> Inr (r\<lparr>rt_id := rt_id old, rt_createdAt := rt_createdAt old\<rparr>),
               d'\<lparr>db_routes := rows\<rparr>))"

definition DeleteRoute :: "string \<Rightarrow> unit stmt" where
  "DeleteRoute subdomain d =
     (Inr (), d\<lparr>db_routes := del_rows (\<lambda>r. rt_subdomain r = subdomain) (db_routes d)\<rparr>)"

section \<open>Tunnels\<close>

definition ListTunnels :: "tunnel list stmt" where
  "ListTunnels d = (Inr (sort_key tn_id (db_tunnels d)), d)"

definition InsertTunnel :: "tunnel \<Rightarrow> tunnel stmt" where
  "InsertTunnel t d =
     (if \<not> (in_i32 (tn_sshPort t) \<and> in_i32 (tn_remotePort t) \<and> in_i32 (tn_localPort t))
      then (Inl errRange, d)
      else let row = t\<lparr>tn_id := next_id TTunnels d, tn_createdAt := db_now d\<rparr>
           in (Inr row, (bump_seq TTunnels d)\<lparr>db_tunnels := db_tunnels d @ [row]\<rparr>))"

definition SetTunnelEnabled :: "int \<Rightarrow> bool \<Rightarrow> unit stmt" where
  "SetTunnelEnabled i enabled d =
     (Inr (), d\<lparr>db_tunnels := upd_rows (\<lambda>t. tn_id t = i) (\<lambda>t. t\<lparr>tn_enabled := enabled\<rparr>) (db_tunnels d)\<rparr>)"

definition DeleteTunnel :: "int \<Rightarrow> unit stmt" where
  "DeleteTunnel i d = (Inr (), d\<lparr>db_tunnels := del_rows (\<lambda>t. tn_id t = i) (db_tunnels d)\<rparr>)"

section \<open>Registries\<close>

definition ListRegistries :: "string \<Rightarrow> registry list stmt" where
  "ListRegistries owner d =
     (Inr (order_by d rg_name (if owner \<noteq> '''' then filter (\<lambda>r. rg_owner r = owner) (db_registries d)
                               else db_registries d)), d)"

definition GetRegistry :: "int \<Rightarrow> registry stmt" where
  "GetRegistry i d = (case find (\<lambda>r. rg_id r = i) (db_registries d) of
       None \<Rightarrow> (Inl (Ext ''no rows in result set''), d)
     | Some r \<Rightarrow> (Inr r, d))"

definition InsertRegistry :: "registry \<Rightarrow> registry stmt" where
  "InsertRegistry r d =
     (let d' = bump_seq TRegistries d;
          row = r\<lparr>rg_id := next_id TRegistries d, rg_createdAt := db_now d\<rparr>
      in if rg_name r \<in> rg_name ` set (db_registries d) then (Inl errUnique, d')
         else (Inr row, d'\<lparr>db_registries := db_registries d @ [row]\<rparr>))"

definition DeleteRegistry :: "int \<Rightarrow> unit stmt" where
  "DeleteRegistry i d = (Inr (), d\<lparr>db_registries := del_rows (\<lambda>r. rg_id r = i) (db_registries d)\<rparr>)"

section \<open>The statements keep the database's integrity\<close>

named_theorems stmt_keeps \<open>each statement keeps \<^const>\<open>db_ok\<close>\<close>

lemma set_order_by [simp]: "set (order_by d f rows) = set rows"
  by (simp add: order_by_def)

lemma distinct_map_order_by [simp]: "distinct (map g (order_by d f rows)) = distinct (map g rows)"
  by (simp add: order_by_def distinct_map)

lemma ListRoutes_Inr [simp]: "ListRoutes d = (r, d') \<longleftrightarrow> r = Inr (order_by d rt_subdomain (db_routes d)) \<and> d' = d"
  by (auto simp: ListRoutes_def)

lemma ListRoutes_keeps [stmt_keeps]: "io_keeps db_ok ListRoutes"
  by (simp add: io_keeps_def ListRoutes_def)

lemma ListTunnels_keeps [stmt_keeps]: "io_keeps db_ok ListTunnels"
  by (simp add: io_keeps_def ListTunnels_def)

lemma ListRegistries_keeps [stmt_keeps]: "io_keeps db_ok (ListRegistries owner)"
  by (simp add: io_keeps_def ListRegistries_def)

lemma GetRegistry_keeps [stmt_keeps]: "io_keeps db_ok (GetRegistry i)"
  by (simp add: io_keeps_def GetRegistry_def split: option.splits)

lemma tbl_ok_upsert:
  assumes "tbl_ok rid key n rows" and "rid r = n + 1"
    and f: "\<And>q. key (f q) = key q" "\<And>q. rid (f q) = rid q"
  shows "tbl_ok rid key (n + 1) (upsert_row key f r rows)"
proof (cases "key r \<in> key ` set rows")
  case True
  then show ?thesis
    using tbl_ok_bump [OF tbl_ok_upd [OF assms(1), of "\<lambda>x. key x = key r" f]] f
    by (simp add: upsert_row_def)
next
  case False
  with assms(1,2) show ?thesis by (simp add: upsert_row_def tbl_ok_insert)
qed

lemma UpsertRoute_keeps [stmt_keeps]: "io_keeps db_ok (UpsertRoute r)"
proof (rule io_keepsI)
  fix d
  assume ok: "db_ok d"
  show "db_ok (snd (UpsertRoute r d))"
  proof (cases "in_i32 (rt_targetPort r)")
    case True
    let ?row = "r\<lparr>rt_id := next_id TRoutes d, rt_createdAt := db_now d\<rparr>"
    let ?rows = "upsert_row rt_subdomain (route_overwrite r) ?row (db_routes d)"
    from ok have "routes_ok d" by (simp add: db_ok_def)
    then have t: "tbl_ok rt_id rt_subdomain (db_seq d TRoutes + 1) ?rows"
      and p: "\<forall>x \<in> set ?rows. in_i32 (rt_targetPort x)"
      using True
      by (auto simp: routes_ok_def next_id_def route_overwrite_def
          intro!: tbl_ok_upsert dest!: set_upsert_row)
    from True have "snd (UpsertRoute r d) = (bump_seq TRoutes d)\<lparr>db_routes := ?rows\<rparr>"
      by (simp add: UpsertRoute_def Let_def)
    moreover from ok t p have "db_ok ((bump_seq TRoutes d)\<lparr>db_routes := ?rows\<rparr>)"
      by (simp add: db_ok_def db_ok_defs bump_seq_def)
    ultimately show ?thesis by (simp only:)
  next
    case False
    with ok show ?thesis by (simp add: UpsertRoute_def)
  qed
qed

lemma DeleteRoute_keeps [stmt_keeps]: "io_keeps db_ok (DeleteRoute sub)"
  by (simp add: io_keeps_def DeleteRoute_def db_ok_def db_ok_defs tbl_ok_del)

lemma InsertTunnel_keeps [stmt_keeps]: "io_keeps db_ok (InsertTunnel t)"
proof (rule io_keepsI)
  fix d
  assume ok: "db_ok d"
  then have t: "tbl_ok tn_id tn_id (db_seq d TTunnels) (db_tunnels d)"
    by (simp add: db_ok_def tunnels_ok_def)
  let ?row = "t\<lparr>tn_id := next_id TTunnels d, tn_createdAt := db_now d\<rparr>"
  from t have "tn_id ?row \<notin> tn_id ` set (db_tunnels d)"
    by (force simp: tbl_ok_def next_id_def)
  with t have "tbl_ok tn_id tn_id (db_seq d TTunnels + 1) (db_tunnels d @ [?row])"
    by (intro tbl_ok_insert) (simp_all add: next_id_def)
  with ok show "db_ok (snd (InsertTunnel t d))"
    by (simp add: InsertTunnel_def Let_def db_ok_def db_ok_defs bump_seq_def)
qed

lemma SetTunnelEnabled_keeps [stmt_keeps]: "io_keeps db_ok (SetTunnelEnabled i b)"
  by (simp add: io_keeps_def SetTunnelEnabled_def db_ok_def db_ok_defs tbl_ok_upd)

lemma DeleteTunnel_keeps [stmt_keeps]: "io_keeps db_ok (DeleteTunnel i)"
  by (simp add: io_keeps_def DeleteTunnel_def db_ok_def db_ok_defs tbl_ok_del)

lemma InsertRegistry_keeps [stmt_keeps]: "io_keeps db_ok (InsertRegistry r)"
  by (auto simp: io_keeps_def InsertRegistry_def Let_def db_ok_def db_ok_defs bump_seq_def
      next_id_def intro: tbl_ok_insert tbl_ok_bump)

lemma DeleteRegistry_keeps [stmt_keeps]: "io_keeps db_ok (DeleteRegistry i)"
  by (simp add: io_keeps_def DeleteRegistry_def db_ok_def db_ok_defs tbl_ok_del)

section \<open>The routes as a key-value store\<close>

text \<open>
  The abstract content of the route table: which container, host, port and environment a
  subdomain is mapped to.
\<close>

type_synonym route_target = "string \<times> string \<times> int \<times> int"

definition route_target :: "route \<Rightarrow> route_target" where
  "route_target r = (rt_containerID r, rt_targetHost r, rt_targetPort r, rt_endpointID r)"

definition routes_look :: "route list \<Rightarrow> string \<Rightarrow> route_target option" where
  "routes_look rows sub = map_option route_target (row_look rt_subdomain rows sub)"

definition route_of :: "string \<Rightarrow> route_target \<Rightarrow> route" where
  "route_of sub v = (case v of (c, h, p, e) \<Rightarrow>
     \<lparr>rt_id = 0, rt_subdomain = sub, rt_containerID = c, rt_targetHost = h, rt_targetPort = p,
      rt_endpointID = e, rt_createdAt = 0\<rparr>)"

definition route_fits :: "db \<Rightarrow> string \<Rightarrow> route_target \<Rightarrow> bool" where
  "route_fits d sub v \<longleftrightarrow> in_i32 (rt_targetPort (route_of sub v))"

lemma route_overwrite_simps [simp]:
  "rt_subdomain (route_overwrite r q) = rt_subdomain q"
  "route_target (route_overwrite r q) = route_target r"
  "rt_id (route_overwrite r q) = rt_id q"
  by (simp_all add: route_overwrite_def route_target_def)

lemma UpsertRoute_look:
  assumes "UpsertRoute r d = (Inr saved, d')"
  shows "routes_look (db_routes d') = (routes_look (db_routes d))(rt_subdomain r \<mapsto> route_target r)"
  using assms
  by (auto simp: UpsertRoute_def Let_def routes_look_def row_look_upsert fun_eq_iff route_target_def
      route_overwrite_def split: if_splits option.splits)

lemma DeleteRoute_look:
  assumes "DeleteRoute sub d = (r, d')"
  shows "routes_look (db_routes d') = (routes_look (db_routes d))(sub := None)"
  using assms by (auto simp: DeleteRoute_def routes_look_def row_look_del fun_eq_iff)

lemma route_of_target [simp]:
  "rt_subdomain (route_of sub v) = sub" "route_target (route_of sub v) = v"
  by (cases v; simp add: route_of_def route_target_def)+

interpretation route_kv: kv_store db_ok route_fits "\<lambda>d. routes_look (db_routes d)"
  "\<lambda>sub v d. snd (UpsertRoute (route_of sub v) d)" "\<lambda>sub d. snd (DeleteRoute sub d)"
proof unfold_locales
  fix d k v
  assume "route_fits d k v"
  then obtain saved d' where "UpsertRoute (route_of k v) d = (Inr saved, d')"
    by (cases "row_look rt_subdomain (db_routes d) k")
      (auto simp: UpsertRoute_def Let_def route_fits_def)
  from UpsertRoute_look [OF this] this
  show "routes_look (db_routes (snd (UpsertRoute (route_of k v) d))) = (routes_look (db_routes d))(k \<mapsto> v)"
    by simp
next
  fix d k
  show "routes_look (db_routes (snd (DeleteRoute k d))) = (routes_look (db_routes d))(k := None)"
    using DeleteRoute_look [of k d] by (metis surjective_pairing)
qed (use UpsertRoute_keeps DeleteRoute_keeps in \<open>auto simp: io_keeps_def route_fits_def\<close>)

section \<open>Properties\<close>

text \<open>A command on the table of routes, what it does to the table, and what it means.\<close>

datatype route_cmd = PutRoute string route_target | DropRoute string

fun exec_route :: "route_cmd \<Rightarrow> unit stmt" where
  "exec_route (PutRoute sub v) = io_seq (UpsertRoute (route_of sub v)) (io_ret ())"
| "exec_route (DropRoute sub) = DeleteRoute sub"

fun route_map :: "route_cmd \<Rightarrow> (string \<rightharpoonup> route_target) \<Rightarrow> (string \<rightharpoonup> route_target)" where
  "route_map (PutRoute sub v) m = m(sub \<mapsto> v)"
| "route_map (DropRoute sub) m = m(sub := None)"

lemma exec_routes_look:
  "io_foreach exec_route cmds d = (Inr x, d') \<Longrightarrow>
   routes_look (db_routes d') = fold route_map cmds (routes_look (db_routes d))"
proof (induction cmds arbitrary: d)
  case (Cons c cmds)
  then obtain y t where c: "exec_route c d = (Inr y, t)" and cs: "io_foreach exec_route cmds t = (Inr x, d')"
    by (auto simp: io_inr)
  from c have "routes_look (db_routes t) = route_map c (routes_look (db_routes d))"
    by (cases c) (auto simp: io_inr UpsertRoute_look DeleteRoute_look)
  with Cons.IH [OF cs] show ?case by simp
qed simp

lemma exec_route_keeps: "io_keeps db_ok (exec_route c)"
  by (cases c) (auto intro!: io_keep stmt_keeps)

lemma routes_look_map_of:
  "distinct (map rt_subdomain rows) \<Longrightarrow> set l = set rows \<Longrightarrow> distinct (map rt_subdomain l) \<Longrightarrow>
   map_of (map (\<lambda>r. (rt_subdomain r, route_target r)) l) = routes_look rows"
proof (rule ext)
  fix k
  assume d: "distinct (map rt_subdomain rows)" "set l = set rows" "distinct (map rt_subdomain l)"
  have "find (\<lambda>r. rt_subdomain r = k) l = find (\<lambda>r. rt_subdomain r = k) rows"
    using find_Some_iff_distinct [OF d(1), of k] find_Some_iff_distinct [OF d(3), of k] d(2)
    by (metis not_Some_eq)
  moreover have "map_of (map (\<lambda>r. (rt_subdomain r, route_target r)) l) k =
      map_option route_target (find (\<lambda>r. rt_subdomain r = k) l)" by (induction l) auto
  ultimately show "map_of (map (\<lambda>r. (rt_subdomain r, route_target r)) l) k = routes_look rows k"
    by (simp add: routes_look_def row_look_def)
qed

text \<open>
  C35: the table of routes implements a map from subdomains to targets.  After any sequence of
  upserts and deletions on a consistent database, \<^verbatim>\<open>ListRoutes\<close> returns one row per
  subdomain, and the rows are exactly the map that the same sequence of updates and removals
  gives when it starts from the map of the rows before.
\<close>

theorem routes_refine_map:
  assumes "db_ok d" "io_foreach exec_route cmds d = (Inr x, d')"
  shows "\<exists>rows. ListRoutes d' = (Inr rows, d') \<and> distinct (map rt_subdomain rows) \<and>
    map_of (map (\<lambda>r. (rt_subdomain r, route_target r)) rows) = fold route_map cmds (routes_look (db_routes d))"
proof -
  have "db_ok d'"
    using io_keepsD [OF io_keeps_foreach [OF exec_route_keeps] assms] by simp
  then have t: "distinct (map rt_subdomain (db_routes d'))" by (simp add: db_ok_def routes_ok_def tbl_ok_def)
  obtain rows where rows: "ListRoutes d' = (Inr rows, d')" "set rows = set (db_routes d')" "distinct (map rt_subdomain rows)"
    using t by (simp add: ListRoutes_def)
  with routes_look_map_of [OF t] exec_routes_look [OF assms(2)] show ?thesis by auto
qed

theorem routes_refine_map_witness:
  "\<exists>d' rows. io_foreach exec_route [PutRoute ''a'' (''c1'', ''h1'', 80, 0), PutRoute ''b'' (''c2'', ''h2'', 81, 0),
      PutRoute ''a'' (''c3'', ''h3'', 82, 1), DropRoute ''b''] db_empty = (Inr (), d') \<and> ListRoutes d' = (Inr rows, d') \<and>
    map_of (map (\<lambda>r. (rt_subdomain r, route_target r)) rows) = [''a'' \<mapsto> (''c3'', ''h3'', 82, 1)]"
proof -
  let ?e = "io_foreach exec_route [PutRoute ''a'' (''c1'', ''h1'', 80, 0), PutRoute ''b'' (''c2'', ''h2'', 81, 0),
      PutRoute ''a'' (''c3'', ''h3'', 82, 1), DropRoute ''b''] db_empty"
  have "fst ?e = Inr ()" by code_simp
  then obtain d' where e: "?e = (Inr (), d')" by (cases ?e) simp
  from routes_refine_map [OF db_ok_empty e] e show ?thesis
    by (auto simp: routes_look_def row_look_def db_empty_def fun_upd_def fun_eq_iff)
qed

end
