(* ===== verification/StoreUsers.thy ===== *)
theory StoreUsers
  imports Store
begin

text \<open>
  The statements of \<^verbatim>\<open>store/users.go\<close>: accounts, quotas, roles and the life cycle of
  resource requests.  Deleting an account cascades to its requests and grants
  (\<^verbatim>\<open>ON DELETE CASCADE\<close> in the schema).
\<close>

section \<open>Users\<close>

definition CountUsers :: "int stmt" where
  "CountUsers d = (Inr (int (length (db_users d))), d)"

definition CreateUser :: "user \<Rightarrow> user stmt" where
  "CreateUser u d =
     (if \<not> (in_i32 (us_cpuQuotaMilli u) \<and> in_i32 (us_memQuotaMB u)) then (Inl errRange, d)
      else let d' = bump_seq TUsers d;
               row = u\<lparr>us_id := next_id TUsers d, us_createdAt := db_now d\<rparr>
           in if us_username u \<in> us_username ` set (db_users d) then (Inl errUnique, d')
              else (Inr row, d'\<lparr>db_users := db_users d @ [row]\<rparr>))"

text \<open>\<^verbatim>\<open>scanUser\<close>: no row becomes \<^verbatim>\<open>store.ErrNotFound\<close>.\<close>

definition scanUser :: "user option \<Rightarrow> goerr + user" where
  "scanUser row = (case row of None \<Rightarrow> Inl ErrNotFound | Some u \<Rightarrow> Inr u)"

definition GetUserByUsername :: "string \<Rightarrow> user stmt" where
  "GetUserByUsername name d = (scanUser (find (\<lambda>u. us_username u = name) (db_users d)), d)"

definition GetUserByID :: "int \<Rightarrow> user stmt" where
  "GetUserByID i d = (scanUser (find (\<lambda>u. us_id u = i) (db_users d)), d)"

definition ListUsers :: "user list stmt" where
  "ListUsers d = (Inr (order_by d us_username (db_users d)), d)"

definition UpdateUserQuota :: "int \<Rightarrow> int \<Rightarrow> int \<Rightarrow> int \<Rightarrow> unit stmt" where
  "UpdateUserQuota i cpuMilli memMB diskMB d =
     (if \<not> (in_i32 cpuMilli \<and> in_i32 memMB) then (Inl errRange, d)
      else (Inr (), d\<lparr>db_users := upd_rows (\<lambda>u. us_id u = i)
        (\<lambda>u. u\<lparr>us_cpuQuotaMilli := cpuMilli, us_memQuotaMB := memMB, us_diskQuotaMB := diskMB\<rparr>)
        (db_users d)\<rparr>))"

definition SetUserPassword :: "int \<Rightarrow> string \<Rightarrow> unit stmt" where
  "SetUserPassword i hash d =
     (Inr (), d\<lparr>db_users := upd_rows (\<lambda>u. us_id u = i) (\<lambda>u. u\<lparr>us_passwordHash := hash\<rparr>) (db_users d)\<rparr>)"

definition SetUserRole :: "int \<Rightarrow> string \<Rightarrow> unit stmt" where
  "SetUserRole i role d =
     (Inr (), d\<lparr>db_users := upd_rows (\<lambda>u. us_id u = i) (\<lambda>u. u\<lparr>us_role := role\<rparr>) (db_users d)\<rparr>)"

definition admins :: "db \<Rightarrow> user list" where
  "admins d = filter (\<lambda>u. us_role u = RoleAdmin) (db_users d)"

definition CountAdmins :: "int stmt" where
  "CountAdmins d = (Inr (int (length (admins d))), d)"

definition DeleteUser :: "int \<Rightarrow> unit stmt" where
  "DeleteUser i d =
     (Inr (), d\<lparr>db_users := del_rows (\<lambda>u. us_id u = i) (db_users d),
        db_requests := del_rows (\<lambda>r. rr_userID r = i) (db_requests d),
        db_user_endpoints := del_rows (\<lambda>(u, g). u = i) (db_user_endpoints d)\<rparr>)"

section \<open>Resource requests\<close>

definition CreateRequest :: "resource_request \<Rightarrow> resource_request stmt" where
  "CreateRequest r d =
     (if \<not> (in_i32 (rr_cpuMilli r) \<and> in_i32 (rr_memMB r)) then (Inl errRange, d)
      else let d' = bump_seq TRequests d;
               row = r\<lparr>rr_id := next_id TRequests d, rr_createdAt := db_now d, rr_status := StatusPending,
                       rr_reviewedBy := '''', rr_reviewNote := '''', rr_reviewedAt := None\<rparr>
           in if rr_userID r \<notin> us_id ` set (db_users d) then (Inl errForeignKey, d')
              else (Inr (r\<lparr>rr_id := next_id TRequests d, rr_createdAt := db_now d,
                          rr_status := StatusPending\<rparr>),
                    d'\<lparr>db_requests := db_requests d @ [row]\<rparr>))"

definition scanRequest :: "resource_request option \<Rightarrow> goerr + resource_request" where
  "scanRequest row = (case row of None \<Rightarrow> Inl ErrNotFound | Some r \<Rightarrow> Inr r)"

definition GetRequest :: "int \<Rightarrow> resource_request stmt" where
  "GetRequest i d = (scanRequest (find (\<lambda>r. rr_id r = i) (db_requests d)), d)"

text \<open>Both filters are optional; the newest request comes first.\<close>

definition ListRequests :: "string \<Rightarrow> int \<Rightarrow> resource_request list stmt" where
  "ListRequests status forUser d =
     (Inr (sort_key (\<lambda>r. - rr_createdAt r)
       (filter (\<lambda>r. (status \<noteq> '''' \<longrightarrow> rr_status r = status) \<and> (forUser > 0 \<longrightarrow> rr_userID r = forUser))
          (db_requests d))), d)"

definition ReviewRequest :: "int \<Rightarrow> string \<Rightarrow> string \<Rightarrow> string \<Rightarrow> unit stmt" where
  "ReviewRequest i status reviewedBy note d =
     (Inr (), d\<lparr>db_requests := upd_rows (\<lambda>r. rr_id r = i)
        (\<lambda>r. r\<lparr>rr_status := status, rr_reviewedBy := reviewedBy, rr_reviewNote := note,
               rr_reviewedAt := Some (db_now d)\<rparr>) (db_requests d)\<rparr>)"

text \<open>
  \<^verbatim>\<open>itoa\<close>: the placeholder number of a query, written from the end into an array of four
  bytes.  Writing past the front of the array is Go's index panic, here \<^const>\<open>None\<close>.
\<close>

fun itoa_loop :: "nat \<Rightarrow> nat \<Rightarrow> string \<Rightarrow> string option" where
  "itoa_loop n i acc =
     (if n = 0 then Some acc
      else case i of 0 \<Rightarrow> None
        | Suc j \<Rightarrow> itoa_loop (n div 10) j (char_of (48 + n mod 10) # acc))"

declare itoa_loop.simps [simp del]

definition itoa :: "int \<Rightarrow> string option" where
  "itoa n = (if n = 0 then Some ''0'' else itoa_loop (nat n) 4 [])"

section \<open>The statements keep the database's integrity\<close>

lemma CountUsers_keeps [stmt_keeps]: "io_keeps db_ok CountUsers"
  by (simp add: io_keeps_def CountUsers_def)

lemma CountAdmins_keeps [stmt_keeps]: "io_keeps db_ok CountAdmins"
  by (simp add: io_keeps_def CountAdmins_def)

lemma GetUserByUsername_keeps [stmt_keeps]: "io_keeps db_ok (GetUserByUsername n)"
  by (simp add: io_keeps_def GetUserByUsername_def)

lemma GetUserByID_keeps [stmt_keeps]: "io_keeps db_ok (GetUserByID i)"
  by (simp add: io_keeps_def GetUserByID_def)

lemma ListUsers_keeps [stmt_keeps]: "io_keeps db_ok ListUsers"
  by (simp add: io_keeps_def ListUsers_def)

lemma GetRequest_keeps [stmt_keeps]: "io_keeps db_ok (GetRequest i)"
  by (simp add: io_keeps_def GetRequest_def)

lemma ListRequests_keeps [stmt_keeps]: "io_keeps db_ok (ListRequests s u)"
  by (simp add: io_keeps_def ListRequests_def)

lemma requests_ok_users:
  "requests_ok d \<Longrightarrow> us_id ` set (db_users d) \<subseteq> us_id ` set us \<Longrightarrow> requests_ok (d\<lparr>db_users := us\<rparr>)"
  by (auto simp: requests_ok_def)

lemma grants_ok_users:
  "grants_ok d \<Longrightarrow> us_id ` set (db_users d) \<subseteq> us_id ` set us \<Longrightarrow> grants_ok (d\<lparr>db_users := us\<rparr>)"
  by (fastforce simp: grants_ok_def)

text \<open>Replacing the user rows by rows with the same ids keeps everything else.\<close>

lemma db_ok_users:
  assumes "db_ok d" and "users_ok (d\<lparr>db_users := us\<rparr>)"
    and "us_id ` set (db_users d) \<subseteq> us_id ` set us"
  shows "db_ok (d\<lparr>db_users := us\<rparr>)"
  using assms requests_ok_users [of d us] grants_ok_users [of d us]
  by (simp add: db_ok_def services_ok_def routes_ok_def registries_ok_def tunnels_ok_def
      endpoints_ok_def volumes_ok_def)

lemma db_ok_upd_users:
  assumes "db_ok d" and "\<And>u. us_id (f u) = us_id u" "\<And>u. us_username (f u) = us_username u"
    and "\<And>u. in_i32 (us_cpuQuotaMilli u) \<Longrightarrow> in_i32 (us_memQuotaMB u) \<Longrightarrow>
           in_i32 (us_cpuQuotaMilli (f u)) \<and> in_i32 (us_memQuotaMB (f u))"
  shows "db_ok (d\<lparr>db_users := upd_rows P f (db_users d)\<rparr>)"
proof (rule db_ok_users [OF assms(1)])
  from assms(1) have "users_ok d" by (rule db_okD)
  with assms(2-4) show "users_ok (d\<lparr>db_users := upd_rows P f (db_users d)\<rparr>)"
    by (auto simp: users_ok_def set_upd_rows intro: tbl_ok_upd)
  have "map us_id (upd_rows P f (db_users d)) = map us_id (db_users d)"
    by (rule map_upd_rows) (simp add: assms(2))
  then show "us_id ` set (db_users d) \<subseteq> us_id ` set (upd_rows P f (db_users d))"
    by (metis list.set_map order_refl)
qed

lemma UpdateUserQuota_keeps [stmt_keeps]: "io_keeps db_ok (UpdateUserQuota i c m k)"
  by (auto simp: io_keeps_def UpdateUserQuota_def intro!: db_ok_upd_users)

lemma SetUserPassword_keeps [stmt_keeps]: "io_keeps db_ok (SetUserPassword i h)"
  by (auto simp: io_keeps_def SetUserPassword_def intro!: db_ok_upd_users)

lemma SetUserRole_keeps [stmt_keeps]: "io_keeps db_ok (SetUserRole i r)"
  by (auto simp: io_keeps_def SetUserRole_def intro!: db_ok_upd_users)

lemma db_ok_bump [simp]: "db_ok d \<Longrightarrow> db_ok (bump_seq t d)"
  by (auto simp: db_ok_def db_ok_defs bump_seq_def intro: tbl_ok_bump)

lemma CreateUser_keeps [stmt_keeps]: "io_keeps db_ok (CreateUser u)"
proof (rule io_keepsI)
  fix d
  assume ok: "db_ok d"
  let ?row = "u\<lparr>us_id := next_id TUsers d, us_createdAt := db_now d\<rparr>"
  let ?d = "bump_seq TUsers d"
  show "db_ok (snd (CreateUser u d))"
  proof (cases "in_i32 (us_cpuQuotaMilli u) \<and> in_i32 (us_memQuotaMB u) \<and>
      us_username u \<notin> us_username ` set (db_users d)")
    case True
    then have "snd (CreateUser u d) = ?d\<lparr>db_users := db_users ?d @ [?row]\<rparr>"
      by (simp add: CreateUser_def Let_def bump_seq_def)
    moreover have "db_ok (?d\<lparr>db_users := db_users ?d @ [?row]\<rparr>)"
    proof (rule db_ok_users)
      from ok show "db_ok ?d" by simp
      from ok have "users_ok d" by (rule db_okD)
      with True show "users_ok (?d\<lparr>db_users := db_users ?d @ [?row]\<rparr>)"
        by (auto simp: users_ok_def bump_seq_def next_id_def intro: tbl_ok_insert)
    qed auto
    ultimately show ?thesis by (simp only:)
  next
    case False
    with ok show ?thesis by (auto simp: CreateUser_def Let_def)
  qed
qed

lemma DeleteUser_keeps [stmt_keeps]: "io_keeps db_ok (DeleteUser i)"
proof (rule io_keepsI)
  fix d
  assume ok: "db_ok d"
  have g: "distinct (map (\<lambda>(u, g). (u, eg_endpointID g)) (del_rows (\<lambda>(u, g). u = i) (db_user_endpoints d)))"
    using ok by (intro distinct_map_del_rows) (simp add: db_ok_def grants_ok_def)
  from ok g show "db_ok (snd (DeleteUser i d))"
    by (force simp: DeleteUser_def db_ok_def db_ok_defs intro!: tbl_ok_del)
qed

lemma CreateRequest_keeps [stmt_keeps]: "io_keeps db_ok (CreateRequest r)"
proof (rule io_keepsI)
  fix d
  assume ok: "db_ok d"
  then have t: "tbl_ok rr_id rr_id (db_seq d TRequests) (db_requests d)"
    by (simp add: db_ok_def requests_ok_def)
  let ?row = "r\<lparr>rr_id := next_id TRequests d, rr_createdAt := db_now d, rr_status := StatusPending,
                rr_reviewedBy := '''', rr_reviewNote := '''', rr_reviewedAt := None\<rparr>"
  from t have "rr_id ?row \<notin> rr_id ` set (db_requests d)"
    by (force simp: tbl_ok_def next_id_def)
  with t have t': "tbl_ok rr_id rr_id (db_seq d TRequests + 1) (db_requests d @ [?row])"
    by (intro tbl_ok_insert) (simp_all add: next_id_def)
  show "db_ok (snd (CreateRequest r d))"
  proof (cases "in_i32 (rr_cpuMilli r) \<and> in_i32 (rr_memMB r) \<and> rr_userID r \<in> us_id ` set (db_users d)")
    case True
    then have "snd (CreateRequest r d) = (bump_seq TRequests d)\<lparr>db_requests := db_requests d @ [?row]\<rparr>"
      by (auto simp: CreateRequest_def Let_def)
    moreover from ok t' True have "db_ok ((bump_seq TRequests d)\<lparr>db_requests := db_requests d @ [?row]\<rparr>)"
      by (simp add: db_ok_def db_ok_defs bump_seq_def)
    ultimately show ?thesis by (simp only:)
  next
    case False
    with ok show ?thesis by (auto simp: CreateRequest_def Let_def)
  qed
qed

lemma ReviewRequest_keeps [stmt_keeps]: "io_keeps db_ok (ReviewRequest i s b n)"
  by (auto simp: io_keeps_def ReviewRequest_def db_ok_def db_ok_defs set_upd_rows intro!: tbl_ok_upd)

section \<open>Lookups\<close>

lemma GetUserByID_Inr:
  "db_ok d \<Longrightarrow> GetUserByID i d = (Inr u, d') \<longleftrightarrow> d' = d \<and> u \<in> set (db_users d) \<and> us_id u = i"
  using find_Some_iff_distinct [of us_id "db_users d" i u]
  by (auto simp: GetUserByID_def scanUser_def db_ok_def users_ok_def tbl_ok_def split: option.splits)

lemma GetUserByID_state [simp]: "snd (GetUserByID i d) = d"
  by (simp add: GetUserByID_def)

lemma GetUserByID_unknown:
  "i \<notin> us_id ` set (db_users d) \<Longrightarrow> GetUserByID i d = (Inl ErrNotFound, d)"
  by (auto simp: GetUserByID_def scanUser_def find_None_iff_all split: option.splits dest!: find_SomeD)

section \<open>Placeholder numbers\<close>

lemma itoa_loop_digits:
  "0 < n \<Longrightarrow> n < 10 ^ i \<Longrightarrow> itoa_loop n i acc = Some (nat_digits n @ acc)"
proof (induction i arbitrary: n acc)
  case 0
  then show ?case by simp
next
  case (Suc i)
  show ?case
  proof (cases "n < 10")
    case True
    with Suc.prems show ?thesis
      by (simp add: itoa_loop.simps nat_digits.simps [of n] digit_char_def add.commute)
  next
    case False
    then have "0 < n div 10" by auto
    moreover from Suc.prems have "n div 10 < 10 ^ i" by (simp add: less_mult_imp_div_less mult.commute)
    ultimately have "itoa_loop (n div 10) i (digit_char (n mod 10) # acc) =
        Some (nat_digits (n div 10) @ digit_char (n mod 10) # acc)"
      by (rule Suc.IH)
    with Suc.prems(1) False show ?thesis
      by (simp add: itoa_loop.simps [of n] nat_digits.simps [of n] digit_char_def add.commute)
  qed
qed

lemma itoa_loop_overflow: "10 ^ i \<le> n \<Longrightarrow> itoa_loop n i acc = None"
proof (induction i arbitrary: n acc)
  case 0
  then show ?case by (subst itoa_loop.simps) simp
next
  case (Suc i)
  then have "10 ^ i \<le> n div 10" by (simp add: less_eq_div_iff_mult_less_eq mult.commute)
  moreover from Suc.prems have "n \<noteq> 0" by (metis not_one_le_zero one_le_numeral one_le_power order.trans)
  ultimately show ?case by (subst itoa_loop.simps) (simp add: Suc.IH)
qed

text \<open>
  The placeholder writer is right below ten thousand and panics from there.  \<^verbatim>\<open>itoa\<close>
  returns the decimal digits of every number from 0 to 9999, the empty text for a negative
  number, and for every larger number it writes before the start of its four-byte array, which
  Go answers with a panic.
\<close>

lemma itoa_decimal_or_panic:
  "itoa n = (if n < 0 then Some '''' else if n < 10000 then Some (goItoa n) else None)"
proof (cases "0 < n \<and> n < 10000")
  case True
  then have "0 < nat n" "nat n < 10 ^ 4" by auto
  from itoa_loop_digits [OF this] True show ?thesis by (simp add: itoa_def goItoa_def)
next
  case False
  then consider "n < 0" | "n = 0" | "10 ^ 4 \<le> nat n" by force
  then show ?thesis
  proof cases
    case 3
    with itoa_loop_overflow [OF 3] show ?thesis by (auto simp: itoa_def)
  next
    case 2
    have "goItoa 0 = ''0''" by code_simp
    with 2 show ?thesis by (simp add: itoa_def)
  qed (simp add: itoa_def itoa_loop.simps)
qed

end
