(* ===== verification/StoreEndpoints.thy ===== *)
theory StoreEndpoints
  imports StoreUsers
begin

text \<open>
  The statements of \<^verbatim>\<open>store/endpoints.go\<close>: the remote Docker environments and the
  grants that let a member use one, each with its quota.  Deleting an environment cascades to
  its grants.
\<close>

section \<open>Environments\<close>

text \<open>\<^verbatim>\<open>scanEndpoint\<close>: \<^verbatim>\<open>TLS\<close> is not a column, it is derived on every read.\<close>

definition scanEndpoint :: "endpoint \<Rightarrow> endpoint" where
  "scanEndpoint e = e\<lparr>ep_tls := (ep_tlsCertEnc e \<noteq> '''')\<rparr>"

definition CreateEndpoint :: "endpoint \<Rightarrow> endpoint stmt" where
  "CreateEndpoint e d =
     (let row = e\<lparr>ep_id := next_id TEndpoints d, ep_createdAt := db_now d\<rparr>
      in (Inr (scanEndpoint row), (bump_seq TEndpoints d)\<lparr>db_endpoints := db_endpoints d @ [row]\<rparr>))"

definition GetEndpoint :: "int \<Rightarrow> endpoint stmt" where
  "GetEndpoint i d = (case find (\<lambda>e. ep_id e = i) (db_endpoints d) of
       None \<Rightarrow> (Inl ErrNotFound, d)
     | Some e \<Rightarrow> (Inr (scanEndpoint e), d))"

definition ListEndpoints :: "endpoint list stmt" where
  "ListEndpoints d = (Inr (map scanEndpoint (sort_key ep_id (db_endpoints d))), d)"

definition UpdateEndpoint :: "endpoint \<Rightarrow> unit stmt" where
  "UpdateEndpoint e d =
     (Inr (), d\<lparr>db_endpoints := upd_rows (\<lambda>r. ep_id r = ep_id e)
        (\<lambda>r. r\<lparr>ep_name := ep_name e, ep_host := ep_host e, ep_tlsCAEnc := ep_tlsCAEnc e,
               ep_tlsCertEnc := ep_tlsCertEnc e, ep_tlsKeyEnc := ep_tlsKeyEnc e\<rparr>)
        (db_endpoints d)\<rparr>)"

definition DeleteEndpoint :: "int \<Rightarrow> unit stmt" where
  "DeleteEndpoint i d =
     (Inr (), d\<lparr>db_endpoints := del_rows (\<lambda>e. ep_id e = i) (db_endpoints d),
        db_user_endpoints := del_rows (\<lambda>(u, g). eg_endpointID g = i) (db_user_endpoints d)\<rparr>)"

section \<open>Grants\<close>

definition grant_key :: "int \<times> endpoint_grant \<Rightarrow> int \<times> int" where
  "grant_key r = (case r of (u, g) \<Rightarrow> (u, eg_endpointID g))"

definition GetUserEndpointIDs :: "int \<Rightarrow> int list stmt" where
  "GetUserEndpointIDs userID d =
     (Inr (sort (map (\<lambda>(u, g). eg_endpointID g) (filter (\<lambda>(u, g). u = userID) (db_user_endpoints d)))), d)"

definition GetUserEndpoints :: "int \<Rightarrow> endpoint_grant list stmt" where
  "GetUserEndpoints userID d =
     (Inr (sort_key eg_endpointID (map snd (filter (\<lambda>(u, g). u = userID) (db_user_endpoints d)))), d)"

definition UserHasEndpoint :: "int \<Rightarrow> int \<Rightarrow> bool stmt" where
  "UserHasEndpoint userID endpointID d =
     (Inr (row_look grant_key (db_user_endpoints d) (userID, endpointID) \<noteq> None), d)"

text \<open>\<^verbatim>\<open>(grant, ok, err)\<close>: \<^const>\<open>None\<close> is \<^verbatim>\<open>ok = false\<close>.\<close>

definition GetUserEndpointQuota :: "int \<Rightarrow> int \<Rightarrow> endpoint_grant option stmt" where
  "GetUserEndpointQuota userID endpointID d =
     (Inr (map_option snd (row_look grant_key (db_user_endpoints d) (userID, endpointID))), d)"

text \<open>The \<^verbatim>\<open>INSERT ... ON CONFLICT DO UPDATE\<close> both writers of grants execute.\<close>

definition grant_overwrite :: "endpoint_grant \<Rightarrow> int \<times> endpoint_grant \<Rightarrow> int \<times> endpoint_grant" where
  "grant_overwrite g r = (case r of (u, q) \<Rightarrow>
     (u, q\<lparr>eg_cpuQuotaMilli := eg_cpuQuotaMilli g, eg_memQuotaMB := eg_memQuotaMB g,
            eg_diskQuotaMB := eg_diskQuotaMB g\<rparr>))"

definition InsertGrant :: "int \<Rightarrow> endpoint_grant \<Rightarrow> unit stmt" where
  "InsertGrant userID g d =
     (if \<not> (in_i32 (eg_cpuQuotaMilli g) \<and> in_i32 (eg_memQuotaMB g)) then (Inl errRange, d)
      else if userID \<notin> us_id ` set (db_users d) \<or> eg_endpointID g \<notin> ep_id ` set (db_endpoints d)
        then (Inl errForeignKey, d)
      else (Inr (), d\<lparr>db_user_endpoints :=
              upsert_row grant_key (grant_overwrite g) (userID, g) (db_user_endpoints d)\<rparr>))"

text \<open>A transaction: an error inside it rolls back what it wrote.\<close>

definition in_txn :: "'a stmt \<Rightarrow> 'a stmt" where
  "in_txn m d = (case m d of (Inl e, t) \<Rightarrow> (Inl e, d) | (Inr x, t) \<Rightarrow> (Inr x, t))"

definition DeleteGrants :: "int \<Rightarrow> unit stmt" where
  "DeleteGrants userID d =
     (Inr (), d\<lparr>db_user_endpoints := del_rows (\<lambda>(u, g). u = userID) (db_user_endpoints d)\<rparr>)"

definition SetUserEndpoints :: "int \<Rightarrow> endpoint_grant list \<Rightarrow> unit stmt" where
  "SetUserEndpoints userID grants =
     in_txn (io_seq (DeleteGrants userID) (io_foreach (InsertGrant userID) grants))"

definition GrantUserEndpointQuota :: "int \<Rightarrow> int \<Rightarrow> int \<Rightarrow> int \<Rightarrow> int \<Rightarrow> unit stmt" where
  "GrantUserEndpointQuota userID endpointID cpuMilli memMB diskMB =
     InsertGrant userID \<lparr>eg_endpointID = endpointID, eg_cpuQuotaMilli = cpuMilli,
                         eg_memQuotaMB = memMB, eg_diskQuotaMB = diskMB\<rparr>"

section \<open>The statements keep the database's integrity\<close>

lemma GetEndpoint_keeps [stmt_keeps]: "io_keeps db_ok (GetEndpoint i)"
  by (simp add: io_keeps_def GetEndpoint_def split: option.splits)

lemma ListEndpoints_keeps [stmt_keeps]: "io_keeps db_ok ListEndpoints"
  by (simp add: io_keeps_def ListEndpoints_def)

lemma GetUserEndpointIDs_keeps [stmt_keeps]: "io_keeps db_ok (GetUserEndpointIDs u)"
  by (simp add: io_keeps_def GetUserEndpointIDs_def)

lemma GetUserEndpoints_keeps [stmt_keeps]: "io_keeps db_ok (GetUserEndpoints u)"
  by (simp add: io_keeps_def GetUserEndpoints_def)

lemma UserHasEndpoint_keeps [stmt_keeps]: "io_keeps db_ok (UserHasEndpoint u e)"
  by (simp add: io_keeps_def UserHasEndpoint_def)

lemma GetUserEndpointQuota_keeps [stmt_keeps]: "io_keeps db_ok (GetUserEndpointQuota u e)"
  by (simp add: io_keeps_def GetUserEndpointQuota_def)

lemma CreateEndpoint_keeps [stmt_keeps]: "io_keeps db_ok (CreateEndpoint e)"
proof (rule io_keepsI)
  fix d
  assume ok: "db_ok d"
  then have t: "tbl_ok ep_id ep_id (db_seq d TEndpoints) (db_endpoints d)"
    by (simp add: db_ok_def endpoints_ok_def)
  let ?row = "e\<lparr>ep_id := next_id TEndpoints d, ep_createdAt := db_now d\<rparr>"
  from t have "ep_id ?row \<notin> ep_id ` set (db_endpoints d)"
    by (force simp: tbl_ok_def next_id_def)
  with t have "tbl_ok ep_id ep_id (db_seq d TEndpoints + 1) (db_endpoints d @ [?row])"
    by (intro tbl_ok_insert) (simp_all add: next_id_def)
  with ok show "db_ok (snd (CreateEndpoint e d))"
    by (fastforce simp: CreateEndpoint_def Let_def db_ok_def db_ok_defs bump_seq_def)
qed

lemma UpdateEndpoint_keeps [stmt_keeps]: "io_keeps db_ok (UpdateEndpoint e)"
proof (rule io_keepsI)
  fix d
  assume ok: "db_ok d"
  let ?f = "\<lambda>r. r\<lparr>ep_name := ep_name e, ep_host := ep_host e, ep_tlsCAEnc := ep_tlsCAEnc e,
               ep_tlsCertEnc := ep_tlsCertEnc e, ep_tlsKeyEnc := ep_tlsKeyEnc e\<rparr>"
  let ?rows = "upd_rows (\<lambda>r. ep_id r = ep_id e) ?f (db_endpoints d)"
  have "map ep_id ?rows = map ep_id (db_endpoints d)"
    by (rule map_upd_rows) simp
  then have ids: "ep_id ` set ?rows = ep_id ` set (db_endpoints d)"
    by (metis list.set_map)
  from ok have "endpoints_ok (d\<lparr>db_endpoints := ?rows\<rparr>)"
    by (auto simp: db_ok_def endpoints_ok_def intro: tbl_ok_upd)
  with ok ids show "db_ok (snd (UpdateEndpoint e d))"
    by (simp add: UpdateEndpoint_def db_ok_def users_ok_def services_ok_def routes_ok_def
        registries_ok_def tunnels_ok_def requests_ok_def grants_ok_def volumes_ok_def)
qed

lemma DeleteEndpoint_keeps [stmt_keeps]: "io_keeps db_ok (DeleteEndpoint i)"
proof (rule io_keepsI)
  fix d
  assume ok: "db_ok d"
  have "distinct (map (\<lambda>(u, g). (u, eg_endpointID g))
      (del_rows (\<lambda>(u, g). eg_endpointID g = i) (db_user_endpoints d)))"
    using ok by (intro distinct_map_del_rows) (simp add: db_ok_def grants_ok_def)
  with ok show "db_ok (snd (DeleteEndpoint i d))"
    by (force simp: DeleteEndpoint_def db_ok_def db_ok_defs intro!: tbl_ok_del)
qed

lemma grants_ok_iff:
  "grants_ok d \<longleftrightarrow> distinct (map grant_key (db_user_endpoints d)) \<and>
     (\<forall>r \<in> set (db_user_endpoints d). fst r \<in> us_id ` set (db_users d) \<and>
        eg_endpointID (snd r) \<in> ep_id ` set (db_endpoints d) \<and>
        in_i32 (eg_cpuQuotaMilli (snd r)) \<and> in_i32 (eg_memQuotaMB (snd r)))"
  by (simp add: grants_ok_def grant_key_def [abs_def] case_prod_unfold)

lemma db_ok_grants:
  "db_ok d \<Longrightarrow> grants_ok (d\<lparr>db_user_endpoints := gs\<rparr>) \<Longrightarrow> db_ok (d\<lparr>db_user_endpoints := gs\<rparr>)"
  by (simp add: db_ok_def users_ok_def services_ok_def routes_ok_def registries_ok_def
      tunnels_ok_def endpoints_ok_def requests_ok_def volumes_ok_def)

lemma grant_overwrite_simps [simp]:
  "grant_key (grant_overwrite g r) = grant_key r" "fst (grant_overwrite g r) = fst r"
  "eg_endpointID (snd (grant_overwrite g r)) = eg_endpointID (snd r)"
  "eg_cpuQuotaMilli (snd (grant_overwrite g r)) = eg_cpuQuotaMilli g"
  "eg_memQuotaMB (snd (grant_overwrite g r)) = eg_memQuotaMB g"
  "eg_diskQuotaMB (snd (grant_overwrite g r)) = eg_diskQuotaMB g"
  by (cases r; simp add: grant_overwrite_def grant_key_def)+

lemma InsertGrant_keeps [stmt_keeps]: "io_keeps db_ok (InsertGrant userID g)"
proof (rule io_keepsI)
  fix d
  assume ok: "db_ok d"
  from ok have g: "grants_ok d" by (rule db_okD)
  show "db_ok (snd (InsertGrant userID g d))"
  proof (cases "in_i32 (eg_cpuQuotaMilli g) \<and> in_i32 (eg_memQuotaMB g) \<and>
      userID \<in> us_id ` set (db_users d) \<and> eg_endpointID g \<in> ep_id ` set (db_endpoints d)")
    case True
    let ?rows = "upsert_row grant_key (grant_overwrite g) (userID, g) (db_user_endpoints d)"
    have "distinct (map grant_key ?rows)"
      using g by (intro distinct_upsert_row) (auto simp: grants_ok_iff)
    with g True have "grants_ok (d\<lparr>db_user_endpoints := ?rows\<rparr>)"
      by (force simp: grants_ok_iff dest!: set_upsert_row)
    with ok True show ?thesis by (simp add: InsertGrant_def db_ok_grants)
  next
    case False
    with ok show ?thesis by (auto simp: InsertGrant_def)
  qed
qed

lemma DeleteGrants_keeps [stmt_keeps]: "io_keeps db_ok (DeleteGrants u)"
proof (rule io_keepsI)
  fix d
  assume ok: "db_ok d"
  then have "grants_ok d" by (rule db_okD)
  then have "grants_ok (d\<lparr>db_user_endpoints := del_rows (\<lambda>(w, g). w = u) (db_user_endpoints d)\<rparr>)"
    by (auto simp: grants_ok_iff distinct_map_del_rows)
  with ok show "db_ok (snd (DeleteGrants u d))"
    by (simp add: DeleteGrants_def db_ok_grants)
qed

lemma in_txn_keeps [stmt_keeps]: "io_keeps db_ok m \<Longrightarrow> io_keeps db_ok (in_txn m)"
  by (auto simp: io_keeps_def in_txn_def split: prod.splits sum.splits)

lemma SetUserEndpoints_keeps [stmt_keeps]: "io_keeps db_ok (SetUserEndpoints u gs)"
  unfolding SetUserEndpoints_def
  by (intro stmt_keeps io_keep)

lemma GrantUserEndpointQuota_keeps [stmt_keeps]: "io_keeps db_ok (GrantUserEndpointQuota u e c m k)"
  by (simp add: GrantUserEndpointQuota_def InsertGrant_keeps)

section \<open>The grants as a key-value store\<close>

type_synonym quota = "int \<times> int \<times> int"

definition grant_quota :: "int \<times> endpoint_grant \<Rightarrow> quota" where
  "grant_quota r = (eg_cpuQuotaMilli (snd r), eg_memQuotaMB (snd r), eg_diskQuotaMB (snd r))"

definition grants_look :: "db \<Rightarrow> int \<times> int \<Rightarrow> quota option" where
  "grants_look d k = map_option grant_quota (row_look grant_key (db_user_endpoints d) k)"

definition grant_of :: "int \<Rightarrow> quota \<Rightarrow> endpoint_grant" where
  "grant_of e q = (case q of (c, m, k) \<Rightarrow>
     \<lparr>eg_endpointID = e, eg_cpuQuotaMilli = c, eg_memQuotaMB = m, eg_diskQuotaMB = k\<rparr>)"

definition grant_fits :: "db \<Rightarrow> int \<times> int \<Rightarrow> quota \<Rightarrow> bool" where
  "grant_fits d k q \<longleftrightarrow> fst k \<in> us_id ` set (db_users d) \<and> snd k \<in> ep_id ` set (db_endpoints d) \<and>
     in_i32 (fst q) \<and> in_i32 (fst (snd q))"

lemma InsertGrant_fits:
  assumes "grant_fits d (u, eg_endpointID g) (grant_quota (u, g))"
  shows "fst (InsertGrant u g d) = Inr ()"
    and "grants_look (snd (InsertGrant u g d)) =
      (grants_look d)((u, eg_endpointID g) \<mapsto> grant_quota (u, g))"
  using assms
  by (auto simp: InsertGrant_def grants_look_def grant_fits_def fun_eq_iff row_look_upsert
      grant_quota_def grant_key_def [of "(u, g)"] split: option.splits)

lemma InsertGrant_tables:
  "db_users (snd (InsertGrant u g d)) = db_users d"
  "db_endpoints (snd (InsertGrant u g d)) = db_endpoints d"
  by (simp_all add: InsertGrant_def)

interpretation grant_kv: kv_writes db_ok grant_fits grants_look
  "\<lambda>k q d. snd (InsertGrant (fst k) (grant_of (snd k) q) d)"
proof unfold_locales
  fix d k q
  assume "grant_fits d k q"
  then show "grants_look (snd (InsertGrant (fst k) (grant_of (snd k) q) d)) = (grants_look d)(k \<mapsto> q)"
    using InsertGrant_fits(2) [of d "fst k" "grant_of (snd k) q"]
    by (cases k; cases q) (simp add: grant_of_def grant_quota_def)
qed (use InsertGrant_keeps in \<open>auto simp: io_keeps_def grant_fits_def InsertGrant_tables\<close>)

lemma io_foreach_InsertGrant_Inr:
  "io_foreach (InsertGrant u) gs d = (Inr x, d') \<Longrightarrow>
   grants_look d' = grants_look d ++ map_of (rev (map (\<lambda>g. ((u, eg_endpointID g), grant_quota (u, g))) gs))"
proof (induction gs arbitrary: d)
  case Nil
  then show ?case by simp
next
  case (Cons g gs)
  then obtain t y where g: "InsertGrant u g d = (Inr y, t)" and gs: "io_foreach (InsertGrant u) gs t = (Inr x, d')"
    by (auto simp: io_inr)
  then have "grant_fits d (u, eg_endpointID g) (grant_quota (u, g))"
    by (auto simp: InsertGrant_def grant_fits_def grant_quota_def split: if_splits)
  from InsertGrant_fits(2) [OF this] g
  have "grants_look t = (grants_look d)((u, eg_endpointID g) \<mapsto> grant_quota (u, g))" by simp
  with Cons.IH [OF gs] show ?case
    by (simp add: map_add_def fun_eq_iff split: option.splits)
qed

lemma DeleteGrants_look:
  "grants_look (snd (DeleteGrants u d)) (w, e) = (if w = u then None else grants_look d (w, e))"
proof -
  have "find (\<lambda>r. grant_key r = (w, e)) (del_rows (\<lambda>(x, g). x = u) rows) =
      (if w = u then None else find (\<lambda>r. grant_key r = (w, e)) rows)" for rows
    by (induction rows) (auto simp: del_rows_def grant_key_def)
  then show ?thesis by (simp add: grants_look_def DeleteGrants_def row_look_def)
qed

end
