(* ===== verification/StoreServices.thy ===== *)
theory StoreServices
  imports StoreEndpoints
begin

text \<open>
  The statements of \<^verbatim>\<open>store/services.go\<close> and \<^verbatim>\<open>store/volume_specs.go\<close>: the
  replica-managed services and the size budgets of volumes.
\<close>

section \<open>Services\<close>

definition scanService :: "service option \<Rightarrow> goerr + service" where
  "scanService row = (case row of None \<Rightarrow> Inl ErrNotFound | Some s \<Rightarrow> Inr s)"

text \<open>The \<^verbatim>\<open>INTEGER\<close> columns of the table.\<close>

definition service_fits :: "service \<Rightarrow> bool" where
  "service_fits s \<longleftrightarrow> in_i32 (sv_containerPort s) \<and> in_i32 (sv_cpuMilli s) \<and> in_i32 (sv_memMB s) \<and>
     in_i32 (sv_replicas s) \<and> in_i32 (sv_minReplicas s) \<and> in_i32 (sv_maxReplicas s) \<and>
     in_i32 (sv_targetCPUPct s)"

text \<open>An empty \<^verbatim>\<open>Advanced\<close> is stored as an empty JSON object.\<close>

definition advanced_default :: "service \<Rightarrow> service" where
  "advanced_default s = (if sv_advanced s = '''' then s\<lparr>sv_advanced := ''{}''\<rparr> else s)"

definition CreateService :: "service \<Rightarrow> service stmt" where
  "CreateService s0 d =
     (let s = advanced_default s0 in
      if \<not> service_fits s then (Inl errRange, d)
      else let d' = bump_seq TServices d;
               row = s\<lparr>sv_id := next_id TServices d, sv_createdAt := db_now d,
                       sv_lastImage := '''', sv_lastDeployAt := None\<rparr>
           in if sv_name s \<in> sv_name ` set (db_services d) then (Inl errUnique, d')
              else (Inr (s\<lparr>sv_id := next_id TServices d, sv_createdAt := db_now d\<rparr>),
                    d'\<lparr>db_services := db_services d @ [row]\<rparr>))"

definition GetService :: "string \<Rightarrow> service stmt" where
  "GetService name d = (scanService (find (\<lambda>s. sv_name s = name) (db_services d)), d)"

definition GetServiceByToken :: "string \<Rightarrow> service stmt" where
  "GetServiceByToken token d = (scanService (find (\<lambda>s. sv_webhookToken s = token) (db_services d)), d)"

definition ListServices :: "string \<Rightarrow> service list stmt" where
  "ListServices owner d =
     (Inr (order_by d sv_name (if owner \<noteq> '''' then filter (\<lambda>s. sv_owner s = owner) (db_services d)
                               else db_services d)), d)"

definition SetServiceReplicas :: "int \<Rightarrow> int \<Rightarrow> unit stmt" where
  "SetServiceReplicas i replicas d =
     (if \<not> in_i32 replicas then (Inl errRange, d)
      else (Inr (), d\<lparr>db_services := upd_rows (\<lambda>s. sv_id s = i) (\<lambda>s. s\<lparr>sv_replicas := replicas\<rparr>) (db_services d)\<rparr>))"

text \<open>Id, name, owner, webhook token, environment and history are not assigned.\<close>

definition service_edit :: "service \<Rightarrow> service \<Rightarrow> service" where
  "service_edit s row = row\<lparr>sv_image := sv_image s, sv_subdomain := sv_subdomain s,
     sv_containerPort := sv_containerPort s, sv_network := sv_network s, sv_env := sv_env s,
     sv_cpuMilli := sv_cpuMilli s, sv_memMB := sv_memMB s, sv_replicas := sv_replicas s,
     sv_minReplicas := sv_minReplicas s, sv_maxReplicas := sv_maxReplicas s,
     sv_autoscale := sv_autoscale s, sv_targetCPUPct := sv_targetCPUPct s,
     sv_gitRepo := sv_gitRepo s, sv_gitBranch := sv_gitBranch s,
     sv_gitDockerfile := sv_gitDockerfile s, sv_advanced := sv_advanced s\<rparr>"

definition UpdateService :: "service \<Rightarrow> unit stmt" where
  "UpdateService s0 d =
     (let s = advanced_default s0 in
      if \<not> service_fits s then (Inl errRange, d)
      else (Inr (), d\<lparr>db_services := upd_rows (\<lambda>r. sv_id r = sv_id s) (service_edit s) (db_services d)\<rparr>))"

definition SetServiceSubdomain :: "int \<Rightarrow> string \<Rightarrow> unit stmt" where
  "SetServiceSubdomain i subdomain d =
     (Inr (), d\<lparr>db_services := upd_rows (\<lambda>s. sv_id s = i) (\<lambda>s. s\<lparr>sv_subdomain := subdomain\<rparr>) (db_services d)\<rparr>)"

definition SetServiceImage :: "int \<Rightarrow> string \<Rightarrow> unit stmt" where
  "SetServiceImage i img d =
     (Inr (), d\<lparr>db_services := upd_rows (\<lambda>s. sv_id s = i)
        (\<lambda>s. s\<lparr>sv_image := img, sv_lastImage := img, sv_lastDeployAt := Some (db_now d)\<rparr>)
        (db_services d)\<rparr>)"

definition DeleteService :: "int \<Rightarrow> unit stmt" where
  "DeleteService i d = (Inr (), d\<lparr>db_services := del_rows (\<lambda>s. sv_id s = i) (db_services d)\<rparr>)"

section \<open>Volume budgets\<close>

definition vol_key :: "volume_spec \<Rightarrow> int \<times> string" where
  "vol_key v = (vs_endpointID v, vs_name v)"

definition vol_row :: "int \<Rightarrow> string \<Rightarrow> string \<Rightarrow> int \<Rightarrow> volume_spec" where
  "vol_row e n ow s = \<lparr>vs_endpointID = e, vs_name = n, vs_owner = ow, vs_sizeMB = s\<rparr>"

definition vol_overwrite :: "string \<Rightarrow> int \<Rightarrow> volume_spec \<Rightarrow> volume_spec" where
  "vol_overwrite ow s v = v\<lparr>vs_sizeMB := s, vs_owner := ow\<rparr>"

definition SetVolumeSize :: "int \<Rightarrow> string \<Rightarrow> string \<Rightarrow> int \<Rightarrow> unit stmt" where
  "SetVolumeSize endpointID name owner sizeMB d =
     (Inr (), d\<lparr>db_volume_specs := upsert_row vol_key (vol_overwrite owner sizeMB)
        (vol_row endpointID name owner sizeMB) (db_volume_specs d)\<rparr>)"

definition DeleteVolumeSize :: "int \<Rightarrow> string \<Rightarrow> unit stmt" where
  "DeleteVolumeSize endpointID name d =
     (Inr (), d\<lparr>db_volume_specs := del_rows (\<lambda>v. vol_key v = (endpointID, name)) (db_volume_specs d)\<rparr>)"

definition ListVolumeSizes :: "int \<Rightarrow> (string \<rightharpoonup> int) stmt" where
  "ListVolumeSizes endpointID d =
     (Inr (map_of (rev (map (\<lambda>v. (vs_name v, vs_sizeMB v))
        (filter (\<lambda>v. vs_endpointID v = endpointID) (db_volume_specs d))))), d)"

text \<open>\<^verbatim>\<open>SELECT COALESCE(SUM(size_mb), 0)\<close> over the rows of the owner.\<close>

definition owner_rows :: "int \<Rightarrow> string \<Rightarrow> string \<Rightarrow> volume_spec list \<Rightarrow> volume_spec list" where
  "owner_rows endpointID owner excludeName rows =
     filter (\<lambda>v. vs_endpointID v = endpointID \<and> vs_owner v = owner \<and> vs_name v \<noteq> excludeName) rows"

definition disk_usage :: "int \<Rightarrow> string \<Rightarrow> string \<Rightarrow> db \<Rightarrow> int" where
  "disk_usage endpointID owner excludeName d =
     sum_list (map vs_sizeMB (owner_rows endpointID owner excludeName (db_volume_specs d)))"

text \<open>The sum of \<^verbatim>\<open>BIGINT\<close>s is a \<^verbatim>\<open>NUMERIC\<close>; reading it into an \<^verbatim>\<open>int\<close> fails out of range.\<close>

definition OwnerDiskUsageMB :: "int \<Rightarrow> string \<Rightarrow> string \<Rightarrow> int stmt" where
  "OwnerDiskUsageMB endpointID owner excludeName d =
     (let total = disk_usage endpointID owner excludeName d
      in if in_i64 total then (Inr total, d) else (Inl (Ext ''is greater than maximum value for int''), d))"

section \<open>The statements keep the database's integrity\<close>

lemma GetService_keeps [stmt_keeps]: "io_keeps db_ok (GetService n)"
  by (simp add: io_keeps_def GetService_def)

lemma GetServiceByToken_keeps [stmt_keeps]: "io_keeps db_ok (GetServiceByToken n)"
  by (simp add: io_keeps_def GetServiceByToken_def)

lemma ListServices_keeps [stmt_keeps]: "io_keeps db_ok (ListServices n)"
  by (simp add: io_keeps_def ListServices_def)

lemma ListVolumeSizes_keeps [stmt_keeps]: "io_keeps db_ok (ListVolumeSizes n)"
  by (simp add: io_keeps_def ListVolumeSizes_def)

lemma OwnerDiskUsageMB_keeps [stmt_keeps]: "io_keeps db_ok (OwnerDiskUsageMB e ow x)"
  by (simp add: io_keeps_def OwnerDiskUsageMB_def Let_def)

lemma services_ok_iff:
  "services_ok d \<longleftrightarrow> tbl_ok sv_id sv_name (db_seq d TServices) (db_services d) \<and>
     (\<forall>s \<in> set (db_services d). service_fits s)"
  by (simp add: services_ok_def service_fits_def)

lemma db_ok_services:
  "db_ok d \<Longrightarrow> services_ok (d\<lparr>db_services := ss\<rparr>) \<Longrightarrow> db_ok (d\<lparr>db_services := ss\<rparr>)"
  by (simp add: db_ok_def users_ok_def routes_ok_def registries_ok_def
      tunnels_ok_def endpoints_ok_def requests_ok_def grants_ok_def volumes_ok_def)

lemma db_ok_upd_services:
  assumes "db_ok d" and "\<And>s. sv_id (f s) = sv_id s" "\<And>s. sv_name (f s) = sv_name s"
    and "\<And>s. service_fits s \<Longrightarrow> service_fits (f s)"
  shows "db_ok (d\<lparr>db_services := upd_rows P f (db_services d)\<rparr>)"
proof (rule db_ok_services [OF assms(1)])
  from assms(1) have "services_ok d" by (rule db_okD)
  with assms(2-4) show "services_ok (d\<lparr>db_services := upd_rows P f (db_services d)\<rparr>)"
    by (auto simp: services_ok_iff set_upd_rows intro: tbl_ok_upd)
qed

lemma service_edit_simps [simp]:
  "sv_id (service_edit s r) = sv_id r" "sv_name (service_edit s r) = sv_name r"
  "sv_owner (service_edit s r) = sv_owner r" "sv_endpointID (service_edit s r) = sv_endpointID r"
  "sv_webhookToken (service_edit s r) = sv_webhookToken r"
  "service_fits (service_edit s r) = service_fits s"
  by (simp_all add: service_edit_def service_fits_def)

lemma advanced_default_simps [simp]:
  "sv_id (advanced_default s) = sv_id s" "sv_name (advanced_default s) = sv_name s"
  "sv_owner (advanced_default s) = sv_owner s" "sv_endpointID (advanced_default s) = sv_endpointID s"
  "service_fits (advanced_default s) = service_fits s"
  by (simp_all add: advanced_default_def service_fits_def)

lemma CreateService_keeps [stmt_keeps]: "io_keeps db_ok (CreateService s0)"
proof (rule io_keepsI)
  fix d
  assume ok: "db_ok d"
  let ?s = "advanced_default s0"
  let ?row = "?s\<lparr>sv_id := next_id TServices d, sv_createdAt := db_now d,
                sv_lastImage := '''', sv_lastDeployAt := None\<rparr>"
  let ?d = "bump_seq TServices d"
  show "db_ok (snd (CreateService s0 d))"
  proof (cases "service_fits ?s \<and> sv_name ?s \<notin> sv_name ` set (db_services d)")
    case True
    then have "snd (CreateService s0 d) = ?d\<lparr>db_services := db_services ?d @ [?row]\<rparr>"
      by (simp add: CreateService_def Let_def bump_seq_def)
    moreover have "db_ok (?d\<lparr>db_services := db_services ?d @ [?row]\<rparr>)"
    proof (rule db_ok_services)
      from ok show "db_ok ?d" by simp
      from ok have "services_ok d" by (rule db_okD)
      moreover from True have "service_fits ?row" by (simp add: service_fits_def)
      ultimately show "services_ok (?d\<lparr>db_services := db_services ?d @ [?row]\<rparr>)"
        using True by (auto simp: services_ok_iff bump_seq_def next_id_def intro!: tbl_ok_insert)
    qed
    ultimately show ?thesis by (simp only:)
  next
    case False
    with ok show ?thesis by (auto simp: CreateService_def Let_def)
  qed
qed

lemma SetServiceReplicas_keeps [stmt_keeps]: "io_keeps db_ok (SetServiceReplicas i n)"
  by (auto simp: io_keeps_def SetServiceReplicas_def service_fits_def intro!: db_ok_upd_services)

lemma UpdateService_keeps [stmt_keeps]: "io_keeps db_ok (UpdateService s)"
  by (auto simp: io_keeps_def UpdateService_def Let_def intro!: db_ok_upd_services)

lemma SetServiceSubdomain_keeps [stmt_keeps]: "io_keeps db_ok (SetServiceSubdomain i n)"
  by (auto simp: io_keeps_def SetServiceSubdomain_def service_fits_def intro!: db_ok_upd_services)

lemma SetServiceImage_keeps [stmt_keeps]: "io_keeps db_ok (SetServiceImage i n)"
  by (auto simp: io_keeps_def SetServiceImage_def service_fits_def intro!: db_ok_upd_services)

lemma DeleteService_keeps [stmt_keeps]: "io_keeps db_ok (DeleteService i)"
proof (rule io_keepsI)
  fix d
  assume ok: "db_ok d"
  then have "services_ok d" by (rule db_okD)
  then have "services_ok (d\<lparr>db_services := del_rows (\<lambda>s. sv_id s = i) (db_services d)\<rparr>)"
    by (auto simp: services_ok_iff tbl_ok_del)
  with ok show "db_ok (snd (DeleteService i d))"
    by (simp add: DeleteService_def db_ok_services)
qed

lemma volumes_ok_iff: "volumes_ok d \<longleftrightarrow> distinct (map vol_key (db_volume_specs d))"
  by (simp add: volumes_ok_def vol_key_def [abs_def])

lemma db_ok_volumes:
  "db_ok d \<Longrightarrow> volumes_ok (d\<lparr>db_volume_specs := vs\<rparr>) \<Longrightarrow> db_ok (d\<lparr>db_volume_specs := vs\<rparr>)"
  by (simp add: db_ok_def users_ok_def services_ok_def routes_ok_def registries_ok_def
      tunnels_ok_def endpoints_ok_def requests_ok_def grants_ok_def)

lemma vol_simps [simp]:
  "vol_key (vol_row e n ow s) = (e, n)" "vol_key (vol_overwrite ow s v) = vol_key v"
  "vs_owner (vol_row e n ow s) = ow" "vs_sizeMB (vol_row e n ow s) = s"
  "vs_owner (vol_overwrite ow s v) = ow" "vs_sizeMB (vol_overwrite ow s v) = s"
  by (simp_all add: vol_key_def vol_row_def vol_overwrite_def)

lemma SetVolumeSize_keeps [stmt_keeps]: "io_keeps db_ok (SetVolumeSize e n ow s)"
proof (rule io_keepsI)
  fix d
  assume ok: "db_ok d"
  then have "volumes_ok d" by (rule db_okD)
  then have "distinct (map vol_key (upsert_row vol_key (vol_overwrite ow s) (vol_row e n ow s) (db_volume_specs d)))"
    by (intro distinct_upsert_row) (auto simp: volumes_ok_iff)
  with ok show "db_ok (snd (SetVolumeSize e n ow s d))"
    by (simp add: SetVolumeSize_def db_ok_volumes volumes_ok_iff)
qed

lemma DeleteVolumeSize_keeps [stmt_keeps]: "io_keeps db_ok (DeleteVolumeSize e n)"
proof (rule io_keepsI)
  fix d
  assume ok: "db_ok d"
  then have "volumes_ok d" by (rule db_okD)
  with ok show "db_ok (snd (DeleteVolumeSize e n d))"
    by (simp add: DeleteVolumeSize_def db_ok_volumes volumes_ok_iff distinct_map_del_rows)
qed

section \<open>Lookups\<close>

lemma GetService_Inr:
  "db_ok d \<Longrightarrow> GetService n d = (Inr s, d') \<longleftrightarrow> d' = d \<and> s \<in> set (db_services d) \<and> sv_name s = n"
  using find_Some_iff_distinct [of sv_name "db_services d" n s]
  by (auto simp: GetService_def scanService_def db_ok_def services_ok_def tbl_ok_def split: option.splits)

lemma GetService_state [simp]: "snd (GetService n d) = d"
  by (simp add: GetService_def)

section \<open>The volume budgets as a key-value store\<close>

definition vol_look :: "db \<Rightarrow> int \<times> string \<Rightarrow> (string \<times> int) option" where
  "vol_look d k = map_option (\<lambda>v. (vs_owner v, vs_sizeMB v)) (row_look vol_key (db_volume_specs d) k)"

lemma SetVolumeSize_look:
  "vol_look (snd (SetVolumeSize e n ow s d)) = (vol_look d)((e, n) \<mapsto> (ow, s))"
  by (auto simp: vol_look_def SetVolumeSize_def fun_eq_iff row_look_upsert split: option.splits)

lemma DeleteVolumeSize_look:
  "vol_look (snd (DeleteVolumeSize e n d)) = (vol_look d)((e, n) := None)"
  by (auto simp: vol_look_def DeleteVolumeSize_def fun_eq_iff row_look_del)

interpretation vol_kv: kv_store db_ok "\<lambda>_ _ _. True" vol_look
  "\<lambda>k v d. snd (SetVolumeSize (fst k) (snd k) (fst v) (snd v) d)"
  "\<lambda>k d. snd (DeleteVolumeSize (fst k) (snd k) d)"
  using SetVolumeSize_keeps DeleteVolumeSize_keeps
  by unfold_locales (auto simp: SetVolumeSize_look DeleteVolumeSize_look io_keeps_def)

section \<open>Disk usage\<close>

lemma disk_usage_rows:
  assumes "distinct (map vol_key rows)"
  shows "sum_list (map vs_sizeMB (filter (\<lambda>v. vs_endpointID v = e \<and> vs_owner v = ow) (rows))) =
    sum_list (map vs_sizeMB (owner_rows e ow n rows)) +
    (case row_look vol_key rows (e, n) of Some v \<Rightarrow> if vs_owner v = ow then vs_sizeMB v else 0 | None \<Rightarrow> 0)"
  using assms
proof (induction rows)
  case Nil
  then show ?case by (simp add: owner_rows_def row_look_def)
next
  case (Cons v rows)
  show ?case
  proof (cases "vol_key v = (e, n)")
    case True
    with Cons.prems have "row_look vol_key rows (e, n) = None"
      by (auto simp: row_look_None)
    with Cons True show ?thesis by (auto simp: row_look_def owner_rows_def vol_key_def)
  next
    case False
    with Cons show ?thesis by (auto simp: row_look_def owner_rows_def vol_key_def split: option.splits)
  qed
qed

text \<open>The whole usage is the usage without one volume plus that volume's budget.\<close>

definition disk_total :: "int \<Rightarrow> string \<Rightarrow> db \<Rightarrow> int" where
  "disk_total e ow d = sum_list (map vs_sizeMB (filter (\<lambda>v. vs_endpointID v = e \<and> vs_owner v = ow) (db_volume_specs d)))"

lemma disk_total_split:
  assumes "db_ok d"
  shows "disk_total e ow d = disk_usage e ow n d +
    (case vol_look d (e, n) of Some (w, s) \<Rightarrow> if w = ow then s else 0 | None \<Rightarrow> 0)"
  using assms disk_usage_rows [of "db_volume_specs d" e ow n]
  by (auto simp: disk_total_def disk_usage_def vol_look_def db_ok_def volumes_ok_iff split: option.splits)

lemma owner_rows_upsert:
  assumes "vol_key r = (e, n)" and "\<And>v. vol_key (f v) = vol_key v"
  shows "owner_rows e ow n (upsert_row vol_key f r rows) = owner_rows e ow n rows"
proof -
  have key: "vol_key v = (e, n) \<Longrightarrow> vs_name (f v) = n \<and> vs_name v = n" for v
    using assms(2) [of v] by (simp add: vol_key_def)
  have "owner_rows e ow n (upd_rows (\<lambda>x. vol_key x = (e, n)) f rows) = owner_rows e ow n rows"
  proof (induction rows)
    case Nil
    then show ?case by simp
  next
    case (Cons v rows)
    then show ?case
      using key [of v] by (cases "vol_key v = (e, n)") (simp_all add: owner_rows_def)
  qed
  with assms(1) show ?thesis
    by (auto simp: upsert_row_def owner_rows_def vol_key_def)
qed

lemma disk_usage_SetVolumeSize_same:
  "disk_usage e ow n (snd (SetVolumeSize e n ow' s d)) = disk_usage e ow n d"
  by (simp add: disk_usage_def SetVolumeSize_def owner_rows_upsert)

lemma disk_total_SetVolumeSize:
  assumes "db_ok d"
  shows "disk_total e ow (snd (SetVolumeSize e n ow s d)) = disk_usage e ow n d + s"
proof -
  let ?d = "snd (SetVolumeSize e n ow s d)"
  from assms SetVolumeSize_keeps have "db_ok ?d" by (auto simp: io_keeps_def)
  from disk_total_split [OF this, of e ow n] show ?thesis
    by (simp add: SetVolumeSize_look disk_usage_SetVolumeSize_same)
qed

end
