(* ===== verification/Xds.thy ===== *)
theory Xds
  imports GoLib "HOL-Library.Word"
begin

text \<open>
  The Envoy control plane, \<^verbatim>\<open>xds/xds.go\<close> and \<^verbatim>\<open>xds/bootstrap.go\<close>: the
  translation of upstreams into clusters, virtual hosts and a listener, the snapshot cache
  with its version counter, and the bootstrap text of a remote edge proxy.  The Envoy
  resources keep the fields the code sets.  The go-control-plane library (snapshot
  construction, the consistency check and the cache) is the parameter \<^verbatim>\<open>envoy_lib\<close>.
\<close>

section \<open>Data\<close>

type_synonym u32 = "32 word"

record upstream =
  up_key :: string
  up_subdomain :: string
  up_domains :: "string list"
  up_hosts :: "string list"
  up_port :: u32
  up_endpointID :: int

record socket_address =
  sa_address :: string
  sa_port :: u32

datatype discovery = STRICT_DNS
datatype lb_policy = ROUND_ROBIN

record cluster =
  cl_name :: string
  cl_connectTimeoutSec :: int
  cl_discovery :: discovery
  cl_lbPolicy :: lb_policy
  cl_assignmentName :: string
  cl_endpoints :: "socket_address list"

datatype route_action = ToCluster string | DirectResponse nat

record virtual_host =
  vh_name :: string
  vh_domains :: "string list"
  vh_prefix :: string
  vh_action :: route_action

record route_config =
  rc_name :: string
  rc_virtualHosts :: "virtual_host list"

text \<open>Where Envoy gets its routes: the control plane it knows from its bootstrap.\<close>

record config_source =
  cs_resourceApiVersion :: string
  cs_transportApiVersion :: string
  cs_apiType :: string
  cs_setNodeOnFirstMessageOnly :: bool
  cs_envoyGrpcCluster :: string

record listener =
  ls_name :: string
  ls_address :: socket_address
  ls_filter :: string
  ls_codecType :: string
  ls_statPrefix :: string
  ls_rdsConfig :: config_source
  ls_routeConfigName :: string
  ls_httpFilters :: "string list"

record snapshot =
  sn_version :: string
  sn_clusters :: "cluster list"
  sn_routes :: "route_config list"
  sn_listeners :: "listener list"

definition listenerName :: string where "listenerName = ''easydeploy-listener''"
definition routeConfigName :: string where "routeConfigName = ''easydeploy-routes''"
definition httpListenPort :: u32 where "httpListenPort = 10000"
definition AdminPort :: int where "AdminPort = 9901"

record xds_manager =
  xm_cache :: "string \<rightharpoonup> snapshot"
  xm_nodeID :: string
  xm_baseDomain :: string
  xm_version :: int

text \<open>
  What the server uses of go-control-plane: the error of \<^verbatim>\<open>NewSnapshot\<close> and of
  \<^verbatim>\<open>Consistent\<close>, and \<^verbatim>\<open>SetSnapshot\<close> on the cache.
\<close>

record envoy_lib =
  el_newSnapshotErr :: "snapshot \<Rightarrow> goerr option"
  el_consistentErr :: "snapshot \<Rightarrow> goerr option"
  el_setSnapshot :: "string \<Rightarrow> snapshot \<Rightarrow> (string \<rightharpoonup> snapshot) \<Rightarrow> goerr option \<times> (string \<rightharpoonup> snapshot)"

text \<open>The documented effect of a \<^verbatim>\<open>SetSnapshot\<close> that reports no error.\<close>

definition envoy_lib_ok :: "envoy_lib \<Rightarrow> bool" where
  "envoy_lib_ok L \<longleftrightarrow> (\<forall>n s c c'. el_setSnapshot L n s c = (None, c') \<longrightarrow> c' = c(n \<mapsto> s))"

text \<open>A library with that effect that accepts every snapshot.\<close>

definition envoy_lib_plain :: envoy_lib where
  "envoy_lib_plain = \<lparr>el_newSnapshotErr = (\<lambda>_. None), el_consistentErr = (\<lambda>_. None),
     el_setSnapshot = (\<lambda>n s c. (None, c(n \<mapsto> s)))\<rparr>"

lemma envoy_lib_ok_plain [simp]: "envoy_lib_ok envoy_lib_plain"
  by (simp add: envoy_lib_ok_def envoy_lib_plain_def)

section \<open>Resources\<close>

text \<open>Seeded from the wall clock \<^verbatim>\<open>ms\<close> so that versions grow across restarts.\<close>

definition NewManager :: "string \<Rightarrow> string \<Rightarrow> int \<Rightarrow> xds_manager" where
  "NewManager nodeID baseDomain ms =
     \<lparr>xm_cache = Map.empty, xm_nodeID = nodeID, xm_baseDomain = baseDomain, xm_version = ms\<rparr>"

definition edgeNode :: "int \<Rightarrow> string" where
  "edgeNode i = ''easydeploy-edge-'' @ goItoa i"

definition NodeForEndpoint :: "xds_manager \<Rightarrow> int \<Rightarrow> string" where
  "NodeForEndpoint m i = (if i = 0 then xm_nodeID m else edgeNode i)"

definition upstreamKey :: "upstream \<Rightarrow> string" where
  "upstreamKey u = (if up_key u \<noteq> '''' then up_key u else up_subdomain u)"

definition clusterName :: "upstream \<Rightarrow> string" where
  "clusterName u = ''cl_'' @ upstreamKey u"

definition matchSource :: "upstream \<Rightarrow> string \<Rightarrow> string list" where
  "matchSource u base =
     (if up_domains u = [] \<and> up_subdomain u \<noteq> '''' then [up_subdomain u @ ''.'' @ base]
      else up_domains u)"

definition matchDomains :: "upstream \<Rightarrow> string \<Rightarrow> string list" where
  "matchDomains u base = concat (map (\<lambda>d. [d, d @ '':*'']) (matchSource u base))"

definition makeCluster :: "upstream \<Rightarrow> cluster" where
  "makeCluster u = \<lparr>cl_name = clusterName u, cl_connectTimeoutSec = 5,
     cl_discovery = STRICT_DNS, cl_lbPolicy = ROUND_ROBIN, cl_assignmentName = clusterName u,
     cl_endpoints = map (\<lambda>h. \<lparr>sa_address = h, sa_port = up_port u\<rparr>) (up_hosts u)\<rparr>"

text \<open>
  The inner loop of \<^verbatim>\<open>makeRouteConfig\<close>: of the domains of one upstream, those nobody
  claimed before, and the claims after it.
\<close>

fun claim_domains :: "string list \<Rightarrow> string set \<Rightarrow> string list \<times> string set" where
  "claim_domains [] C = ([], C)"
| "claim_domains (d # ds) C =
     (if d \<in> C then claim_domains ds C
      else (case claim_domains ds (insert d C) of (r, C') \<Rightarrow> (d # r, C')))"

definition makeVirtualHost :: "upstream \<Rightarrow> string list \<Rightarrow> virtual_host" where
  "makeVirtualHost u ds = \<lparr>vh_name = ''vh_'' @ upstreamKey u, vh_domains = ds, vh_prefix = ''/'',
     vh_action = ToCluster (clusterName u)\<rparr>"

text \<open>The outer loop, threading the claims from one upstream to the next.\<close>

fun build_vhosts :: "string \<Rightarrow> upstream list \<Rightarrow> string set \<Rightarrow> virtual_host list" where
  "build_vhosts base [] C = []"
| "build_vhosts base (u # us) C =
     (case claim_domains (matchDomains u base) C of (ds, C') \<Rightarrow>
        if ds = [] then build_vhosts base us C'
        else makeVirtualHost u ds # build_vhosts base us C')"

definition defaultVirtualHost :: virtual_host where
  "defaultVirtualHost = \<lparr>vh_name = ''vh_default'', vh_domains = [''*''], vh_prefix = ''/'',
     vh_action = DirectResponse 404\<rparr>"

definition makeRouteConfig :: "upstream list \<Rightarrow> string \<Rightarrow> route_config" where
  "makeRouteConfig ups base = \<lparr>rc_name = routeConfigName,
     rc_virtualHosts = build_vhosts base ups {} @ [defaultVirtualHost]\<rparr>"

definition configSource :: config_source where
  "configSource = \<lparr>cs_resourceApiVersion = ''V3'', cs_transportApiVersion = ''V3'', cs_apiType = ''GRPC'',
     cs_setNodeOnFirstMessageOnly = True, cs_envoyGrpcCluster = ''easydeploy_xds''\<rparr>"

definition makeHTTPListener :: listener where
  "makeHTTPListener = \<lparr>ls_name = listenerName,
     ls_address = \<lparr>sa_address = ''0.0.0.0'', sa_port = httpListenPort\<rparr>,
     ls_filter = ''envoy.filters.network.http_connection_manager'', ls_codecType = ''AUTO'',
     ls_statPrefix = ''easydeploy_http'', ls_rdsConfig = configSource,
     ls_routeConfigName = routeConfigName, ls_httpFilters = [''envoy.filters.http.router'']\<rparr>"

definition mkSnapshot :: "int \<Rightarrow> upstream list \<Rightarrow> string \<Rightarrow> snapshot" where
  "mkSnapshot version ups base = \<lparr>sn_version = goItoa version, sn_clusters = map makeCluster ups,
     sn_routes = [makeRouteConfig ups base], sn_listeners = [makeHTTPListener]\<rparr>"

text \<open>
  \<^verbatim>\<open>Update\<close>: the version is taken before anything can fail, so a failed update uses one up.
\<close>

definition Update :: "envoy_lib \<Rightarrow> string \<Rightarrow> upstream list \<Rightarrow> (goerr, xds_manager, unit) io" where
  "Update L nodeID ups m =
     (let version = i64 (xm_version m + 1);
          m' = m\<lparr>xm_version := version\<rparr>;
          snap = mkSnapshot version ups (xm_baseDomain m)
      in case el_newSnapshotErr L snap of
           Some e \<Rightarrow> (Inl (Wrap ''build snapshot'' e), m')
         | None \<Rightarrow> (case el_consistentErr L snap of
             Some e \<Rightarrow> (Inl (Wrap ''inconsistent snapshot'' e), m')
           | None \<Rightarrow> (case el_setSnapshot L nodeID snap (xm_cache m') of
               (Some e, c) \<Rightarrow> (Inl e, m'\<lparr>xm_cache := c\<rparr>)
             | (None, c) \<Rightarrow> (Inr (), m'\<lparr>xm_cache := c\<rparr>))))"

section \<open>Bootstrap of an edge proxy\<close>

text \<open>\<^verbatim>\<open>net.SplitHostPort\<close>, with the messages of its errors.\<close>

definition lastIndex :: "string \<Rightarrow> char \<Rightarrow> nat option" where
  "lastIndex s c = map_option (\<lambda>i. length s - Suc i) (indexByte (rev s) c)"

definition splitHostPort :: "string \<Rightarrow> goerr + (string \<times> string)" where
  "splitHostPort hp =
     (case lastIndex hp (CHR '':'') of
        None \<Rightarrow> Inl (Err ''missing port in address'')
      | Some i \<Rightarrow>
          (let port = drop (Suc i) hp in
           if hd hp = CHR ''['' then
             (case indexByte hp (CHR '']'') of
                None \<Rightarrow> Inl (Err ''missing ] in address'')
              | Some e \<Rightarrow>
                  if Suc e = length hp then Inl (Err ''missing port in address'')
                  else if Suc e \<noteq> i then
                    (if hp ! Suc e = CHR '':'' then Inl (Err ''too many colons in address'')
                     else Inl (Err ''missing port in address''))
                  else if CHR ''['' \<in> set (drop 1 hp) then Inl (Err ''unexpected [ in address'')
                  else if CHR '']'' \<in> set (drop (Suc e) hp) then Inl (Err ''unexpected ] in address'')
                  else Inr (drop 1 (take e hp), port))
           else if CHR '':'' \<in> set (take i hp) then Inl (Err ''too many colons in address'')
           else if CHR ''['' \<in> set hp then Inl (Err ''unexpected [ in address'')
           else if CHR '']'' \<in> set hp then Inl (Err ''unexpected ] in address'')
           else Inr (take i hp, port)))"

definition bootstrapLines :: "string \<Rightarrow> string \<Rightarrow> int \<Rightarrow> string list" where
  \<open>bootstrapLines nodeID host port =
    [''node:'',
     ''  id: '' @ nodeID,
     ''  cluster: easydeploy'',
     ''admin:'',
     ''  address:'',
     ''    socket_address: { address: 0.0.0.0, port_value: '' @ goItoa AdminPort @ '' }'',
     ''dynamic_resources:'',
     ''  cds_config:'',
     ''    resource_api_version: V3'',
     ''    api_config_source:'',
     ''      api_type: GRPC'',
     ''      transport_api_version: V3'',
     ''      grpc_services:'',
     ''        - envoy_grpc: { cluster_name: easydeploy_xds }'',
     ''  lds_config:'',
     ''    resource_api_version: V3'',
     ''    api_config_source:'',
     ''      api_type: GRPC'',
     ''      transport_api_version: V3'',
     ''      grpc_services:'',
     ''        - envoy_grpc: { cluster_name: easydeploy_xds }'',
     ''static_resources:'',
     ''  clusters:'',
     ''    - name: easydeploy_xds'',
     ''      type: STRICT_DNS'',
     ''      dns_lookup_family: V4_PREFERRED'',
     ''      connect_timeout: 5s'',
     ''      typed_extension_protocol_options:'',
     ''        envoy.extensions.upstreams.http.v3.HttpProtocolOptions:'',
     ''          "@type": type.googleapis.com/envoy.extensions.upstreams.http.v3.HttpProtocolOptions'',
     ''          explicit_http_config:'',
     ''            http2_protocol_options: {}'',
     ''      load_assignment:'',
     ''        cluster_name: easydeploy_xds'',
     ''        endpoints:'',
     ''          - lb_endpoints:'',
     ''              - endpoint:'',
     ''                  address:'',
     ''                    socket_address:'',
     ''                      address: '' @ host,
     ''                      port_value: '' @ goItoa port]\<close>

definition EdgeBootstrapYAML :: "string \<Rightarrow> string \<Rightarrow> goerr + string" where
  "EdgeBootstrapYAML nodeID xdsAddr =
     (case splitHostPort (trimSpace xdsAddr) of
        Inl e \<Rightarrow> Inl (Wrap ''xds advertise address must be host:port'' e)
      | Inr (host, portStr) \<Rightarrow>
          (case goAtoi portStr of
             None \<Rightarrow> Inl (Err (''invalid xds advertise port '' @ go_quote portStr))
           | Some port \<Rightarrow>
               if port \<le> 0 then Inl (Err (''invalid xds advertise port '' @ go_quote portStr))
               else if host = '''' then Inl (Err ''xds advertise address must include a host'')
               else Inr (concat (map (\<lambda>l. l @ [CHR 0x0A]) (bootstrapLines nodeID host port)))))"

section \<open>The virtual hosts\<close>

lemma claim_domains_spec:
  "claim_domains ds C = (r, C') \<Longrightarrow>
   distinct r \<and> set r = set ds - C \<and> C' = C \<union> set ds"
proof (induction ds arbitrary: C r C')
  case Nil
  then show ?case by simp
next
  case (Cons d ds)
  show ?case
  proof (cases "d \<in> C")
    case True
    with Cons show ?thesis by auto
  next
    case False
    with Cons.prems obtain r' where r: "r = d # r'" and
      rec: "claim_domains ds (insert d C) = (r', C')"
      by (auto split: prod.splits)
    from Cons.IH [OF rec] r False show ?thesis by auto
  qed
qed

lemma claim_domains_fst: "set (fst (claim_domains ds C)) = set ds - C"
  using claim_domains_spec [of ds C "fst (claim_domains ds C)" "snd (claim_domains ds C)"] by simp

lemma claim_domains_snd: "snd (claim_domains ds C) = C \<union> set ds"
  using claim_domains_spec [of ds C "fst (claim_domains ds C)" "snd (claim_domains ds C)"] by simp

lemma claim_domains_distinct: "distinct (fst (claim_domains ds C))"
  using claim_domains_spec [of ds C "fst (claim_domains ds C)" "snd (claim_domains ds C)"] by simp

lemma vh_domains_makeVirtualHost [simp]: "vh_domains (makeVirtualHost u ds) = ds"
  by (simp add: makeVirtualHost_def)

lemma vh_action_makeVirtualHost [simp]: "vh_action (makeVirtualHost u ds) = ToCluster (clusterName u)"
  by (simp add: makeVirtualHost_def)

lemma vh_name_makeVirtualHost [simp]: "vh_name (makeVirtualHost u ds) = ''vh_'' @ upstreamKey u"
  by (simp add: makeVirtualHost_def)

definition all_domains :: "string \<Rightarrow> upstream list \<Rightarrow> string set" where
  "all_domains base us = (\<Union>u \<in> set us. set (matchDomains u base))"

lemma build_vhosts_domains:
  "(\<exists>v \<in> set (build_vhosts base us C). h \<in> set (vh_domains v)) \<longleftrightarrow> h \<in> all_domains base us \<and> h \<notin> C"
proof (induction us arbitrary: C)
  case Nil
  then show ?case by (simp add: all_domains_def)
next
  case (Cons u us)
  obtain ds C' where p: "claim_domains (matchDomains u base) C = (ds, C')"
    by (cases "claim_domains (matchDomains u base) C")
  from claim_domains_spec [OF p] have "set ds = set (matchDomains u base) - C"
    and "C' = C \<union> set (matchDomains u base)" by auto
  with p Cons.IH [of C'] show ?case
    by (cases "ds = []") (auto simp: all_domains_def)
qed

lemma build_vhosts_distinct: "distinct (concat (map vh_domains (build_vhosts base us C)))"
proof (induction us arbitrary: C)
  case Nil
  then show ?case by simp
next
  case (Cons u us)
  obtain ds C' where p: "claim_domains (matchDomains u base) C = (ds, C')"
    by (cases "claim_domains (matchDomains u base) C")
  from claim_domains_spec [OF p] have ds: "distinct ds" "set ds \<subseteq> C'" by auto
  have "h \<notin> set (vh_domains v)" if "v \<in> set (build_vhosts base us C')" "h \<in> C'" for h v
    using that build_vhosts_domains [of base us C' h] by blast
  with ds have "set ds \<inter> \<Union> (set ` vh_domains ` set (build_vhosts base us C')) = {}"
    by auto
  with ds(1) Cons.IH [of C'] p show ?case by (simp add: image_image)
qed

text \<open>The first upstream of the list that matches a host.\<close>

definition claimant :: "string \<Rightarrow> upstream list \<Rightarrow> string \<Rightarrow> upstream option" where
  "claimant base us h = find (\<lambda>u. h \<in> set (matchDomains u base)) us"

lemma build_vhosts_claimant:
  assumes "h \<notin> C" and "claimant base us h = Some u"
  shows "\<exists>v \<in> set (build_vhosts base us C). h \<in> set (vh_domains v) \<and>
    vh_action v = ToCluster (clusterName u)"
  using assms
proof (induction us arbitrary: C)
  case Nil
  then show ?case by (simp add: claimant_def)
next
  case (Cons w us)
  obtain ds C' where p: "claim_domains (matchDomains w base) C = (ds, C')"
    by (cases "claim_domains (matchDomains w base) C")
  from claim_domains_spec [OF p] have ds: "set ds = set (matchDomains w base) - C"
    and C': "C' = C \<union> set (matchDomains w base)" by auto
  show ?case
  proof (cases "h \<in> set (matchDomains w base)")
    case True
    with Cons.prems have "u = w" by (simp add: claimant_def)
    moreover from True ds Cons.prems(1) have "h \<in> set ds" by simp
    ultimately show ?thesis using p by (cases "ds = []") auto
  next
    case False
    with Cons.prems C' have "h \<notin> C'" and "claimant base us h = Some u"
      by (auto simp: claimant_def)
    from Cons.IH [OF this] p show ?thesis by (cases "ds = []") auto
  qed
qed

lemma build_vhosts_unclaimed:
  assumes "claimant base us h = None" and "v \<in> set (build_vhosts base us C)"
  shows "h \<notin> set (vh_domains v)"
proof
  assume "h \<in> set (vh_domains v)"
  with assms(2) have "h \<in> all_domains base us"
    using build_vhosts_domains [of base us C] by auto
  with assms(1) show False by (auto simp: all_domains_def claimant_def find_None_iff_all)
qed

section \<open>Which virtual host answers\<close>

text \<open>
  How well a domain of a virtual host matches a host name, by the order in which Envoy documents
  that it searches: an exact name, then a leading star, then a trailing star, then the bare star,
  and of two wildcards of a kind the longer one.  A wildcard does not stand for the empty string.
\<close>

definition domain_rank :: "string \<Rightarrow> string \<Rightarrow> (nat \<times> nat) option" where
  "domain_rank d h =
     (if d = ''*'' then Some (0, 0)
      else if d \<noteq> [] \<and> hd d = CHR ''*'' then
        (if length d \<le> length h \<and> drop (length h + 1 - length d) h = tl d then Some (2, length d) else None)
      else if d \<noteq> [] \<and> last d = CHR ''*'' then
        (if length d \<le> length h \<and> hasPrefix h (butlast d) then Some (1, length d) else None)
      else if d = h then Some (3, 0) else None)"

definition rank_le :: "nat \<times> nat \<Rightarrow> nat \<times> nat \<Rightarrow> bool" where
  "rank_le r q \<longleftrightarrow> fst r < fst q \<or> fst r = fst q \<and> snd r \<le> snd q"

text \<open>
  Envoy itself is outside the repository.  What the code relies on: of a configuration whose domains
  are all different and in lower case, it picks the virtual host of the best match, whatever the case
  of the host, and none when no domain matches.
\<close>

definition best_match :: "virtual_host list \<Rightarrow> string \<Rightarrow> virtual_host option \<Rightarrow> bool" where
  "best_match vs h p \<longleftrightarrow> (case p of
     None \<Rightarrow> \<forall>v \<in> set vs. \<forall>d \<in> set (vh_domains v). domain_rank d h = None
   | Some v \<Rightarrow> v \<in> set vs \<and> (\<exists>d \<in> set (vh_domains v). \<exists>r. domain_rank d h = Some r \<and>
       (\<forall>v' \<in> set vs. \<forall>d' \<in> set (vh_domains v'). \<forall>q. domain_rank d' h = Some q \<longrightarrow> rank_le q r)))"

definition envoy_search :: "(virtual_host list \<Rightarrow> string \<Rightarrow> virtual_host option) \<Rightarrow> bool" where
  "envoy_search pick \<longleftrightarrow> (\<forall>vs h. distinct (concat (map vh_domains vs)) \<and>
     (\<forall>v \<in> set vs. \<forall>d \<in> set (vh_domains v). toLower d = d) \<longrightarrow> best_match vs (toLower h) (pick vs h))"

text \<open>A search of that kind, for names in one case.\<close>

fun best_of :: "((nat \<times> nat) \<times> 'a) list \<Rightarrow> ((nat \<times> nat) \<times> 'a) option" where
  "best_of [] = None"
| "best_of (x # xs) = (case best_of xs of
     None \<Rightarrow> Some x | Some y \<Rightarrow> if rank_le (fst y) (fst x) then Some x else Some y)"

definition ranked :: "virtual_host list \<Rightarrow> string \<Rightarrow> ((nat \<times> nat) \<times> virtual_host) list" where
  "ranked vs h = concat (map (\<lambda>v. concat (map (\<lambda>d. case domain_rank d h of
     None \<Rightarrow> [] | Some r \<Rightarrow> [(r, v)]) (vh_domains v))) vs)"

definition search_host :: "virtual_host list \<Rightarrow> string \<Rightarrow> virtual_host option" where
  "search_host vs h = map_option snd (best_of (ranked vs h))"

definition route_host :: "route_config \<Rightarrow> string \<Rightarrow> route_action option" where
  "route_host rc h = map_option vh_action (search_host (rc_virtualHosts rc) h)"

lemma rank_le_trans: "rank_le a b \<Longrightarrow> rank_le b c \<Longrightarrow> rank_le a c"
  by (auto simp: rank_le_def)

lemma rank_le_refl [simp]: "rank_le a a"
  by (simp add: rank_le_def)

lemma rank_le_linear: "\<not> rank_le a b \<Longrightarrow> rank_le b a"
  by (auto simp: rank_le_def)

lemma best_of_None [simp]: "best_of xs = None \<longleftrightarrow> xs = []"
  by (cases xs) (auto split: option.splits)

lemma best_of_Some: "best_of xs = Some x \<Longrightarrow> x \<in> set xs \<and> (\<forall>y \<in> set xs. rank_le (fst y) (fst x))"
proof (induction xs arbitrary: x)
  case (Cons y ys)
  show ?case
  proof (cases "best_of ys")
    case (Some z)
    with Cons.IH [OF this] Cons.prems show ?thesis
      by (auto split: if_splits dest: rank_le_linear intro: rank_le_trans)
  qed (use Cons.prems in auto)
qed simp

lemma set_ranked: "(r, v) \<in> set (ranked vs h) \<longleftrightarrow> v \<in> set vs \<and> (\<exists>d \<in> set (vh_domains v). domain_rank d h = Some r)"
  by (auto simp del: split_paired_All split_paired_Ex simp: ranked_def split: option.splits) (metis option.exhaust)

lemma search_host_best: "best_match vs h (search_host vs h)"
proof (cases "best_of (ranked vs h)")
  case None
  then have "ranked vs h = []" by simp
  then have "domain_rank d h = None" if "v \<in> set vs" "d \<in> set (vh_domains v)" for v d
    using that set_ranked [of _ v vs h] by (cases "domain_rank d h") auto
  with None show ?thesis by (simp add: best_match_def search_host_def)
next
  case (Some x)
  obtain r v where x: "x = (r, v)" by fastforce
  from best_of_Some [OF Some] x obtain d where d: "v \<in> set vs" "d \<in> set (vh_domains v)" "domain_rank d h = Some r"
    and top: "\<forall>y \<in> set (ranked vs h). rank_le (fst y) r" by (auto simp: set_ranked)
  have "rank_le q r" if "v' \<in> set vs" "d' \<in> set (vh_domains v')" "domain_rank d' h = Some q" for v' d' q
    using top that set_ranked [of q v' vs h] by force
  with d have "best_match vs h (Some v)" unfolding best_match_def option.case by blast
  with Some x show ?thesis by (simp add: search_host_def)
qed

lemma envoy_search_plain: "envoy_search (\<lambda>vs h. search_host vs (toLower h))"
  by (simp add: envoy_search_def search_host_best)

lemma best_match_exact:
  assumes "best_match vs h p" "v \<in> set vs" "k \<in> set (vh_domains v)" "domain_rank k h = Some r"
    and "\<And>u. u \<in> set vs \<Longrightarrow> k \<in> set (vh_domains u) \<Longrightarrow> u = v"
    and "\<And>v' d q. v' \<in> set vs \<Longrightarrow> d \<in> set (vh_domains v') \<Longrightarrow> domain_rank d h = Some q \<Longrightarrow> rank_le r q \<Longrightarrow> d = k"
  shows "p = Some v"
proof (cases p)
  case None
  with assms(1-4) show ?thesis by (auto simp: best_match_def)
next
  case (Some u)
  with assms(1) obtain d q where d: "u \<in> set vs" "d \<in> set (vh_domains u)" "domain_rank d h = Some q"
    and top: "\<forall>v' \<in> set vs. \<forall>d' \<in> set (vh_domains v'). \<forall>q'. domain_rank d' h = Some q' \<longrightarrow> rank_le q' q"
    by (auto simp only: best_match_def option.case)
  from top assms(2-4) have "rank_le r q" by blast
  with assms(6) [OF d] d(2) have "k \<in> set (vh_domains u)" by simp
  with Some assms(5) d(1) show ?thesis by blast
qed

lemma domain_rank_self:
  assumes "h \<noteq> []" "last h \<noteq> CHR ''*''"
  shows "\<exists>r. domain_rank h h = Some r \<and> (\<forall>d q. domain_rank d h = Some q \<longrightarrow> rank_le r q \<longrightarrow> d = h)"
proof (cases "hd h = CHR ''*''")
  case True
  have "d = h" if "domain_rank d h = Some q" "rank_le (2, length h) q" for d q
    using that True assms(1)
    by (cases d; cases h) (auto simp: domain_rank_def rank_le_def split: if_splits)
  moreover have "domain_rank h h = Some (2, length h)"
    using True assms by (cases h) (auto simp: domain_rank_def)
  ultimately show ?thesis by blast
next
  case False
  then have "domain_rank h h = Some (3, 0)" using assms by (auto simp: domain_rank_def)
  moreover have "d = h" if "domain_rank d h = Some q" "rank_le (3, 0) q" for d q
    using that by (auto simp: domain_rank_def rank_le_def split: if_splits)
  ultimately show ?thesis by blast
qed

lemma listed_once:
  "distinct (concat (map f xs)) \<Longrightarrow> x \<in> set xs \<Longrightarrow> y \<in> set xs \<Longrightarrow> h \<in> set (f x) \<Longrightarrow> h \<in> set (f y) \<Longrightarrow> x = y"
  by (induction xs) auto

lemma route_config_vhosts:
  "set (rc_virtualHosts (makeRouteConfig us base)) = insert defaultVirtualHost (set (build_vhosts base us {}))"
  by (simp add: makeRouteConfig_def)

text \<open>The virtual host of a domain other than the bare star, by its first claimant.\<close>

lemma listed_by_claimant:
  assumes "claimant base us k = Some u" "k \<noteq> ''*''"
  shows "\<exists>v \<in> set (rc_virtualHosts (makeRouteConfig us base)). k \<in> set (vh_domains v) \<and>
    vh_action v = ToCluster (clusterName u) \<and>
    (\<forall>v' \<in> set (rc_virtualHosts (makeRouteConfig us base)). k \<in> set (vh_domains v') \<longrightarrow> v' = v)"
proof -
  from build_vhosts_claimant [of k "{}", OF _ assms(1)] obtain v
    where v: "v \<in> set (build_vhosts base us {})" "k \<in> set (vh_domains v)" "vh_action v = ToCluster (clusterName u)"
    by auto
  have "v' = v" if "v' \<in> set (build_vhosts base us {})" "k \<in> set (vh_domains v')" for v'
    using listed_once [OF build_vhosts_distinct that(1) v(1) that(2) v(2)] .
  moreover have "k \<notin> set (vh_domains defaultVirtualHost)" using assms(2) by (simp add: defaultVirtualHost_def)
  ultimately show ?thesis using v unfolding route_config_vhosts by blast
qed

lemma route_host_claimed:
  assumes "claimant base us h = Some u" "h \<noteq> []" "last h \<noteq> CHR ''*''"
  shows "route_host (makeRouteConfig us base) h = Some (ToCluster (clusterName u))"
proof -
  from assms have "h \<noteq> ''*''" by auto
  from listed_by_claimant [OF assms(1) this] obtain v where v: "v \<in> set (rc_virtualHosts (makeRouteConfig us base))"
    "h \<in> set (vh_domains v)" "vh_action v = ToCluster (clusterName u)"
    and once: "\<And>v'. v' \<in> set (rc_virtualHosts (makeRouteConfig us base)) \<Longrightarrow> h \<in> set (vh_domains v') \<Longrightarrow> v' = v" by blast
  from domain_rank_self [OF assms(2,3)] obtain r where r: "domain_rank h h = Some r"
    "\<And>d q. domain_rank d h = Some q \<Longrightarrow> rank_le r q \<Longrightarrow> d = h" by blast
  from best_match_exact [OF search_host_best v(1,2) r(1) once r(2)] v(3) show ?thesis by (simp add: route_host_def)
qed

lemma build_vhosts_names_subset:
  "subseq (map vh_name (build_vhosts base us C)) (map (\<lambda>u. ''vh_'' @ upstreamKey u) us)"
proof (induction us arbitrary: C)
  case Nil
  then show ?case by simp
next
  case (Cons u us)
  obtain ds C' where p: "claim_domains (matchDomains u base) C = (ds, C')"
    by (cases "claim_domains (matchDomains u base) C")
  with Cons.IH [of C'] show ?case by (cases "ds = []") auto
qed

lemma subseq_set: "subseq xs ys \<Longrightarrow> set xs \<subseteq> set ys"
  by (induction rule: list_emb.induct) auto

lemma subseq_distinct: "subseq xs ys \<Longrightarrow> distinct ys \<Longrightarrow> distinct xs"
  by (induction rule: list_emb.induct) (auto dest: list_emb_set)

section \<open>Versions\<close>

lemma Update_version: "xm_version (snd (Update L n us m)) = i64 (xm_version m + 1)"
  by (simp add: Update_def Let_def split: option.splits prod.splits)

lemma Update_static [simp]:
  "xm_nodeID (snd (Update L n us m)) = xm_nodeID m"
  "xm_baseDomain (snd (Update L n us m)) = xm_baseDomain m"
  by (simp_all add: Update_def Let_def split: option.splits prod.splits)

lemma Update_Inr:
  assumes "Update L n us m = (Inr x, m')" and "envoy_lib_ok L"
  shows "xm_cache m' = (xm_cache m)(n \<mapsto> mkSnapshot (xm_version m') us (xm_baseDomain m))"
    and "xm_version m' = i64 (xm_version m + 1)"
    and "xm_nodeID m' = xm_nodeID m" and "xm_baseDomain m' = xm_baseDomain m"
  using assms by (auto simp: Update_def Let_def envoy_lib_ok_def split: option.splits prod.splits)

section \<open>Node names\<close>

lemma edgeNode_inj: "edgeNode i = edgeNode j \<longleftrightarrow> i = j"
  by (simp add: edgeNode_def goItoa_inj)

text \<open>The configured node id is not one of the generated names.\<close>

definition node_id_ok :: "xds_manager \<Rightarrow> bool" where
  "node_id_ok m \<longleftrightarrow> \<not> hasPrefix (xm_nodeID m) ''easydeploy-edge-''"

lemma NodeForEndpoint_inj:
  assumes "node_id_ok m"
  shows "NodeForEndpoint m i = NodeForEndpoint m j \<longleftrightarrow> i = j"
proof -
  have "xm_nodeID m \<noteq> edgeNode k" for k
    using assms hasPrefix_append [of "''easydeploy-edge-''" "goItoa k"]
    by (metis edgeNode_def node_id_ok_def)
  then have "edgeNode k \<noteq> xm_nodeID m" for k by metis
  then show ?thesis by (auto simp: NodeForEndpoint_def edgeNode_inj) metis+
qed

section \<open>Addresses\<close>

lemma goItoa_neq_Nil [simp]: "goItoa n \<noteq> []"
  by (simp add: goItoa_def)

lemma goItoa_no:
  assumes "c \<in> set (goItoa n)"
  shows "c \<noteq> CHR '':''" "c \<noteq> CHR ''[''" "c \<noteq> CHR '']''" "\<not> is_space c"
  using goItoa_chars [OF assms] by (auto simp: is_digit_def is_space_def code_of_def)

lemma lastIndex_sep: "c \<notin> set q \<Longrightarrow> lastIndex (p @ c # q) c = Some (length p)"
  by (simp add: lastIndex_def indexByte_append)

lemma splitHostPort_plain:
  assumes "host \<noteq> []" "set host \<inter> {CHR '':'', CHR ''['', CHR '']''} = {}"
  shows "splitHostPort (host @ '':'' @ goItoa n) = Inr (host, goItoa n)"
proof -
  let ?hp = "host @ CHR '':'' # goItoa n"
  have "lastIndex ?hp (CHR '':'') = Some (length host)"
    by (rule lastIndex_sep) (auto dest: goItoa_no)
  moreover have "hd ?hp \<noteq> CHR ''[''" using assms by (cases host) auto
  moreover have "CHR ''['' \<notin> set ?hp" "CHR '']'' \<notin> set ?hp" using assms goItoa_no(2,3) by fastforce+
  moreover have "CHR '':'' \<notin> set host" using assms by auto
  ultimately show ?thesis by (simp add: splitHostPort_def)
qed

section \<open>Plain domains\<close>

definition plain_domain :: "string \<Rightarrow> bool" where
  "plain_domain d \<longleftrightarrow> toLower d = d \<and> CHR '':'' \<notin> set d \<and> CHR ''*'' \<notin> set d"

lemma matchDomains_iff: "d \<in> set (matchDomains u base) \<longleftrightarrow> (\<exists>e \<in> set (matchSource u base). d = e \<or> d = e @ '':*'')"
  by (auto simp: matchDomains_def)

lemma vhost_domain:
  assumes "v \<in> set (rc_virtualHosts (makeRouteConfig us base))" "d \<in> set (vh_domains v)"
  shows "v = defaultVirtualHost \<or> (\<exists>u \<in> set us. \<exists>e \<in> set (matchSource u base). d = e \<or> d = e @ '':*'')"
  using assms build_vhosts_domains [of base us "{}" d] by (auto simp: makeRouteConfig_def all_domains_def matchDomains_iff)

lemma route_config_distinct:
  assumes "''*'' \<notin> all_domains base us"
  shows "distinct (concat (map vh_domains (rc_virtualHosts (makeRouteConfig us base))))"
proof -
  have "''*'' \<notin> set (vh_domains v)" if "v \<in> set (build_vhosts base us {})" for v
    using that assms build_vhosts_domains [of base us "{}" "''*''"] by blast
  with build_vhosts_distinct [of base us "{}"] show ?thesis
    by (auto simp: makeRouteConfig_def defaultVirtualHost_def)
qed

lemma plain_config:
  assumes "\<forall>u \<in> set us. \<forall>d \<in> set (matchSource u base). plain_domain d"
  shows "distinct (concat (map vh_domains (rc_virtualHosts (makeRouteConfig us base)))) \<and>
    (\<forall>v \<in> set (rc_virtualHosts (makeRouteConfig us base)). \<forall>d \<in> set (vh_domains v). toLower d = d)"
proof
  have "''*'' \<notin> all_domains base us" using assms by (fastforce simp: all_domains_def matchDomains_iff plain_domain_def)
  then show "distinct (concat (map vh_domains (rc_virtualHosts (makeRouteConfig us base))))" by (rule route_config_distinct)
  have "toLower '':*'' = '':*''" "toLower ''*'' = ''*''" by code_simp+
  then show "\<forall>v \<in> set (rc_virtualHosts (makeRouteConfig us base)). \<forall>d \<in> set (vh_domains v). toLower d = d"
    using assms by (auto simp: plain_domain_def defaultVirtualHost_def dest!: vhost_domain)
qed

lemma claimant_port:
  assumes "\<forall>u \<in> set us. \<forall>d \<in> set (matchSource u base). plain_domain d" "CHR '':'' \<notin> set n"
  shows "claimant base us (n @ '':*'') = claimant base us n"
proof -
  have "n @ '':*'' \<in> set (matchDomains u base) \<longleftrightarrow> n \<in> set (matchDomains u base)" if "u \<in> set us" for u
  proof -
    have "n @ '':*'' \<notin> set (matchSource u base)" "\<forall>e. n \<noteq> e @ '':*''"
      using assms that by (fastforce simp: plain_domain_def)+
    then show ?thesis by (auto simp: matchDomains_iff)
  qed
  then show ?thesis unfolding claimant_def by (intro find_cong) auto
qed

lemma lower_char_special:
  "lower_char c = CHR '':'' \<longleftrightarrow> c = CHR '':''" "lower_char c = CHR ''*'' \<longleftrightarrow> c = CHR ''*''"
proof -
  have "65 \<le> code_of c \<and> code_of (lower_char c) = code_of c + 32 \<or> lower_char c = c"
    by (auto simp: lower_char_def is_upper_def)
  moreover have "code_of (CHR '':'') = 58" "code_of (CHR ''*'') = 42" by code_simp+
  ultimately show "lower_char c = CHR '':'' \<longleftrightarrow> c = CHR '':''" "lower_char c = CHR ''*'' \<longleftrightarrow> c = CHR ''*''" by auto
qed

lemma toLower_special:
  "CHR '':'' \<in> set (toLower s) \<longleftrightarrow> CHR '':'' \<in> set s" "CHR ''*'' \<in> set (toLower s) \<longleftrightarrow> CHR ''*'' \<in> set s"
  by (auto simp: toLower_def image_iff eq_commute [of _ "lower_char _"] lower_char_special)

lemma split_list_first_unique:
  "x \<notin> set a \<Longrightarrow> x \<notin> set b \<Longrightarrow> a @ x # s = b @ x # t \<Longrightarrow> a = b"
  by (induction a arbitrary: b) (auto simp: Cons_eq_append_conv append_eq_Cons_conv)

text \<open>Which domains a host name with or without a port matches, but for the bare star.\<close>

lemma rank_of_host:
  assumes "name \<noteq> []" "CHR '':'' \<notin> set name" "CHR ''*'' \<notin> set name"
    and "h = name \<or> (\<exists>port. port \<noteq> [] \<and> h = name @ '':'' @ port)"
  defines "k \<equiv> if h = name then toLower name else toLower name @ '':*''"
  shows "plain_domain e \<Longrightarrow> d = e \<or> d = e @ '':*'' \<Longrightarrow> domain_rank d (toLower h) = Some q \<Longrightarrow> d = k"
    and "\<exists>r. domain_rank k (toLower h) = Some r \<and> 0 < fst r"
proof -
  have no: "CHR '':'' \<notin> set (toLower name)" "CHR ''*'' \<notin> set (toLower name)" "toLower name \<noteq> []"
    using assms(1-3) by (simp_all add: toLower_special)
  have col: "toLower (name @ '':'' @ port) = toLower name @ CHR '':'' # toLower port" for port
    by (simp add: toLower_def lower_char_special)
  have hd1: "hd (toLower name) \<noteq> CHR ''*''" "last (toLower name) \<noteq> CHR ''*''"
    using no(2) hd_in_set [OF no(3)] last_in_set [OF no(3)] by metis+
  have hd: "hd (toLower name @ x) \<noteq> CHR ''*''" "hd (toLower name) \<noteq> CHR ''*''" "last (toLower name) \<noteq> CHR ''*''" for x
    using hd1 no(3) by simp_all
  show "\<exists>r. domain_rank k (toLower h) = Some r \<and> 0 < fst r"
  proof (cases "h = name")
    case True
    with no hd show ?thesis by (auto simp: k_def domain_rank_def)
  next
    case False
    with assms(4) obtain port where p: "port \<noteq> []" "h = name @ '':'' @ port" by blast
    have h: "toLower h = (toLower name @ '':'') @ toLower port" using p(2) col by simp
    have "k \<noteq> ''*''" "k \<noteq> []" "hd k \<noteq> CHR ''*''" "last k = CHR ''*''" "butlast k = toLower name @ '':''"
      using False no(3) hd(1) by (simp_all add: k_def butlast_append)
    moreover have "length k \<le> length (toLower h)"
      using p(1) False unfolding h k_def by (cases port) (simp_all add: toLower_def)
    moreover have "hasPrefix (toLower h) (toLower name @ '':'')" unfolding h by (rule hasPrefix_append)
    ultimately have "domain_rank k (toLower h) = Some (1, length k)" by (simp add: domain_rank_def)
    then show ?thesis by simp
  qed
  assume e: "plain_domain e" and d: "d = e \<or> d = e @ '':*''" and q: "domain_rank d (toLower h) = Some q"
  have star: "CHR ''*'' \<notin> set e" "CHR '':'' \<notin> set e" using e by (simp_all add: plain_domain_def)
  from d show "d = k"
  proof
    assume "d = e"
    then have "toLower h = e" using q star(1) by (cases "e = []") (auto simp: domain_rank_def eq_commute [of "[]"] split: if_splits dest: hd_in_set last_in_set)
    with star have "CHR '':'' \<notin> set (toLower h)" by simp
    with assms(4) have "h = name" by (auto simp: toLower_special)
    with \<open>d = e\<close> \<open>toLower h = e\<close> show ?thesis by (simp add: k_def)
  next
    assume de: "d = e @ '':*''"
    with q star have p: "hasPrefix (toLower h) (e @ '':'')"
      by (cases e) (auto simp: domain_rank_def butlast_append split: if_splits)
    then obtain t where t: "toLower h = e @ CHR '':'' # t" by (auto simp: hasPrefix_iff)
    then have "CHR '':'' \<in> set (toLower h)" by simp
    with no(1) have "h \<noteq> name" by auto
    with assms(4) obtain port where "h = name @ '':'' @ port" by blast
    with t have "toLower name @ CHR '':'' # toLower port = e @ CHR '':'' # t" by (simp only: col)
    with no(1) star(2) have "toLower name = e" by (metis split_list_first_unique)
    with de \<open>h \<noteq> name\<close> show ?thesis by (simp add: k_def)
  qed
qed

section \<open>Properties\<close>

text \<open>
  C9: no host name is listed twice in a route configuration, in the same virtual host or in two
  different ones: Envoy rejects a configuration with a duplicate domain.  (No upstream may claim
  the bare star, which is the domain of the catch-all.)
\<close>

theorem route_config_domains_distinct:
  assumes "''*'' \<notin> all_domains base us"
  shows "distinct (concat (map vh_domains (rc_virtualHosts (makeRouteConfig us base))))"
  using assms by (rule route_config_distinct)

theorem route_config_domains_distinct_witness:
  "distinct (concat (map vh_domains (rc_virtualHosts (makeRouteConfig
     [\<lparr>up_key = ''a'', up_subdomain = ''x'', up_domains = [], up_hosts = [''h''], up_port = 80, up_endpointID = 0\<rparr>,
      \<lparr>up_key = ''b'', up_subdomain = ''x'', up_domains = [''x.t''], up_hosts = [''g''], up_port = 80, up_endpointID = 0\<rparr>]
     ''t''))))"
  by (rule route_config_domains_distinct) (simp add: all_domains_def matchDomains_def matchSource_def)

text \<open>
  C15: a request is routed to the first upstream that claims its host, whatever the port and the case.
  For every search of virtual hosts that picks the best match in Envoy's documented order, when the
  match domains of the upstreams are names in lower case without a star or a colon: a request whose
  \<^verbatim>\<open>Host\<close> is a name, alone or with an explicit port, goes to the cluster of the first
  upstream of the list one of whose domains is that name in lower case, and gets a 404 when there is none.
\<close>

theorem host_routed_to_first_claimant:
  assumes "envoy_search pick" and "\<forall>u \<in> set us. \<forall>d \<in> set (matchSource u base). plain_domain d"
    and "name \<noteq> []" "CHR '':'' \<notin> set name" "CHR ''*'' \<notin> set name"
    and "h = name \<or> (\<exists>port. port \<noteq> [] \<and> h = name @ '':'' @ port)"
  shows "map_option vh_action (pick (rc_virtualHosts (makeRouteConfig us base)) h) =
    Some (case claimant base us (toLower name) of Some u \<Rightarrow> ToCluster (clusterName u) | None \<Rightarrow> DirectResponse 404)"
proof -
  define vs where "vs = rc_virtualHosts (makeRouteConfig us base)"
  define k where "k = (if h = name then toLower name else toLower name @ '':*'')"
  note rank = rank_of_host [OF assms(3-6), folded k_def]
  have best: "best_match vs (toLower h) (pick vs h)"
    using assms(1) plain_config [OF assms(2)] unfolding envoy_search_def vs_def by blast
  have only: "d = k" if "v \<in> set vs" "d \<in> set (vh_domains v)" "domain_rank d (toLower h) = Some q" "d \<noteq> ''*''" for v d q
  proof -
    from vhost_domain [OF that(1) [unfolded vs_def] that(2)] that(2,4)
    obtain u e where "u \<in> set us" "e \<in> set (matchSource u base)" "d = e \<or> d = e @ '':*''"
      by (auto simp: defaultVirtualHost_def)
    with assms(2) rank(1) [of e d q] that(3) show ?thesis by blast
  qed
  have star: "domain_rank ''*'' (toLower h) = Some (0, 0)" by (simp add: domain_rank_def)
  from rank(2) obtain r where r: "domain_rank k (toLower h) = Some r" "0 < fst r" by blast
  with star have k: "k \<noteq> ''*''" by auto
  have kn: "claimant base us k = claimant base us (toLower name)"
    using claimant_port [OF assms(2)] assms(4) by (simp add: k_def toLower_special)
  have "map_option vh_action (pick vs h) =
    Some (case claimant base us k of Some u \<Rightarrow> ToCluster (clusterName u) | None \<Rightarrow> DirectResponse 404)"
  proof (cases "claimant base us k")
    case (Some u)
    from listed_by_claimant [OF this k] obtain v where v: "v \<in> set vs" "k \<in> set (vh_domains v)"
      "vh_action v = ToCluster (clusterName u)" and once: "\<And>v'. v' \<in> set vs \<Longrightarrow> k \<in> set (vh_domains v') \<Longrightarrow> v' = v"
      unfolding vs_def by blast
    have "\<not> rank_le r (0, 0)" using r(2) by (simp add: rank_le_def)
    with star have "d = k" if "v' \<in> set vs" "d \<in> set (vh_domains v')" "domain_rank d (toLower h) = Some q" "rank_le r q" for v' d q
      using only [OF that(1-3)] that(3,4) by (metis option.inject)
    from best_match_exact [OF best v(1,2) r(1) once this] Some v(3) show ?thesis by simp
  next
    case None
    have "k \<notin> set (vh_domains v)" if "v \<in> set vs" for v
      using that build_vhosts_unclaimed [OF None] k
      unfolding vs_def route_config_vhosts by (auto simp: defaultVirtualHost_def)
    with only have no: "d = ''*''" if "v \<in> set vs" "d \<in> set (vh_domains v)" "domain_rank d (toLower h) = Some q" for v d q
      using that by metis
    have def: "defaultVirtualHost \<in> set vs" "''*'' \<in> set (vh_domains defaultVirtualHost)"
      by (simp_all add: vs_def makeRouteConfig_def defaultVirtualHost_def)
    have "v = defaultVirtualHost" if "v \<in> set vs" "''*'' \<in> set (vh_domains v)" for v
      using listed_once [OF conjunct1 [OF plain_config [OF assms(2)]] that(1) [unfolded vs_def] def(1) [unfolded vs_def] that(2) def(2)] .
    from best_match_exact [OF best def star this no] None show ?thesis by (simp add: defaultVirtualHost_def)
  qed
  then show ?thesis by (simp add: vs_def kn)
qed

theorem host_routed_to_first_claimant_witness:
  "map_option vh_action (search_host (rc_virtualHosts (makeRouteConfig
     [\<lparr>up_key = ''a'', up_subdomain = ''x'', up_domains = [], up_hosts = [''h''], up_port = 80, up_endpointID = 0\<rparr>,
      \<lparr>up_key = ''b'', up_subdomain = ''x'', up_domains = [''x.t''], up_hosts = [''g''], up_port = 80, up_endpointID = 0\<rparr>]
     ''t'')) (toLower ''X.t:8080'')) = Some (ToCluster ''cl_a'')"
proof -
  let ?us = "[\<lparr>up_key = ''a'', up_subdomain = ''x'', up_domains = [], up_hosts = [''h''], up_port = 80, up_endpointID = 0\<rparr>,
      \<lparr>up_key = ''b'', up_subdomain = ''x'', up_domains = [''x.t''], up_hosts = [''g''], up_port = 80, up_endpointID = 0\<rparr>]"
  have "toLower ''x.t'' = ''x.t''" "toLower ''X.t'' = ''x.t''" by code_simp+
  moreover have "\<forall>u \<in> set ?us. \<forall>d \<in> set (matchSource u ''t''). plain_domain d"
    using calculation by (simp add: matchSource_def plain_domain_def)
  moreover have "claimant ''t'' ?us ''x.t'' = Some (hd ?us)" by (simp add: claimant_def matchDomains_def matchSource_def)
  ultimately show ?thesis
    using host_routed_to_first_claimant [OF envoy_search_plain, of ?us "''t''" "''X.t''" "''X.t:8080''"]
    by (simp add: clusterName_def upstreamKey_def)
qed

text \<open>
  Versions only grow.  Every update, failed ones included, takes the next version number; a
  successful one stores, for its node only, the snapshot with that version and its upstreams.
\<close>

lemma update_takes_next_version:
  assumes "Update L n us m = (r, m')" and "xm_version m < 2 ^ 63 - 1" and "- (2 ^ 63) \<le> xm_version m"
    and "envoy_lib_ok L"
  shows "xm_version m' = xm_version m + 1 \<and>
    (r = Inr () \<longrightarrow> xm_cache m' = (xm_cache m)(n \<mapsto> mkSnapshot (xm_version m + 1) us (xm_baseDomain m)))"
proof -
  have v: "xm_version m' = xm_version m + 1"
    using Update_version [of L n us m] assms(1-3) by (simp add: i64_id in_i64_def)
  then show ?thesis using Update_Inr [of L n us m "()" m'] assms(1,4) by auto
qed

text \<open>
  Every environment has a node id of its own, as long as the configured id of the local
  Envoy does not start like a generated one.
\<close>

lemma node_ids_are_distinct:
  assumes "\<not> hasPrefix (xm_nodeID m) ''easydeploy-edge-''" and "NodeForEndpoint m i = NodeForEndpoint m j"
  shows "i = j"
  using assms NodeForEndpoint_inj [of m i j] by (simp add: node_id_ok_def)

text \<open>
  An advertised address \<^verbatim>\<open>host:port\<close> with a plain host and a positive port is accepted,
  surrounding blanks are ignored, and the bootstrap names exactly that host, that port and the
  node; an address without a colon, or with port zero or below, is refused.
\<close>

lemma edge_bootstrap_address:
  assumes "host \<noteq> []" "set host \<inter> {CHR '':'', CHR ''['', CHR '']''} = {}" "\<forall>c \<in> set host. \<not> is_space c"
    and "in_i64 port"
  shows "(0 < port \<longrightarrow> EdgeBootstrapYAML node ('' '' @ host @ '':'' @ goItoa port) =
        Inr (concat (map (\<lambda>l. l @ [CHR 0x0A]) (bootstrapLines node host port)))) \<and>
    (port \<le> 0 \<longrightarrow> (\<exists>e. EdgeBootstrapYAML node (host @ '':'' @ goItoa port) = Inl e)) \<and>
    (\<exists>e. EdgeBootstrapYAML node host = Inl e)"
proof -
  let ?a = "host @ '':'' @ goItoa port"
  have "\<not> is_space (last ?a)" using goItoa_no(4) [of "last (goItoa port)" port] by simp
  moreover have "\<not> is_space (hd ?a)" using assms(1,3) by simp
  ultimately have t: "trimSpace ?a = ?a" unfolding trimSpace_def by (intro trimWith_id) auto
  have sp: "is_space (CHR '' '')" by (simp add: is_space_def code_of_def)
  then have t2: "trimSpace ('' '' @ ?a) = ?a" using t by (simp add: trimSpace_def trimWith_def)
  have t3: "trimSpace host = host"
    unfolding trimSpace_def using assms(1,3) by (intro trimWith_id) auto
  have "CHR '':'' \<notin> set host" using assms(2) by auto
  then have "lastIndex host (CHR '':'') = None" by (simp add: lastIndex_def indexByte_None)
  with t3 have "\<exists>e. EdgeBootstrapYAML node host = Inl e"
    by (simp add: EdgeBootstrapYAML_def splitHostPort_def)
  moreover note splitHostPort_plain [OF assms(1,2), of port] goAtoi_goItoa [OF assms(4)]
  ultimately show ?thesis using t t2 assms(1) by (simp add: EdgeBootstrapYAML_def)
qed

end
