(* ===== verification/DockerSpec.thy ===== *)
theory DockerSpec
  imports StoreTypes
begin

text \<open>
  From \<^verbatim>\<open>docker/spec.go\<close> and the pure part of \<^verbatim>\<open>Deploy\<close> in
  \<^verbatim>\<open>docker/client.go\<close>: how a deployment request becomes the container and host
  configuration sent to the Docker daemon.  \<^verbatim>\<open>nat.NewPort\<close> of go-connections is a
  parameter.
\<close>

section \<open>Configurations sent to the daemon\<close>

record port_binding =
  pb_hostIP :: string
  pb_hostPort :: string

record health_config =
  hf_test :: "string list"
  hf_interval :: int
  hf_timeout :: int
  hf_retries :: int
  hf_startPeriod :: int

record container_config =
  cc_image :: string
  cc_env :: "string list"
  cc_labels :: "string \<rightharpoonup> string"
  cc_exposedPorts :: "string set"
  cc_cmd :: "string list"
  cc_entrypoint :: "string list"
  cc_workingDir :: string
  cc_user :: string
  cc_hostname :: string
  cc_stopSignal :: string
  cc_stopTimeout :: "int option"
  cc_healthcheck :: "health_config option"

datatype mount_type = TypeBind | TypeVolume | TypeTmpfs

record mount =
  mo_type :: mount_type
  mo_source :: string
  mo_target :: string
  mo_readOnly :: bool

record device_mapping =
  dm_pathOnHost :: string
  dm_pathInContainer :: string
  dm_cgroupPermissions :: string

record host_config =
  ho_portBindings :: "string \<Rightarrow> port_binding list"
  ho_restartName :: string
  ho_restartRetries :: int
  ho_networkMode :: string
  ho_mounts :: "mount list"
  ho_capAdd :: "string list"
  ho_capDrop :: "string list"
  ho_privileged :: bool
  ho_readonlyRootfs :: bool
  ho_init :: "bool option"
  ho_dns :: "string list"
  ho_extraHosts :: "string list"
  ho_sysctls :: "(string \<times> string) list"
  ho_tmpfs :: "(string \<times> string) list"
  ho_devices :: "device_mapping list"
  ho_pidsLimit :: "int option"
  ho_memorySwap :: int
  ho_cpuShares :: int
  ho_logType :: string
  ho_logConfig :: "(string \<times> string) list"
  ho_nanoCPUs :: int
  ho_memory :: int

text \<open>\<^verbatim>\<open>container.Config{}\<close> and \<^verbatim>\<open>container.HostConfig{}\<close> with an image and limits only.\<close>

definition config_zero :: container_config where
  "config_zero = \<lparr>cc_image = '''', cc_env = [], cc_labels = Map.empty, cc_exposedPorts = {},
     cc_cmd = [], cc_entrypoint = [], cc_workingDir = '''', cc_user = '''', cc_hostname = '''',
     cc_stopSignal = '''', cc_stopTimeout = None, cc_healthcheck = None\<rparr>"

definition host_config_zero :: host_config where
  "host_config_zero = \<lparr>ho_portBindings = (\<lambda>_. []), ho_restartName = '''', ho_restartRetries = 0,
     ho_networkMode = '''', ho_mounts = [], ho_capAdd = [], ho_capDrop = [], ho_privileged = False,
     ho_readonlyRootfs = False, ho_init = None, ho_dns = [], ho_extraHosts = [], ho_sysctls = [],
     ho_tmpfs = [], ho_devices = [], ho_pidsLimit = None, ho_memorySwap = 0, ho_cpuShares = 0,
     ho_logType = '''', ho_logConfig = [], ho_nanoCPUs = 0, ho_memory = 0\<rparr>"

section \<open>Labels\<close>

definition LabelSubdomain :: string where "LabelSubdomain = ''easydeploy.subdomain''"
definition LabelManaged :: string where "LabelManaged = ''easydeploy.managed''"
definition LabelOwner :: string where "LabelOwner = ''easydeploy.owner''"
definition LabelService :: string where "LabelService = ''easydeploy.service''"
definition LabelReplica :: string where "LabelReplica = ''easydeploy.replica''"

lemmas label_defs = LabelSubdomain_def LabelManaged_def LabelOwner_def LabelService_def LabelReplica_def

lemma labels_distinct [simp]:
  "LabelSubdomain \<noteq> LabelManaged" "LabelManaged \<noteq> LabelSubdomain"
  "LabelSubdomain \<noteq> LabelOwner" "LabelOwner \<noteq> LabelSubdomain"
  "LabelSubdomain \<noteq> LabelService" "LabelService \<noteq> LabelSubdomain"
  "LabelSubdomain \<noteq> LabelReplica" "LabelReplica \<noteq> LabelSubdomain"
  "LabelManaged \<noteq> LabelOwner" "LabelOwner \<noteq> LabelManaged"
  "LabelManaged \<noteq> LabelService" "LabelService \<noteq> LabelManaged"
  "LabelManaged \<noteq> LabelReplica" "LabelReplica \<noteq> LabelManaged"
  "LabelOwner \<noteq> LabelService" "LabelService \<noteq> LabelOwner"
  "LabelOwner \<noteq> LabelReplica" "LabelReplica \<noteq> LabelOwner"
  "LabelService \<noteq> LabelReplica" "LabelReplica \<noteq> LabelService"
  by (simp_all add: label_defs)

section \<open>A deployment request\<close>

record deploy_spec =
  ds_name :: string
  ds_image :: string
  ds_env :: "string list"
  ds_subdomain :: string
  ds_containerPort :: int
  ds_publish :: "(string \<times> string) list"
  ds_network :: string
  ds_registryAuth :: string
  ds_owner :: string
  ds_nanoCPUs :: int
  ds_memoryBytes :: int
  ds_extraLabels :: "(string \<times> string) list"
  ds_advanced :: advanced_spec

text \<open>\<^verbatim>\<open>for k, v := range m { labels[k] = v }\<close>.\<close>

definition add_labels :: "(string \<times> string) list \<Rightarrow> (string \<rightharpoonup> string) \<Rightarrow> (string \<rightharpoonup> string)" where
  "add_labels kvs m = fold (\<lambda>(k, v) m. m(k \<mapsto> v)) kvs m"

definition deploy_labels :: "deploy_spec \<Rightarrow> (string \<rightharpoonup> string)" where
  "deploy_labels spec =
     (let l0 = [LabelManaged \<mapsto> ''true''];
          l1 = (if ds_subdomain spec \<noteq> '''' then l0(LabelSubdomain \<mapsto> ds_subdomain spec) else l0);
          l2 = (if ds_owner spec \<noteq> '''' then l1(LabelOwner \<mapsto> ds_owner spec) else l1)
      in add_labels (ds_extraLabels spec) l2)"

type_synonym new_port = "string \<Rightarrow> string \<Rightarrow> goerr + string"

text \<open>The body of the loop over \<^verbatim>\<open>spec.Publish\<close>.\<close>

fun publish_ports :: "new_port \<Rightarrow> (string \<times> string) list \<Rightarrow> string set \<Rightarrow> (string \<Rightarrow> port_binding list)
    \<Rightarrow> goerr + (string set \<times> (string \<Rightarrow> port_binding list))" where
  "publish_ports np [] ex bi = Inr (ex, bi)"
| "publish_ports np ((hostPort, containerSpec) # ps) ex bi =
     (let (portStr, proto) = (case indexByte containerSpec (CHR ''/'') of
            Some i \<Rightarrow> (take i containerSpec, drop (Suc i) containerSpec)
          | None \<Rightarrow> (containerSpec, ''tcp''))
      in case np proto portStr of
           Inl e \<Rightarrow> Inl e
         | Inr p \<Rightarrow> publish_ports np ps (insert p ex)
             (bi(p := bi p @ [\<lparr>pb_hostIP = ''0.0.0.0'', pb_hostPort = hostPort\<rparr>])))"

definition buildPorts :: "new_port \<Rightarrow> deploy_spec \<Rightarrow> goerr + (string set \<times> (string \<Rightarrow> port_binding list))" where
  "buildPorts np spec =
     (if ds_containerPort spec > 0 then
        (case np ''tcp'' (goItoa (ds_containerPort spec)) of
           Inl e \<Rightarrow> Inl e
         | Inr p \<Rightarrow> publish_ports np (ds_publish spec) {p} (\<lambda>_. []))
      else publish_ports np (ds_publish spec) {} (\<lambda>_. []))"

section \<open>Advanced options\<close>

definition orString :: "string \<Rightarrow> string \<Rightarrow> string" where
  "orString cur nxt = (if nxt \<noteq> '''' then nxt else cur)"

definition orList :: "'a list \<Rightarrow> 'a list \<Rightarrow> 'a list" where
  "orList cur nxt = (if nxt \<noteq> [] then nxt else cur)"

definition seconds :: "int \<Rightarrow> int" where
  "seconds n = i64 (n * 1000000000)"

definition splitColon :: "string \<Rightarrow> string list" where
  "splitColon s = splitChar (CHR '':'') s"

definition parseDevice :: "string \<Rightarrow> device_mapping" where
  "parseDevice spec =
     (let mk = (\<lambda>h c p. \<lparr>dm_pathOnHost = h, dm_pathInContainer = c, dm_cgroupPermissions = p\<rparr>)
      in case splitColon spec of
           [a] \<Rightarrow> mk a a ''rwm''
         | [a, b] \<Rightarrow> mk a b ''rwm''
         | [a, b, c] \<Rightarrow> mk a b c
         | _ \<Rightarrow> mk spec spec ''rwm'')"

text \<open>The part of \<^verbatim>\<open>applyAdvanced\<close> that writes the container configuration.\<close>

definition apply_config :: "advanced_spec \<Rightarrow> container_config \<Rightarrow> container_config" where
  "apply_config s cfg = cfg\<lparr>
     cc_cmd := orList (cc_cmd cfg) (ad_command s),
     cc_entrypoint := orList (cc_entrypoint cfg) (ad_entrypoint s),
     cc_workingDir := orString (cc_workingDir cfg) (ad_workingDir s),
     cc_user := orString (cc_user cfg) (ad_user s),
     cc_hostname := orString (cc_hostname cfg) (ad_hostname s),
     cc_stopSignal := orString (cc_stopSignal cfg) (ad_stopSignal s),
     cc_labels := add_labels (ad_labels s) (cc_labels cfg),
     cc_stopTimeout := (if ad_stopTimeoutSec s > 0 then Some (ad_stopTimeoutSec s) else cc_stopTimeout cfg),
     cc_healthcheck := (case ad_health s of
         Some h \<Rightarrow> if hc_test h \<noteq> [] then
             Some \<lparr>hf_test = hc_test h, hf_interval = seconds (hc_intervalSec h),
                   hf_timeout = seconds (hc_timeoutSec h), hf_retries = hc_retries h,
                   hf_startPeriod = seconds (hc_startSec h)\<rparr>
           else cc_healthcheck cfg
       | None \<Rightarrow> cc_healthcheck cfg)\<rparr>"

text \<open>The loop over \<^verbatim>\<open>s.Ports\<close>.\<close>

fun apply_ports :: "new_port \<Rightarrow> port_map list \<Rightarrow> container_config \<Rightarrow> host_config
    \<Rightarrow> goerr + (container_config \<times> host_config)" where
  "apply_ports np [] cfg host = Inr (cfg, host)"
| "apply_ports np (p # ps) cfg host =
     (if pm_containerPort p = '''' then apply_ports np ps cfg host
      else let proto = (if pm_proto p = '''' then ''tcp'' else pm_proto p) in
        case np proto (pm_containerPort p) of
          Inl e \<Rightarrow> Inl e
        | Inr port \<Rightarrow>
            (let hostIP = (if pm_hostIP p = '''' then ''0.0.0.0'' else pm_hostIP p);
                 b = \<lparr>pb_hostIP = hostIP, pb_hostPort = pm_hostPort p\<rparr>
             in apply_ports np ps
                  (cfg\<lparr>cc_exposedPorts := insert port (cc_exposedPorts cfg)\<rparr>)
                  (host\<lparr>ho_portBindings := (ho_portBindings host)(port := ho_portBindings host port @ [b])\<rparr>)))"

text \<open>The loop over \<^verbatim>\<open>s.Mounts\<close>.\<close>

definition mount_of :: "volume_mount \<Rightarrow> mount" where
  "mount_of m = \<lparr>mo_type = (if vm_type m = ''volume'' then TypeVolume
        else if vm_type m = ''tmpfs'' then TypeTmpfs else TypeBind),
     mo_source = vm_source m, mo_target = vm_target m, mo_readOnly = vm_readOnly m\<rparr>"

definition apply_mounts :: "volume_mount list \<Rightarrow> host_config \<Rightarrow> host_config" where
  "apply_mounts ms host =
     host\<lparr>ho_mounts := ho_mounts host @ map mount_of (filter (\<lambda>m. vm_target m \<noteq> '''') ms)\<rparr>"

text \<open>The remaining host options.\<close>

definition apply_host :: "advanced_spec \<Rightarrow> host_config \<Rightarrow> host_config" where
  "apply_host s host = host\<lparr>
     ho_restartName := (if ad_restartPolicy s \<noteq> '''' then ad_restartPolicy s else ho_restartName host),
     ho_restartRetries := (if ad_restartPolicy s \<noteq> '''' then ad_restartRetries s else ho_restartRetries host),
     ho_capAdd := orList (ho_capAdd host) (ad_capAdd s),
     ho_capDrop := orList (ho_capDrop host) (ad_capDrop s),
     ho_privileged := ho_privileged host \<or> ad_privileged s,
     ho_readonlyRootfs := ho_readonlyRootfs host \<or> ad_readonlyRootfs s,
     ho_init := (if ad_init s then Some True else ho_init host),
     ho_dns := orList (ho_dns host) (ad_dns s),
     ho_extraHosts := orList (ho_extraHosts host) (ad_extraHosts s),
     ho_sysctls := orList (ho_sysctls host) (ad_sysctls s),
     ho_tmpfs := orList (ho_tmpfs host) (ad_tmpfs s),
     ho_devices := ho_devices host @ map parseDevice (ad_devices s),
     ho_pidsLimit := (if ad_pidsLimit s > 0 then Some (ad_pidsLimit s) else ho_pidsLimit host),
     ho_memorySwap := (if ad_memorySwapMB s > 0 then i64 (ad_memorySwapMB s * 2 ^ 20) else ho_memorySwap host),
     ho_cpuShares := (if ad_cpuShares s > 0 then ad_cpuShares s else ho_cpuShares host),
     ho_logType := (if ad_logDriver s \<noteq> '''' then ad_logDriver s else ho_logType host),
     ho_logConfig := (if ad_logDriver s \<noteq> '''' then ad_logOpts s else ho_logConfig host)\<rparr>"

definition applyAdvanced :: "new_port \<Rightarrow> container_config \<Rightarrow> host_config \<Rightarrow> advanced_spec
    \<Rightarrow> goerr + (container_config \<times> host_config)" where
  "applyAdvanced np cfg host s =
     (case apply_ports np (ad_ports s) (apply_config s cfg) host of
        Inl e \<Rightarrow> Inl e
      | Inr (cfg', host') \<Rightarrow> Inr (cfg', apply_host s (apply_mounts (ad_mounts s) host')))"

text \<open>The container and host configuration before the advanced options.\<close>

definition base_config :: "deploy_spec \<Rightarrow> string set \<Rightarrow> container_config" where
  "base_config spec exposed = config_zero\<lparr>cc_image := ds_image spec, cc_env := ds_env spec,
     cc_labels := deploy_labels spec, cc_exposedPorts := exposed\<rparr>"

definition base_host :: "deploy_spec \<Rightarrow> (string \<Rightarrow> port_binding list) \<Rightarrow> host_config" where
  "base_host spec bindings = host_config_zero\<lparr>ho_portBindings := bindings,
     ho_restartName := ''unless-stopped'', ho_nanoCPUs := ds_nanoCPUs spec,
     ho_memory := ds_memoryBytes spec\<rparr>"

text \<open>
  The configuration \<^verbatim>\<open>Deploy\<close> creates the container from: labels, ports, limits, then the
  advanced options on top.
\<close>

definition deploy_config :: "new_port \<Rightarrow> deploy_spec \<Rightarrow> goerr + (container_config \<times> host_config)" where
  "deploy_config np spec =
     (case buildPorts np spec of
        Inl e \<Rightarrow> Inl e
      | Inr (exposed, bindings) \<Rightarrow>
          (let cfg = base_config spec exposed;
               host = base_host spec bindings
           in case applyAdvanced np cfg host (ds_advanced spec) of
                Inl e \<Rightarrow> Inl (Wrap ''apply options'' e)
              | Inr r \<Rightarrow> Inr r))"

section \<open>What a deployment carries\<close>

lemma add_labels_map_add: "add_labels kvs m = m ++ map_of (rev kvs)"
  unfolding add_labels_def
  by (induction kvs arbitrary: m) (auto simp: map_add_def fun_eq_iff split: option.splits)

lemma add_labels_other: "k \<notin> fst ` set kvs \<Longrightarrow> add_labels kvs m k = m k"
  by (simp add: add_labels_map_add map_add_def)
    (metis map_of_eq_None_iff option.simps(4) set_rev)

lemma add_labels_in:
  "distinct (map fst kvs) \<Longrightarrow> (k, v) \<in> set kvs \<Longrightarrow> add_labels kvs m k = Some v"
  by (simp add: add_labels_map_add map_add_def)
    (metis distinct_rev map_of_is_SomeI option.simps(5) rev_map set_rev)

lemma apply_config_fields [simp]:
  "cc_labels (apply_config s cfg) = add_labels (ad_labels s) (cc_labels cfg)"
  "cc_image (apply_config s cfg) = cc_image cfg"
  "cc_env (apply_config s cfg) = cc_env cfg"
  "cc_exposedPorts (apply_config s cfg) = cc_exposedPorts cfg"
  by (simp_all add: apply_config_def)

lemma apply_host_limits [simp]:
  "ho_nanoCPUs (apply_host s host) = ho_nanoCPUs host"
  "ho_memory (apply_host s host) = ho_memory host"
  "ho_portBindings (apply_host s host) = ho_portBindings host"
  "ho_mounts (apply_host s host) = ho_mounts host"
  by (simp_all add: apply_host_def)

lemma apply_mounts_limits [simp]:
  "ho_nanoCPUs (apply_mounts ms host) = ho_nanoCPUs host"
  "ho_memory (apply_mounts ms host) = ho_memory host"
  "ho_portBindings (apply_mounts ms host) = ho_portBindings host"
  by (simp_all add: apply_mounts_def)

lemma apply_ports_frame:
  assumes "apply_ports np ps cfg host = Inr (cfg', host')"
  shows "cc_labels cfg' = cc_labels cfg \<and> cc_image cfg' = cc_image cfg \<and> cc_env cfg' = cc_env cfg \<and>
    ho_nanoCPUs host' = ho_nanoCPUs host \<and> ho_memory host' = ho_memory host \<and>
    cc_exposedPorts cfg \<subseteq> cc_exposedPorts cfg'"
  using assms
proof (induction np ps cfg host rule: apply_ports.induct)
  case (1 np cfg host)
  then show ?case by simp
next
  case (2 np p ps cfg host)
  show ?case
  proof (cases "pm_containerPort p = ''''")
    case True
    with 2 show ?thesis by simp
  next
    case False
    define proto where "proto = (if pm_proto p = '''' then ''tcp'' else pm_proto p)"
    show ?thesis
    proof (cases "np proto (pm_containerPort p)")
      case (Inl e)
      with 2(3) False show ?thesis by (simp add: proto_def Let_def)
    next
      case (Inr port)
      have s: "apply_ports np (p # ps) cfg host = apply_ports np ps
          (cfg\<lparr>cc_exposedPorts := insert port (cc_exposedPorts cfg)\<rparr>)
          (host\<lparr>ho_portBindings := (ho_portBindings host)(port := ho_portBindings host port @
             [\<lparr>pb_hostIP = (if pm_hostIP p = '''' then ''0.0.0.0'' else pm_hostIP p),
               pb_hostPort = pm_hostPort p\<rparr>])\<rparr>)"
        using False Inr by (simp add: proto_def Let_def)
      from 2(2) [OF False proto_def, of port] Inr 2(3) s show ?thesis
        by simp
    qed
  qed
qed

lemma applyAdvanced_Inr:
  "applyAdvanced np cfg host s = Inr (cfg', host') \<longleftrightarrow>
   (\<exists>h. apply_ports np (ad_ports s) (apply_config s cfg) host = Inr (cfg', h) \<and>
        host' = apply_host s (apply_mounts (ad_mounts s) h))"
  by (auto simp: applyAdvanced_def split: sum.splits)

lemma applyAdvanced_frame:
  assumes "applyAdvanced np cfg host s = Inr (cfg', host')"
  shows "cc_labels cfg' = add_labels (ad_labels s) (cc_labels cfg)" "cc_image cfg' = cc_image cfg"
    "cc_env cfg' = cc_env cfg"
    "ho_nanoCPUs host' = ho_nanoCPUs host" "ho_memory host' = ho_memory host"
proof -
  from assms obtain h where h: "apply_ports np (ad_ports s) (apply_config s cfg) host = Inr (cfg', h)"
    and host': "host' = apply_host s (apply_mounts (ad_mounts s) h)"
    by (auto simp: applyAdvanced_Inr)
  note f = apply_ports_frame [OF h]
  show "cc_labels cfg' = add_labels (ad_labels s) (cc_labels cfg)" using f by simp
  show "cc_image cfg' = cc_image cfg" using f by simp
  show "cc_env cfg' = cc_env cfg" using f by simp
  show "ho_nanoCPUs host' = ho_nanoCPUs host" using f host' by simp
  show "ho_memory host' = ho_memory host" using f host' by simp
qed

lemma base_config_fields [simp]:
  "cc_labels (base_config spec ex) = deploy_labels spec" "cc_image (base_config spec ex) = ds_image spec"
  "cc_env (base_config spec ex) = ds_env spec" "cc_exposedPorts (base_config spec ex) = ex"
  by (simp_all add: base_config_def)

lemma base_host_fields [simp]:
  "ho_nanoCPUs (base_host spec bi) = ds_nanoCPUs spec" "ho_memory (base_host spec bi) = ds_memoryBytes spec"
  "ho_portBindings (base_host spec bi) = bi"
  by (simp_all add: base_host_def)

lemma deploy_config_Inr:
  "deploy_config np spec = Inr (cfg, host) \<longleftrightarrow>
   (\<exists>ex bi. buildPorts np spec = Inr (ex, bi) \<and>
      applyAdvanced np (base_config spec ex) (base_host spec bi) (ds_advanced spec) = Inr (cfg, host))"
  by (auto simp: deploy_config_def split: sum.splits)

lemma deploy_config_frame:
  assumes "deploy_config np spec = Inr (cfg, host)"
  shows "cc_labels cfg = add_labels (ad_labels (ds_advanced spec)) (deploy_labels spec)"
    "cc_image cfg = ds_image spec" "cc_env cfg = ds_env spec"
    "ho_nanoCPUs host = ds_nanoCPUs spec" "ho_memory host = ds_memoryBytes spec"
proof -
  from assms obtain ex bi where
    "applyAdvanced np (base_config spec ex) (base_host spec bi) (ds_advanced spec) = Inr (cfg, host)"
    by (auto simp: deploy_config_Inr)
  note f = applyAdvanced_frame [OF this]
  show "cc_labels cfg = add_labels (ad_labels (ds_advanced spec)) (deploy_labels spec)"
    using f(1) by simp
  show "cc_image cfg = ds_image spec" using f(2) by simp
  show "cc_env cfg = ds_env spec" using f(3) by simp
  show "ho_nanoCPUs host = ds_nanoCPUs spec" using f(4) by simp
  show "ho_memory host = ds_memoryBytes spec" using f(5) by simp
qed

end
