(* ===== verification/World.thy ===== *)
theory World
  imports StoreServices Xds DockerSpec
begin

text \<open>
  The state of a running server and the code outside the repository.  A \<^verbatim>\<open>world\<close> holds
  the database, the control plane's snapshot cache, the cache of Docker clients with the
  helper containers each of them knows, the running tunnels with their connections, and the state
  \<^verbatim>\<open>'e\<close> of everything else (the Docker daemons, the PostgreSQL driver, the clock, the
  random source).  An operation of the server is an \<^verbatim>\<open>io\<close> computation on it.  The
  outside is the parameter \<^verbatim>\<open>ext\<close>: the functions the code calls, each of which may read
  and change \<^verbatim>\<open>'e\<close> and may fail.
\<close>

section \<open>Docker clients\<close>

record tls_material =
  tm_ca :: string
  tm_cert :: string
  tm_key :: string

text \<open>
  \<^verbatim>\<open>*docker.Client\<close>: the address of the object (it identifies the object's own cache of
  helper containers) and the connection it was built for.
\<close>

record client =
  cli_ref :: int
  cli_host :: string
  cli_tls :: "tls_material option"

text \<open>The fields the code reads of what the daemon answers.\<close>

record summary =
  su_id :: string
  su_labels :: "string \<rightharpoonup> string"
  su_state :: string

text \<open>\<^verbatim>\<open>in_running\<close> is \<^const>\<open>None\<close> when \<^verbatim>\<open>State\<close> is nil.\<close>

record inspect =
  in_id :: string
  in_name :: string
  in_running :: "bool option"
  in_config :: "container_config option"
  in_host :: "host_config option"
  in_networks :: "(string \<times> string) list"

record volume =
  vo_name :: string
  vo_driver :: string
  vo_mountpoint :: string
  vo_createdAt :: string
  vo_labels :: "string \<rightharpoonup> string"

record network =
  ne_id :: string
  ne_name :: string
  ne_labels :: "string \<rightharpoonup> string"

record usage_data =
  ud_size :: int
  ud_refCount :: int

text \<open>One header of a tar stream; the stream ends normally or with an error.\<close>

record tar_entry =
  te_regular :: bool
  te_name :: string
  te_size :: int
  te_body :: string

text \<open>The counters of a stats sample, and one message of a build's output stream.\<close>

record stats =
  st_cpuTotal :: int
  st_preCpuTotal :: int
  st_system :: int
  st_preSystem :: int
  st_onlineCPUs :: int
  st_percpu :: nat

record build_message =
  bm_stream :: string
  bm_error :: string

text \<open>\<^verbatim>\<open>container.LogsOptions\<close> and \<^verbatim>\<open>container.ExecOptions\<close>.\<close>

record logs_options =
  lo_showStdout :: bool
  lo_showStderr :: bool
  lo_follow :: bool
  lo_tail :: string
  lo_timestamps :: bool

record exec_options =
  xo_cmd :: "string list"
  xo_tty :: bool
  xo_attachStdin :: bool
  xo_attachStdout :: bool
  xo_attachStderr :: bool

text \<open>A message of a WebSocket connection.\<close>

datatype ws_frame = TextFrame string | BinaryFrame string

text \<open>
  The calls on connections that are open while a request runs: a WebSocket connection, the
  stream of a container's log or statistics, and the connection to a shell.
  \<^verbatim>\<open>ExecResize\<close> is given the height and the width.
\<close>

datatype wire_op =
    WsWrite int ws_frame
  | WsClose int
  | StreamClose int
  | HijackWrite int string
  | HijackClose int
  | ExecResizeCall client string int int

text \<open>
  What happens on the two connections of a shell session, in the order in which the server's
  two loops see it: the shell prints or ends, the browser sends a message or is gone.
\<close>

datatype session_event =
    ShellOutput string
  | ShellEnd
  | BrowserSends ws_frame
  | BrowserGone

text \<open>
  What happens on a log or a statistics stream: it delivers a piece, the browser sends a message, the
  browser is gone, or the time of the request is over.  The list ends where the stream ends.
\<close>

datatype stream_event =
    Piece string
  | BrowserSpeaks
  | BrowserLeft
  | RequestOver

text \<open>
  The functions of the Docker SDK the code calls, on the outside's state.  A network
  attachment is the network's name with its opaque settings (empty for the zero value);
  \<^verbatim>\<open>da_containerList\<close> is given the label filter, empty for none.  A stream that stays open
  (\<^verbatim>\<open>da_containerLogs\<close>, \<^verbatim>\<open>da_statsStream\<close>) is its handle; \<^verbatim>\<open>da_execTTYCreate\<close> and \<^verbatim>\<open>da_execTTYAttach\<close>
  start an interactive command and return the handle of its connection.
\<close>

type_synonym ('e, 'a) call = "(goerr, 'e, 'a) io"

record 'e docker_api =
  da_ping :: "client \<Rightarrow> ('e, unit) call"
  da_serverVersion :: "client \<Rightarrow> ('e, string) call"
  da_containerList :: "client \<Rightarrow> bool \<Rightarrow> string \<Rightarrow> ('e, summary list) call"
  da_containerInspect :: "client \<Rightarrow> string \<Rightarrow> ('e, inspect) call"
  da_containerCreate :: "client \<Rightarrow> container_config \<Rightarrow> host_config \<Rightarrow> (string \<times> string) list \<Rightarrow> string
    \<Rightarrow> ('e, string) call"
  da_containerStart :: "client \<Rightarrow> string \<Rightarrow> ('e, unit) call"
  da_containerStop :: "client \<Rightarrow> string \<Rightarrow> ('e, unit) call"
  da_containerRestart :: "client \<Rightarrow> string \<Rightarrow> ('e, unit) call"
  da_containerRemove :: "client \<Rightarrow> string \<Rightarrow> ('e, unit) call"
  da_imagePull :: "client \<Rightarrow> string \<Rightarrow> string \<Rightarrow> ('e, unit) call"
  da_imageInspect :: "client \<Rightarrow> string \<Rightarrow> ('e, unit) call"
  da_imageList :: "client \<Rightarrow> ('e, string list) call"
  da_imageRemove :: "client \<Rightarrow> string \<Rightarrow> bool \<Rightarrow> ('e, unit) call"
  da_volumeCreate :: "client \<Rightarrow> string \<Rightarrow> string \<Rightarrow> (string \<rightharpoonup> string) \<Rightarrow> ('e, volume) call"
  da_volumeRemove :: "client \<Rightarrow> string \<Rightarrow> bool \<Rightarrow> ('e, unit) call"
  da_volumeInspect :: "client \<Rightarrow> string \<Rightarrow> ('e, volume) call"
  da_volumeList :: "client \<Rightarrow> ('e, volume list) call"
  da_diskUsage :: "client \<Rightarrow> ('e, (string \<times> usage_data option) list) call"
  da_networkCreate :: "client \<Rightarrow> string \<Rightarrow> string \<Rightarrow> (string \<rightharpoonup> string) \<Rightarrow> ('e, string) call"
  da_networkRemove :: "client \<Rightarrow> string \<Rightarrow> ('e, unit) call"
  da_networkInspect :: "client \<Rightarrow> string \<Rightarrow> ('e, network) call"
  da_networkList :: "client \<Rightarrow> ('e, network list) call"
  da_networkConnect :: "client \<Rightarrow> string \<Rightarrow> string \<Rightarrow> string \<Rightarrow> ('e, unit) call"
  da_networkDisconnect :: "client \<Rightarrow> string \<Rightarrow> string \<Rightarrow> ('e, unit) call"
  da_execCreate :: "client \<Rightarrow> string \<Rightarrow> string list \<Rightarrow> ('e, string) call"
  da_execAttach :: "client \<Rightarrow> string \<Rightarrow> ('e, string \<times> string) call"
  da_execExitCode :: "client \<Rightarrow> string \<Rightarrow> ('e, int) call"
  da_copyTo :: "client \<Rightarrow> string \<Rightarrow> string \<Rightarrow> string \<Rightarrow> string \<Rightarrow> ('e, unit) call"
  da_copyFrom :: "client \<Rightarrow> string \<Rightarrow> string \<Rightarrow> ('e, tar_entry list \<times> goerr option) call"
  da_containerStats :: "client \<Rightarrow> string \<Rightarrow> ('e, stats) call"
  da_containerLogs :: "client \<Rightarrow> string \<Rightarrow> logs_options \<Rightarrow> ('e, int) call"
  da_statsStream :: "client \<Rightarrow> string \<Rightarrow> bool \<Rightarrow> ('e, int) call"
  da_execTTYCreate :: "client \<Rightarrow> string \<Rightarrow> exec_options \<Rightarrow> ('e, string) call"
  da_execTTYAttach :: "client \<Rightarrow> string \<Rightarrow> bool \<Rightarrow> ('e, int) call"
  da_imageBuild :: "client \<Rightarrow> string \<Rightarrow> string \<Rightarrow> string \<Rightarrow> ('e, build_message list \<times> goerr option) call"

section \<open>The outside\<close>

text \<open>
  One use of the PostgreSQL driver: it runs the statement, or fails before it reached the
  server, or loses the answer after the server executed it.
\<close>

datatype fault = NoFault | FaultBefore goerr | FaultAfter goerr

text \<open>
  An AEAD (\<^verbatim>\<open>cipher.AEAD\<close>): the size of its nonces, sealing and opening without
  additional data.
\<close>

record aead =
  ae_nonceSize :: nat
  ae_seal :: "string \<Rightarrow> string \<Rightarrow> string"
  ae_open :: "string \<Rightarrow> string \<Rightarrow> goerr + string"

text \<open>The payload of a session token, and the signing method its header names.\<close>

record claims =
  cm_subject :: string
  cm_issuedAt :: int
  cm_expiresAt :: int
  cm_userID :: int
  cm_role :: string

datatype signing_method = SigningMethodHMAC | OtherMethod string

text \<open>An HTTP response, its body read to the end.\<close>

record response =
  hr_code :: int
  hr_status :: string
  hr_body :: string

text \<open>
  \<^verbatim>\<open>x_sql\<close> also gives the time the statement sees, \<^verbatim>\<open>x_order\<close> the order in which Go
  iterates over a map with these keys.  \<^verbatim>\<open>x_newPort\<close> is \<^verbatim>\<open>nat.NewPort\<close> and
  \<^verbatim>\<open>x_notFound\<close> is \<^verbatim>\<open>client.IsErrNotFound\<close>; \<^verbatim>\<open>x_rand\<close> reads random bytes;
  \<^verbatim>\<open>x_sha256\<close> and \<^verbatim>\<open>x_newGCM\<close> (AES with this key in GCM mode) build the secret box;
  \<^verbatim>\<open>x_keyPair\<close> (\<^verbatim>\<open>tls.X509KeyPair\<close>), \<^verbatim>\<open>x_certPool\<close>
  (\<^verbatim>\<open>AppendCertsFromPEM\<close>), \<^verbatim>\<open>x_sshHelper\<close> (the host of the connection helper) and
  \<^verbatim>\<open>x_newClient\<close> build a remote client; \<^verbatim>\<open>x_authJSON\<close> is \<^verbatim>\<open>json.Marshal\<close> of
  docker's \<^verbatim>\<open>AuthConfig\<close>; \<^verbatim>\<open>x_bcrypt\<close> hashes, \<^verbatim>\<open>x_bcryptOk\<close> compares;
  \<^verbatim>\<open>x_jwtSign\<close> and \<^verbatim>\<open>x_jwtParse\<close> (given the key function) are the token library;
  \<^verbatim>\<open>x_clock\<close> is the wall clock; \<^verbatim>\<open>x_newRequest\<close> is the error of building a GET
  request, \<^verbatim>\<open>x_httpGet\<close> sends it (with basic authentication) and \<^verbatim>\<open>x_repositories\<close>
  and \<^verbatim>\<open>x_tags\<close> decode a registry's JSON answers; \<^verbatim>\<open>x_advJSON\<close> and
  \<^verbatim>\<open>x_advParse\<close> convert \<^verbatim>\<open>AdvancedSpec\<close> to and from JSON, \<^verbatim>\<open>x_envJSON\<close> and
  \<^verbatim>\<open>x_envParse\<close> a list of strings (the value decoded with the error ignored);
  \<^verbatim>\<open>x_mkdirTemp\<close>, \<^verbatim>\<open>x_gitClone\<close> and \<^verbatim>\<open>x_tarDir\<close> prepare a build
  context; \<^verbatim>\<open>x_parseIP\<close> tells whether \<^verbatim>\<open>net.ParseIP\<close> accepts a text;
  \<^verbatim>\<open>x_readFile\<close>, \<^verbatim>\<open>x_parseKey\<close>, \<^verbatim>\<open>x_sshDial\<close> (address, user, key),
  \<^verbatim>\<open>x_sshListen\<close> and \<^verbatim>\<open>x_sshClose\<close> are what the tunnels use; a connection is a number.
  \<^verbatim>\<open>x_wsUpgrade\<close> turns a request into a WebSocket connection, or has answered it with an
  error; \<^verbatim>\<open>x_wire\<close> makes a call on an open connection, \<^verbatim>\<open>x_streamEvents\<close> and \<^verbatim>\<open>x_sessionEvents\<close> tell what
  happens in a shell session (the WebSocket and the shell's connection are given) until the
  browser's connection ends, and \<^verbatim>\<open>x_parseResize\<close> decodes the columns and the rows of a
  resize message; \<^verbatim>\<open>x_stat\<close> is \<^verbatim>\<open>os.Stat\<close>, telling a directory.
\<close>

record 'e ext =
  x_sql :: "'e \<Rightarrow> (fault \<times> int) \<times> 'e"
  x_order :: "'e \<Rightarrow> int list \<Rightarrow> int list"
  x_docker :: "'e docker_api"
  x_envoy :: envoy_lib
  x_newPort :: new_port
  x_notFound :: "goerr \<Rightarrow> bool"
  x_rand :: "nat \<Rightarrow> ('e, string) call"
  x_sha256 :: "string \<Rightarrow> string"
  x_newGCM :: "string \<Rightarrow> goerr + aead"
  x_keyPair :: "string \<Rightarrow> string \<Rightarrow> goerr option"
  x_certPool :: "string \<Rightarrow> bool"
  x_sshHelper :: "string \<Rightarrow> goerr + string"
  x_newClient :: "string \<Rightarrow> tls_material option \<Rightarrow> goerr option"
  x_authJSON :: "string \<Rightarrow> string \<Rightarrow> string \<Rightarrow> string option"
  x_bcrypt :: "string \<Rightarrow> ('e, string) call"
  x_bcryptOk :: "string \<Rightarrow> string \<Rightarrow> bool"
  x_clock :: "('e, int) call"
  x_newRequest :: "string \<Rightarrow> goerr option"
  x_httpGet :: "string \<Rightarrow> (string \<times> string) option \<Rightarrow> ('e, response) call"
  x_repositories :: "string \<Rightarrow> goerr + string list"
  x_tags :: "string \<Rightarrow> goerr + string list"
  x_jwtSign :: "string \<Rightarrow> claims \<Rightarrow> goerr + string"
  x_jwtParse :: "string \<Rightarrow> (signing_method \<Rightarrow> goerr + string) \<Rightarrow> ('e, claims) call"
  x_advJSON :: "advanced_spec \<Rightarrow> string"
  x_advParse :: "string \<Rightarrow> advanced_spec"
  x_envJSON :: "string list \<Rightarrow> string"
  x_envParse :: "string \<Rightarrow> string list"
  x_mkdirTemp :: "('e, string) call"
  x_gitClone :: "string \<Rightarrow> string \<Rightarrow> string \<Rightarrow> ('e, unit) call"
  x_tarDir :: "string \<Rightarrow> ('e, string) call"
  x_parseIP :: "string \<Rightarrow> bool"
  x_readFile :: "string \<Rightarrow> ('e, string) call"
  x_parseKey :: "string \<Rightarrow> goerr + string"
  x_sshDial :: "string \<Rightarrow> string \<Rightarrow> string \<Rightarrow> ('e, int) call"
  x_sshListen :: "int \<Rightarrow> string \<Rightarrow> ('e, unit) call"
  x_sshClose :: "int \<Rightarrow> ('e, unit) call"
  x_wsUpgrade :: "(int \<times> goerr, 'e, int) io"
  x_wire :: "wire_op \<Rightarrow> ('e, unit) call"
  x_streamEvents :: "int \<Rightarrow> int \<Rightarrow> 'e \<Rightarrow> stream_event list \<times> 'e"
  x_sessionEvents :: "int \<Rightarrow> int \<Rightarrow> 'e \<Rightarrow> session_event list \<times> 'e"
  x_parseResize :: "string \<Rightarrow> (int \<times> int) option"
  x_stat :: "string \<Rightarrow> ('e, bool) call"

text \<open>Go iterates over every key of a map exactly once, in some order.\<close>

definition order_ok :: "'e ext \<Rightarrow> bool" where
  "order_ok X \<longleftrightarrow> (\<forall>e ks. set (x_order X e ks) = set ks \<and> distinct (x_order X e ks))"

section \<open>The server's state\<close>

record 'e world =
  w_db :: db
  w_xds :: xds_manager
  w_clients :: "int \<rightharpoonup> client"
  w_next :: int
  w_helpers :: "int \<Rightarrow> string \<rightharpoonup> string"
  w_running :: "int \<rightharpoonup> int"
  w_ext :: 'e

text \<open>
  What the server was started with: the client of the local host, the secret box, and the
  settings its components read.
\<close>

record server =
  srv_local :: client
  srv_box :: aead
  srv_baseDomain :: string
  srv_jwtKey :: string
  srv_xdsAdvertise :: string
  srv_publicIPService :: string
  srv_sshKeyPath :: string
  srv_webDir :: string

type_synonym ('e, 'a) op = "(goerr, 'e world, 'a) io"

text \<open>A statement of the store, run through the driver.\<close>

definition sql :: "'e ext \<Rightarrow> 'a stmt \<Rightarrow> ('e, 'a) op" where
  "sql X q w =
     (case x_sql X (w_ext w) of ((f, now), e) \<Rightarrow>
        let (r, d) = q ((w_db w)\<lparr>db_now := now\<rparr>) in
        case f of
          FaultBefore err \<Rightarrow> (Inl err, w\<lparr>w_ext := e\<rparr>)
        | FaultAfter err \<Rightarrow> (Inl err, w\<lparr>w_db := d, w_ext := e\<rparr>)
        | NoFault \<Rightarrow> (r, w\<lparr>w_db := d, w_ext := e\<rparr>))"

text \<open>A call that only reaches the outside.\<close>

definition ext :: "('e, 'a) call \<Rightarrow> ('e, 'a) op" where
  "ext f w = (case f (w_ext w) of (r, e) \<Rightarrow> (r, w\<lparr>w_ext := e\<rparr>))"

text \<open>An operation of the snapshot cache.\<close>

definition on_xds :: "(goerr, xds_manager, 'a) io \<Rightarrow> ('e, 'a) op" where
  "on_xds f w = (case f (w_xds w) of (r, m) \<Rightarrow> (r, w\<lparr>w_xds := m\<rparr>))"

section \<open>What the three kinds of calls leave alone\<close>

lemma sql_frame [simp]:
  "w_xds (snd (sql X q w)) = w_xds w" "w_clients (snd (sql X q w)) = w_clients w"
  "w_next (snd (sql X q w)) = w_next w" "w_helpers (snd (sql X q w)) = w_helpers w"
  "w_running (snd (sql X q w)) = w_running w"
  by (simp_all add: sql_def split: prod.splits fault.splits)

lemma ext_frame [simp]:
  "w_db (snd (ext f w)) = w_db w" "w_xds (snd (ext f w)) = w_xds w"
  "w_clients (snd (ext f w)) = w_clients w" "w_next (snd (ext f w)) = w_next w"
  "w_helpers (snd (ext f w)) = w_helpers w" "w_running (snd (ext f w)) = w_running w"
  by (simp_all add: ext_def split: prod.splits)

lemma on_xds_frame [simp]:
  "w_db (snd (on_xds f w)) = w_db w" "w_clients (snd (on_xds f w)) = w_clients w"
  "w_next (snd (on_xds f w)) = w_next w" "w_helpers (snd (on_xds f w)) = w_helpers w"
  "w_running (snd (on_xds f w)) = w_running w" "w_ext (snd (on_xds f w)) = w_ext w"
  by (simp_all add: on_xds_def split: prod.splits)

text \<open>
  A statement that returned: it ran on the database at hand (with the clock moved on).
\<close>

lemma sql_Inr:
  assumes "sql X q w = (Inr x, w')"
  obtains d e now where "q ((w_db w)\<lparr>db_now := now\<rparr>) = (Inr x, d)" and "w' = w\<lparr>w_db := d, w_ext := e\<rparr>"
  using assms by (auto simp: sql_def Let_def split: prod.splits fault.splits)

lemma ext_Inr:
  assumes "ext f w = (Inr x, w')"
  obtains e where "f (w_ext w) = (Inr x, e)" and "w' = w\<lparr>w_ext := e\<rparr>"
  using assms by (auto simp: ext_def split: prod.splits)

lemma on_xds_Inr:
  assumes "on_xds f w = (Inr x, w')"
  obtains m where "f (w_xds w) = (Inr x, m)" and "w' = w\<lparr>w_xds := m\<rparr>"
  using assms by (auto simp: on_xds_def split: prod.splits)

lemma on_xds_Inr_iff:
  "on_xds f w = (Inr x, w') \<longleftrightarrow> (\<exists>m. f (w_xds w) = (Inr x, m) \<and> w' = w\<lparr>w_xds := m\<rparr>)"
  by (auto simp: on_xds_def split: prod.splits)

text \<open>
  The database after a statement: unchanged when the statement did not reach the server, else
  what the statement leaves.
\<close>

lemma sql_db:
  "w_db (snd (sql X q w)) = w_db w \<or> (\<exists>now. w_db (snd (sql X q w)) = snd (q ((w_db w)\<lparr>db_now := now\<rparr>)))"
proof -
  obtain f now e where x: "x_sql X (w_ext w) = ((f, now), e)" by (metis surj_pair)
  obtain r d where q: "q ((w_db w)\<lparr>db_now := now\<rparr>) = (r, d)" by (metis surj_pair)
  then have d: "snd (q ((w_db w)\<lparr>db_now := now\<rparr>)) = d" by simp
  from x q have "w_db (snd (sql X q w)) = w_db w \<or> w_db (snd (sql X q w)) = d"
    by (cases f) (simp_all add: sql_def)
  with d show ?thesis by blast
qed

lemma sql_same:
  assumes "\<And>d. f (snd (q d)) = f d" and "\<And>d n. f (d\<lparr>db_now := n\<rparr>) = f d"
  shows "f (w_db (snd (sql X q w))) = f (w_db w)"
  using sql_db [of X q w] assms by (elim disjE exE) simp_all

text \<open>A driver that always reaches the server and always brings the answer back.\<close>

definition faultless :: "'e ext \<Rightarrow> bool" where
  "faultless X \<longleftrightarrow> (\<forall>e. fst (fst (x_sql X e)) = NoFault)"

definition sql_time :: "'e ext \<Rightarrow> 'e world \<Rightarrow> int" where
  "sql_time X w = snd (fst (x_sql X (w_ext w)))"

lemma sql_faultless:
  assumes "faultless X"
  shows "sql X q w =
    (case q ((w_db w)\<lparr>db_now := sql_time X w\<rparr>) of (r, d) \<Rightarrow>
       (r, w\<lparr>w_db := d, w_ext := snd (x_sql X (w_ext w))\<rparr>))"
proof -
  obtain f n e where x: "x_sql X (w_ext w) = ((f, n), e)" by (metis surj_pair)
  with assms have "f = NoFault" by (metis faultless_def fst_conv)
  with x show ?thesis by (simp add: sql_def sql_time_def split: prod.splits)
qed

section \<open>Invariants of operations\<close>

text \<open>
  The three kinds of invariant the operations keep: the database's integrity, a property of
  the snapshot cache, and a property of everything but the outside.
\<close>

definition db_inv :: "'e world \<Rightarrow> bool" where
  "db_inv w \<longleftrightarrow> db_ok (w_db w)"

lemma db_inv_sql [io_keep]: "io_keeps db_ok q \<Longrightarrow> io_keeps db_inv (sql X q)"
  unfolding io_keeps_def db_inv_def
  by (auto simp: sql_def Let_def split: prod.splits fault.splits) (metis db_ok_now snd_conv)+

lemma db_inv_ext [io_keep, simp]: "io_keeps db_inv (ext f)"
  by (simp add: io_keeps_def db_inv_def)

lemma db_inv_on_xds [io_keep, simp]: "io_keeps db_inv (on_xds f)"
  by (simp add: io_keeps_def db_inv_def)

lemma db_inv_modify [io_keep]:
  "(\<And>w. w_db (f w) = w_db w) \<Longrightarrow> io_keeps db_inv (io_modify f)"
  by (simp add: io_keeps_def db_inv_def io_defs)

text \<open>Calls that only reach the outside keep every property of the server's own state.\<close>

definition ext_blind :: "('e world \<Rightarrow> bool) \<Rightarrow> bool" where
  "ext_blind I \<longleftrightarrow> (\<forall>w e. I (w\<lparr>w_ext := e\<rparr>) = I w)"

lemma ext_blind_ext: "ext_blind I \<Longrightarrow> io_keeps I (ext f)"
  by (auto simp: ext_blind_def io_keeps_def ext_def split: prod.splits)

section \<open>Ignored errors\<close>

text \<open>\<^verbatim>\<open>_ = m()\<close>.\<close>

definition quiet :: "('x, 's, 'a) io \<Rightarrow> ('y, 's, unit) io" where
  "quiet m = io_seq (io_try m) (io_ret ())"

lemma quiet_state: "snd (quiet m s) = snd (m s)"
  by (simp add: quiet_def io_defs split: prod.splits sum.splits)

lemma quiet_Inr [simp]: "quiet m s = (Inr x, t) \<longleftrightarrow> t = snd (m s)"
  by (auto simp: quiet_def io_defs split: prod.splits sum.splits)

lemma io_keeps_quiet [io_keep]: "io_keeps I m \<Longrightarrow> io_keeps I (quiet m)"
  by (simp add: quiet_def io_keep)

end
