(* ===== verification/Float64.thy ===== *)
theory Float64
  imports Complex_Main "HOL-Library.Log_Nat"
begin

text \<open>
  Go's \<^verbatim>\<open>float64\<close> as far as the autoscaler uses it: an arithmetic operation returns the
  exact rational result rounded to 53 significant bits, ties to the even neighbour.  The numbers
  that occur are quotients of 64-bit counters, small multiples of them and their sums, so
  neither the largest nor the smallest exponent of the format is reached and the values are
  finite rationals.
\<close>

section \<open>Rounding to an integer\<close>

definition round_even :: "rat \<Rightarrow> int" where
  "round_even x =
     (let f = \<lfloor>x\<rfloor>; r = x - of_int f in
      if r < 1 / 2 then f else if 1 / 2 < r then f + 1 else if even f then f else f + 1)"

lemma round_even_of_int [simp]: "round_even (of_int n) = n"
  by (simp add: round_even_def)

lemma round_even_mono:
  assumes "x \<le> y"
  shows "round_even x \<le> round_even y"
proof (cases "\<lfloor>x\<rfloor> = \<lfloor>y\<rfloor>")
  case True
  with assms show ?thesis by (auto simp: round_even_def Let_def)
next
  case False
  with assms floor_mono [OF assms] have "\<lfloor>x\<rfloor> + 1 \<le> \<lfloor>y\<rfloor>" by linarith
  then show ?thesis by (auto simp: round_even_def Let_def)
qed

lemma round_even_minus: "round_even (- x) = - round_even x"
proof (cases "x = of_int \<lfloor>x\<rfloor>")
  case True
  then obtain n where "x = of_int n" by blast
  then show ?thesis by (metis of_int_minus round_even_of_int)
next
  case False
  define f where "f = \<lfloor>x\<rfloor>"
  have f: "of_int f < x" "x < of_int f + 1"
    using False floor_correct [of x] by (auto simp: f_def less_le)
  then have "\<lfloor>- x\<rfloor> = - f - 1" by (intro floor_unique) auto
  with f show ?thesis by (auto simp: round_even_def Let_def f_def [symmetric])
qed

section \<open>The exponent of a number\<close>

text \<open>The power of two at or below the absolute value of a number that is not zero.\<close>

definition expo :: "rat \<Rightarrow> int" where
  "expo x = (case quotient_of \<bar>x\<bar> of (p, q) \<Rightarrow>
     let k = bitlen p - bitlen q in if 2 powi k \<le> \<bar>x\<bar> then k else k - 1)"

lemma powi_2_mono: "m \<le> n \<Longrightarrow> (2 :: rat) powi m \<le> 2 powi n"
  by (rule power_int_increasing) simp_all

lemma powi_2_less: "(2 :: rat) powi m < 2 powi n \<longleftrightarrow> m < n"
  by (metis linorder_not_less powi_2_mono power_int_strict_increasing one_less_numeral_iff semiring_norm(76))

lemma powi_2_Suc: "(2 :: rat) powi (n + 1) = 2 * 2 powi n"
  by (simp add: power_int_add_1)

lemma bitlen_powi:
  assumes "0 < p"
  shows "(2 :: rat) powi (bitlen p - 1) \<le> of_int p" "(of_int p :: rat) < 2 powi (bitlen p)"
proof -
  have "0 < bitlen p" using assms bitlen_eq_zero_iff [of p] bitlen_nonneg [of p] by linarith
  then have e: "(2 :: rat) powi (bitlen p - 1) = of_int (2 ^ nat (bitlen p - 1))"
      "(2 :: rat) powi (bitlen p) = of_int (2 ^ nat (bitlen p))"
    by (simp_all add: power_int_def)
  show "(2 :: rat) powi (bitlen p - 1) \<le> of_int p" "(of_int p :: rat) < 2 powi (bitlen p)"
    unfolding e of_int_le_iff of_int_less_iff using bitlen_bounds [OF assms] by simp_all
qed

lemma expo_bounds:
  assumes "x \<noteq> 0"
  shows "2 powi (expo x) \<le> \<bar>x\<bar>" "\<bar>x\<bar> < 2 powi (expo x + 1)"
proof -
  obtain p q where pq: "quotient_of \<bar>x\<bar> = (p, q)" by (cases "quotient_of \<bar>x\<bar>")
  then have x: "\<bar>x\<bar> = of_int p / of_int q" "0 < q"
    by (simp_all add: quotient_of_div quotient_of_denom_pos)
  with assms have p: "0 < p"
    by (metis zero_less_abs_iff zero_less_divide_iff of_int_0_less_iff less_asym)
  note P = bitlen_powi [OF p] and Q = bitlen_powi [OF \<open>0 < q\<close>]
  let ?k = "bitlen p - bitlen q"
  have Q0: "(0 :: rat) < of_int q" using \<open>0 < q\<close> by simp
  have m: "(2 :: rat) powi (?k - 1) * of_int q \<le> 2 powi (?k - 1) * 2 powi (bitlen q)"
    using Q(2) by (intro mult_left_mono) auto
  also have "\<dots> = 2 powi (bitlen p - 1)" by (subst power_int_add [symmetric]) simp_all
  also have "\<dots> \<le> of_int p" by (rule P)
  finally have lo: "2 powi (?k - 1) \<le> \<bar>x\<bar>" unfolding x(1) using Q0 by (simp add: pos_le_divide_eq)
  have "of_int p < (2 :: rat) powi (bitlen p)" by (rule P)
  also have "\<dots> = 2 powi (?k + 1) * 2 powi (bitlen q - 1)" by (subst power_int_add [symmetric]) simp_all
  also have "\<dots> \<le> 2 powi (?k + 1) * of_int q" using Q(1) by (intro mult_left_mono) auto
  finally have hi: "\<bar>x\<bar> < 2 powi (?k + 1)" unfolding x(1) using Q0 by (simp add: pos_divide_less_eq)
  from lo hi show "2 powi (expo x) \<le> \<bar>x\<bar>" "\<bar>x\<bar> < 2 powi (expo x + 1)"
    by (auto simp: expo_def pq Let_def)
qed

lemma expo_mono:
  assumes "x \<noteq> 0" "\<bar>x\<bar> \<le> \<bar>y\<bar>"
  shows "expo x \<le> expo y"
proof -
  from assms have "y \<noteq> 0" by auto
  with expo_bounds(1) [OF assms(1)] expo_bounds(2) [of y] assms(2)
  have "(2 :: rat) powi (expo x) < 2 powi (expo y + 1)" by linarith
  then show ?thesis by (simp add: powi_2_less)
qed

lemma expo_minus [simp]: "expo (- x) = expo x"
  by (simp add: expo_def)

section \<open>Rounding\<close>

definition fl :: "rat \<Rightarrow> rat" where
  "fl x = (if x = 0 then 0
     else let u = 2 powi (expo x - 52) in of_int (round_even (x / u)) * u)"

lemma fl_0 [simp]: "fl 0 = 0"
  by (simp add: fl_def)

lemma fl_minus: "fl (- x) = - fl x"
  by (simp add: fl_def Let_def round_even_minus)

text \<open>A number with at most 53 significant bits is not changed.\<close>

lemma fl_exact:
  assumes "\<bar>n\<bar> \<le> 2 ^ 53"
  shows "fl (of_int n * 2 powi e) = of_int n * 2 powi e"
proof (cases "n = 0")
  case False
  define x :: rat where "x = of_int n * 2 powi e"
  have x: "x \<noteq> 0" "\<bar>x\<bar> = of_int \<bar>n\<bar> * 2 powi e" using False by (simp_all add: x_def abs_mult)
  have "\<exists>m. x = of_int m * 2 powi (expo x - 52)"
  proof (cases "expo x - 52 \<le> e")
    case True
    then have "(2 :: rat) powi e = 2 ^ nat (e - (expo x - 52)) * 2 powi (expo x - 52)"
      by (simp add: power_int_add [symmetric] flip: power_int_of_nat)
    then have "x = of_int (n * 2 ^ nat (e - (expo x - 52))) * 2 powi (expo x - 52)"
      by (simp add: x_def)
    then show ?thesis by blast
  next
    case False
    have "(2 :: rat) powi (expo x) \<le> of_int \<bar>n\<bar> * 2 powi e" using expo_bounds(1) [OF x(1)] x(2) by simp
    also have "\<dots> \<le> 2 ^ 53 * 2 powi e"
      using assms by (intro mult_right_mono) (simp_all flip: of_int_abs add: of_int_le_iff [of _ "2 ^ 53", simplified])
    also have "\<dots> = 2 powi (53 + e)" by (simp add: power_int_add)
    finally have "expo x \<le> 53 + e" using powi_2_less [of "53 + e" "expo x"] by linarith
    with False have e: "expo x = 53 + e" by simp
    then have "2 ^ 53 * 2 powi e \<le> of_int \<bar>n\<bar> * (2 :: rat) powi e"
      using expo_bounds(1) [OF x(1)] x(2) by (simp add: power_int_add)
    then have "(2 :: rat) ^ 53 \<le> of_int \<bar>n\<bar>" by simp
    then have "2 ^ 53 \<le> \<bar>n\<bar>" by (metis of_int_le_iff of_int_numeral of_int_power)
    with assms have "n = 2 ^ 53 \<or> n = - (2 ^ 53)" by linarith
    then have "n = 2 * (n div 2)" by auto
    then have "x = of_int (n div 2) * 2 powi (e + 1)"
      unfolding x_def powi_2_Suc by (metis (no_types) mult.assoc mult.commute of_int_mult of_int_numeral)
    moreover have "e + 1 = expo x - 52" using e by simp
    ultimately show ?thesis by metis
  qed
  then obtain m where "x = of_int m * 2 powi (expo x - 52)" by blast
  then have "x / 2 powi (expo x - 52) = of_int m" by (metis nonzero_mult_div_cancel_right power_int_not_zero zero_neq_numeral)
  with x(1) \<open>x = of_int m * _\<close> have "fl x = x" by (simp add: fl_def Let_def)
  then show ?thesis by (simp add: x_def)
qed simp

lemmas fl_int = fl_exact [where e = 0, simplified]

lemma fl_nonneg: "0 \<le> x \<Longrightarrow> 0 \<le> fl x"
  using round_even_mono [of 0 "x / 2 powi (expo x - 52)"] round_even_of_int [of 0]
  by (simp add: fl_def Let_def)

lemma fl_powi: "fl (2 powi e) = 2 powi e"
  using fl_exact [of 1 e] by simp

text \<open>Rounding is monotone: within one binade by the monotonicity of the integer rounding, and across binades since it does not leave them.\<close>

lemma fl_binade:
  assumes "0 < x"
  shows "2 powi (expo x) \<le> fl x" "fl x \<le> 2 powi (expo x + 1)"
proof -
  let ?u = "(2 :: rat) powi (expo x - 52)"
  have u: "0 < ?u" by simp
  have b: "2 powi (expo x) \<le> x" "x \<le> 2 powi (expo x + 1)"
    using expo_bounds [of x] assms by simp_all
  have p: "(2 :: rat) powi (expo x) = of_int (2 ^ 52) * ?u" "(2 :: rat) powi (expo x + 1) = of_int (2 ^ 53) * ?u"
    using power_int_add [of "2 :: rat" 52 "expo x - 52"] power_int_add [of "2 :: rat" 53 "expo x - 52"]
    by (simp_all add: add.commute)
  have "of_int (2 ^ 52) \<le> x / ?u" "x / ?u \<le> of_int (2 ^ 53)"
    using b unfolding p using u by (simp_all add: pos_le_divide_eq pos_divide_le_eq)
  then have "2 ^ 52 \<le> round_even (x / ?u)" "round_even (x / ?u) \<le> 2 ^ 53"
    by (metis round_even_mono round_even_of_int)+
  then have "of_int (2 ^ 52) * ?u \<le> of_int (round_even (x / ?u)) * ?u"
      "of_int (round_even (x / ?u)) * ?u \<le> of_int (2 ^ 53) * ?u"
    using u by (simp_all only: mult_right_mono of_int_le_iff less_imp_le)
  with assms show "2 powi (expo x) \<le> fl x" "fl x \<le> 2 powi (expo x + 1)"
    unfolding p by (simp_all add: fl_def Let_def)
qed

lemma fl_mono_pos:
  assumes "0 < x" "x \<le> y"
  shows "fl x \<le> fl y"
proof (cases "expo x = expo y")
  case True
  have "round_even (x / 2 powi (expo y - 52)) \<le> round_even (y / 2 powi (expo y - 52))"
    using assms by (intro round_even_mono divide_right_mono) simp_all
  with assms True show ?thesis by (simp add: fl_def Let_def)
next
  case False
  with expo_mono [of x y] assms have "expo x + 1 \<le> expo y" by simp
  then have "(2 :: rat) powi (expo x + 1) \<le> 2 powi (expo y)" by (rule powi_2_mono)
  with fl_binade(2) [OF assms(1)] fl_binade(1) [of y] assms show ?thesis by linarith
qed

theorem fl_mono:
  assumes "x \<le> y"
  shows "fl x \<le> fl y"
proof -
  consider "0 < x" | "x \<le> 0" "0 \<le> y" | "y < 0" by linarith
  then show ?thesis
  proof cases
    case 1
    with assms show ?thesis by (intro fl_mono_pos)
  next
    case 2
    then have "0 \<le> fl y" "0 \<le> fl (- x)" by (simp_all add: fl_nonneg)
    then show ?thesis by (simp add: fl_minus)
  next
    case 3
    with assms have "fl (- y) \<le> fl (- x)" by (intro fl_mono_pos) simp_all
    then show ?thesis by (simp add: fl_minus)
  qed
qed

end
