(* ===== verification/DockerClient.thy ===== *)
theory DockerClient
  imports World Float64
begin

text \<open>
  The operations of \<^verbatim>\<open>docker.Client\<close> that create, inspect and replace containers,
  from \<^verbatim>\<open>docker/client.go\<close>, \<^verbatim>\<open>docker/manage.go\<close> and \<^verbatim>\<open>docker/edge.go\<close>.
  Each is a computation on the world whose only effects are calls of the Docker SDK.
\<close>

section \<open>Errors as text\<close>

text \<open>\<^verbatim>\<open>err.Error()\<close>.\<close>

fun errorString :: "goerr \<Rightarrow> string" where
  "errorString ErrNotFound = ''not found''"
| "errorString ErrForbidden = ''you do not have access to this resource''"
| "errorString (Err m) = m"
| "errorString (Wrap m e) = m @ '': '' @ errorString e"
| "errorString (Ext m) = m"

text \<open>\<^verbatim>\<open>strings.Contains\<close>.\<close>

fun containsStr :: "string \<Rightarrow> string \<Rightarrow> bool" where
  "containsStr [] t = (t = [])"
| "containsStr (c # cs) t = (hasPrefix (c # cs) t \<or> containsStr cs t)"

section \<open>Containers\<close>

definition ListContainers :: "'e ext \<Rightarrow> client \<Rightarrow> bool \<Rightarrow> ('e, summary list) op" where
  "ListContainers X c all = ext (da_containerList (x_docker X) c all '''')"

definition ListByLabel :: "'e ext \<Rightarrow> client \<Rightarrow> string \<Rightarrow> bool \<Rightarrow> ('e, summary list) op" where
  "ListByLabel X c label all = ext (da_containerList (x_docker X) c all label)"

definition Inspect :: "'e ext \<Rightarrow> client \<Rightarrow> string \<Rightarrow> ('e, inspect) op" where
  "Inspect X c i = ext (da_containerInspect (x_docker X) c i)"

definition ContainerStart :: "'e ext \<Rightarrow> client \<Rightarrow> string \<Rightarrow> ('e, unit) op" where
  "ContainerStart X c i = ext (da_containerStart (x_docker X) c i)"

definition ContainerStop :: "'e ext \<Rightarrow> client \<Rightarrow> string \<Rightarrow> ('e, unit) op" where
  "ContainerStop X c i = ext (da_containerStop (x_docker X) c i)"

definition ContainerRestart :: "'e ext \<Rightarrow> client \<Rightarrow> string \<Rightarrow> ('e, unit) op" where
  "ContainerRestart X c i = ext (da_containerRestart (x_docker X) c i)"

definition ContainerRemove :: "'e ext \<Rightarrow> client \<Rightarrow> string \<Rightarrow> ('e, unit) op" where
  "ContainerRemove X c i = ext (da_containerRemove (x_docker X) c i)"

definition ContainerCreate :: "'e ext \<Rightarrow> client \<Rightarrow> container_config \<Rightarrow> host_config
    \<Rightarrow> (string \<times> string) list \<Rightarrow> string \<Rightarrow> ('e, string) op" where
  "ContainerCreate X c cfg host nets name = ext (da_containerCreate (x_docker X) c cfg host nets name)"

text \<open>The pull and the draining of its progress stream.\<close>

definition PullImageAuth :: "'e ext \<Rightarrow> client \<Rightarrow> string \<Rightarrow> string \<Rightarrow> ('e, unit) op" where
  "PullImageAuth X c ref auth = ext (da_imagePull (x_docker X) c ref auth)"

definition PullImage :: "'e ext \<Rightarrow> client \<Rightarrow> string \<Rightarrow> ('e, unit) op" where
  "PullImage X c ref = PullImageAuth X c ref ''''"

definition RemoveImage :: "'e ext \<Rightarrow> client \<Rightarrow> string \<Rightarrow> bool \<Rightarrow> ('e, unit) op" where
  "RemoveImage X c i force = ext (da_imageRemove (x_docker X) c i force)"

text \<open>
  \<^verbatim>\<open>CPUPercent\<close>: the counters are converted to \<^verbatim>\<open>float64\<close>, and so is the result of
  every operation.
\<close>

definition cpu_percent :: "stats \<Rightarrow> rat" where
  "cpu_percent v =
     (let cpuDelta = fl (fl (of_int (st_cpuTotal v)) - fl (of_int (st_preCpuTotal v)));
          systemDelta = fl (fl (of_int (st_system v)) - fl (of_int (st_preSystem v)));
          online = fl (of_int (st_onlineCPUs v));
          onlineCPUs = (if online = 0 then fl (of_int (int (st_percpu v))) else online)
      in if systemDelta \<le> 0 \<or> onlineCPUs = 0 then 0
         else fl (fl (fl (cpuDelta / systemDelta) * onlineCPUs) * 100))"

definition CPUPercent :: "'e ext \<Rightarrow> client \<Rightarrow> string \<Rightarrow> ('e, rat) op" where
  "CPUPercent X c i = io_bind (ext (da_containerStats (x_docker X) c i)) (\<lambda>v. io_ret (cpu_percent v))"

text \<open>
  The streams of a container's log and of its statistics, and an interactive command with a
  terminal: the handle of its connection and the identifier of the command.
\<close>

definition Logs :: "'e ext \<Rightarrow> client \<Rightarrow> string \<Rightarrow> bool \<Rightarrow> ('e, int) op" where
  "Logs X c i follow = ext (da_containerLogs (x_docker X) c i
     \<lparr>lo_showStdout = True, lo_showStderr = True, lo_follow = follow, lo_tail = ''200'', lo_timestamps = False\<rparr>)"

definition Stats :: "'e ext \<Rightarrow> client \<Rightarrow> string \<Rightarrow> bool \<Rightarrow> ('e, int) op" where
  "Stats X c i stream = ext (da_statsStream (x_docker X) c i stream)"

definition Exec :: "'e ext \<Rightarrow> client \<Rightarrow> string \<Rightarrow> string list \<Rightarrow> ('e, int \<times> string) op" where
  "Exec X c i cmd =
     io_bind (ext (da_execTTYCreate (x_docker X) c i
       \<lparr>xo_cmd = cmd, xo_tty = True, xo_attachStdin = True, xo_attachStdout = True, xo_attachStderr = True\<rparr>)) (\<lambda>created.
     io_bind (ext (da_execTTYAttach (x_docker X) c created True)) (\<lambda>hijack. io_ret (hijack, created)))"

definition ExecResize :: "'e ext \<Rightarrow> client \<Rightarrow> string \<Rightarrow> int \<Rightarrow> int \<Rightarrow> ('e, unit) op" where
  "ExecResize X c execID rows cols = ext (x_wire X (ExecResizeCall c execID rows cols))"

definition ListImages :: "'e ext \<Rightarrow> client \<Rightarrow> ('e, string list) op" where
  "ListImages X c = ext (da_imageList (x_docker X) c)"

definition ListNetworks :: "'e ext \<Rightarrow> client \<Rightarrow> ('e, network list) op" where
  "ListNetworks X c = ext (da_networkList (x_docker X) c)"

definition ServerVersion :: "'e ext \<Rightarrow> client \<Rightarrow> ('e, string) op" where
  "ServerVersion X c = ext (da_serverVersion (x_docker X) c)"

definition Ping :: "'e ext \<Rightarrow> client \<Rightarrow> ('e, unit) op" where
  "Ping X c = ext (da_ping (x_docker X) c)"

text \<open>Create and start, the tail of \<^verbatim>\<open>Deploy\<close>.\<close>

definition create_start :: "'e ext \<Rightarrow> client \<Rightarrow> deploy_spec \<Rightarrow> container_config \<Rightarrow> host_config
    \<Rightarrow> ('e, string) op" where
  "create_start X c spec cfg host =
     io_bind (io_maperr (Wrap ''create container'')
        (ContainerCreate X c cfg host
           (if ds_network spec \<noteq> '''' then [(ds_network spec, '''')] else []) (ds_name spec)))
     (\<lambda>i. io_seq (io_maperr (Wrap ''start container'') (ContainerStart X c i)) (io_ret i))"

definition Deploy :: "'e ext \<Rightarrow> client \<Rightarrow> deploy_spec \<Rightarrow> ('e, string) op" where
  "Deploy X c spec =
     io_seq (quiet (PullImageAuth X c (ds_image spec) (ds_registryAuth spec)))
       (case deploy_config (x_newPort X) spec of
          Inl e \<Rightarrow> io_raise e
        | Inr (cfg, host) \<Rightarrow> create_start X c spec cfg host)"

section \<open>Usage of an owner\<close>

text \<open>\<^verbatim>\<open>info.Config.Labels[k]\<close> guarded by \<^verbatim>\<open>info.Config != nil\<close>.\<close>

definition config_label :: "inspect \<Rightarrow> string \<Rightarrow> string" where
  "config_label info k = (case in_config info of None \<Rightarrow> '''' | Some cfg \<Rightarrow> mget (cc_labels cfg) k)"

fun usage_loop :: "'e ext \<Rightarrow> client \<Rightarrow> string \<Rightarrow> summary list \<Rightarrow> int \<Rightarrow> int \<Rightarrow> ('e, int \<times> int) op" where
  "usage_loop X c excl [] nano mem = io_ret (nano, mem)"
| "usage_loop X c excl (s # ss) nano mem =
     io_bind (io_try (Inspect X c (su_id s))) (\<lambda>r. case r of
         Inl _ \<Rightarrow> usage_loop X c excl ss nano mem
       | Inr info \<Rightarrow>
           if excl \<noteq> '''' \<and> config_label info LabelService = excl
           then usage_loop X c excl ss nano mem
           else (case in_host info of
               None \<Rightarrow> usage_loop X c excl ss nano mem
             | Some h \<Rightarrow> usage_loop X c excl ss (i64 (nano + ho_nanoCPUs h)) (i64 (mem + ho_memory h))))"

definition OwnerUsageExcludingService :: "'e ext \<Rightarrow> client \<Rightarrow> string \<Rightarrow> string \<Rightarrow> ('e, int \<times> int) op" where
  "OwnerUsageExcludingService X c owner excl =
     io_bind (ListByLabel X c (LabelOwner @ ''='' @ owner) True)
       (\<lambda>list. usage_loop X c excl list 0 0)"

definition OwnerUsage :: "'e ext \<Rightarrow> client \<Rightarrow> string \<Rightarrow> ('e, int \<times> int) op" where
  "OwnerUsage X c owner = OwnerUsageExcludingService X c owner ''''"

section \<open>Networks\<close>

definition CreateNetwork :: "'e ext \<Rightarrow> client \<Rightarrow> string \<Rightarrow> string \<Rightarrow> (string \<rightharpoonup> string) \<Rightarrow> ('e, string) op" where
  "CreateNetwork X c name driver labels =
     ext (da_networkCreate (x_docker X) c name (if driver = '''' then ''bridge'' else driver) labels)"

definition RemoveNetwork :: "'e ext \<Rightarrow> client \<Rightarrow> string \<Rightarrow> ('e, unit) op" where
  "RemoveNetwork X c i = ext (da_networkRemove (x_docker X) c i)"

definition InspectNetwork :: "'e ext \<Rightarrow> client \<Rightarrow> string \<Rightarrow> ('e, network) op" where
  "InspectNetwork X c i = ext (da_networkInspect (x_docker X) c i)"

definition ConnectNetwork :: "'e ext \<Rightarrow> client \<Rightarrow> string \<Rightarrow> string \<Rightarrow> ('e, unit) op" where
  "ConnectNetwork X c networkID containerID = ext (da_networkConnect (x_docker X) c networkID containerID '''')"

definition DisconnectNetwork :: "'e ext \<Rightarrow> client \<Rightarrow> string \<Rightarrow> string \<Rightarrow> ('e, unit) op" where
  "DisconnectNetwork X c networkID containerID =
     ext (da_networkDisconnect (x_docker X) c networkID containerID)"

section \<open>Replacing a container\<close>

definition EditContainer :: "'e ext \<Rightarrow> client \<Rightarrow> string \<Rightarrow> deploy_spec \<Rightarrow> ('e, string) op" where
  "EditContainer X c i spec =
     io_bind (io_maperr (Wrap ''inspect'') (Inspect X c i)) (\<lambda>info.
       let name = trimPrefix (in_name info) ''/'';
           spec' = (if ds_name spec = '''' then spec\<lparr>ds_name := name\<rparr> else spec)
       in io_seq (quiet (ContainerStop X c i))
          (io_seq (io_maperr (Wrap ''remove old'') (ContainerRemove X c i)) (Deploy X c spec')))"

text \<open>
  The attachments of \<^verbatim>\<open>in_networks\<close> are in the order of the iteration over the map; the
  first is given at creation and the others are connected afterwards.
\<close>

definition recreate_from :: "'e ext \<Rightarrow> client \<Rightarrow> string \<Rightarrow> container_config \<Rightarrow> host_config
    \<Rightarrow> (string \<times> string) list \<Rightarrow> string \<Rightarrow> ('e, string) op" where
  "recreate_from X c i cfg host nets name =
     io_seq (quiet (ContainerStop X c i))
     (io_seq (io_maperr (Wrap ''remove old'') (ContainerRemove X c i))
     (io_bind (io_maperr (Wrap ''create new'') (ContainerCreate X c cfg host (take 1 nets) name)) (\<lambda>j.
       io_seq (io_foreach (\<lambda>(n, settings). quiet (ext (da_networkConnect (x_docker X) c n j settings))) (drop 1 nets))
       (io_seq (io_maperr (Wrap ''start new'') (ContainerStart X c j)) (io_ret j)))))"

definition Recreate :: "'e ext \<Rightarrow> client \<Rightarrow> string \<Rightarrow> string \<Rightarrow> string \<Rightarrow> ('e, string) op" where
  "Recreate X c i newImage auth =
     io_bind (io_maperr (Wrap ''inspect'') (Inspect X c i)) (\<lambda>info.
       case in_config info of
         None \<Rightarrow> io_raise (Err ''container has no config'')
       | Some cfg0 \<Rightarrow>
           let cfg = (if newImage \<noteq> '''' then cfg0\<lparr>cc_image := newImage\<rparr> else cfg0);
               host = (case in_host info of None \<Rightarrow> host_config_zero | Some h \<Rightarrow> h)
           in io_seq (quiet (PullImageAuth X c (cc_image cfg) auth))
                (recreate_from X c i cfg host (in_networks info) (trimPrefix (in_name info) ''/'')))"

section \<open>The edge proxy of a remote host\<close>

definition edgeEnvoyImage :: string where "edgeEnvoyImage = ''envoyproxy/envoy:v1.31-latest''"
definition EdgeContainerName :: string where "EdgeContainerName = ''easydeploy-edge-proxy''"
definition EdgeNetwork :: string where "EdgeNetwork = ''easydeploy-edge''"
definition LabelEdge :: string where "LabelEdge = ''easydeploy.edge''"
definition edgeBootstrapPath :: string where "edgeBootstrapPath = ''/bootstrap.yaml''"
definition edgeContainerPortS :: string where "edgeContainerPortS = ''10000''"

record edge_spec =
  es_nodeID :: string
  es_bootstrapYAML :: string
  es_hostPort :: int

record edge_status =
  et_present :: bool
  et_running :: bool
  et_hostPort :: int
  et_image :: string

definition ensureEdgeNetwork :: "'e ext \<Rightarrow> client \<Rightarrow> ('e, unit) op" where
  "ensureEdgeNetwork X c =
     io_bind (io_try (InspectNetwork X c EdgeNetwork)) (\<lambda>r. case r of
         Inr _ \<Rightarrow> io_ret ()
       | Inl _ \<Rightarrow> io_bind (io_try (CreateNetwork X c EdgeNetwork ''bridge'' Map.empty)) (\<lambda>r. case r of
             Inr _ \<Rightarrow> io_ret ()
           | Inl e \<Rightarrow> io_guard (containsStr (errorString e) ''already exists'') (Wrap ''create edge network'' e)))"

definition copyEdgeBootstrap :: "'e ext \<Rightarrow> client \<Rightarrow> string \<Rightarrow> string \<Rightarrow> ('e, unit) op" where
  "copyEdgeBootstrap X c i yaml =
     ext (da_copyTo (x_docker X) c i ''/'' (drop 1 edgeBootstrapPath) yaml)"

definition edge_config :: "edge_spec \<Rightarrow> string \<Rightarrow> container_config" where
  "edge_config spec port = config_zero\<lparr>cc_image := edgeEnvoyImage,
     cc_cmd := [''-c'', edgeBootstrapPath, ''--service-node'', es_nodeID spec, ''--service-cluster'', ''easydeploy''],
     cc_exposedPorts := {port}, cc_labels := [LabelManaged \<mapsto> ''true'', LabelEdge \<mapsto> ''true'']\<rparr>"

definition edge_host :: "int \<Rightarrow> string \<Rightarrow> host_config" where
  "edge_host hostPort port = host_config_zero\<lparr>ho_restartName := ''unless-stopped'',
     ho_portBindings := (\<lambda>_. [])(port := [\<lparr>pb_hostIP = ''0.0.0.0'', pb_hostPort = goItoa hostPort\<rparr>])\<rparr>"

text \<open>The Envoy image is pulled only when it is not there.\<close>

definition edge_pull :: "'e ext \<Rightarrow> client \<Rightarrow> ('e, unit) op" where
  "edge_pull X c =
     io_bind (io_try (ext (da_imageInspect (x_docker X) c edgeEnvoyImage) :: ('e, unit) op)) (\<lambda>r. case r of
         Inr _ \<Rightarrow> io_ret ()
       | Inl _ \<Rightarrow> quiet (PullImage X c edgeEnvoyImage))"

definition edge_create :: "'e ext \<Rightarrow> client \<Rightarrow> edge_spec \<Rightarrow> ('e, unit) op" where
  "edge_create X c spec =
     (case x_newPort X ''tcp'' edgeContainerPortS of
        Inl e \<Rightarrow> io_raise e
      | Inr port \<Rightarrow>
          io_bind (io_maperr (Wrap ''create edge proxy'')
             (ContainerCreate X c (edge_config spec port) (edge_host (es_hostPort spec) port)
                [(EdgeNetwork, '''')] EdgeContainerName)) (\<lambda>i.
          io_seq (io_maperr (Wrap ''write edge bootstrap'') (copyEdgeBootstrap X c i (es_bootstrapYAML spec)))
            (io_maperr (Wrap ''start edge proxy'') (ContainerStart X c i))))"

definition DeployEdge :: "'e ext \<Rightarrow> client \<Rightarrow> edge_spec \<Rightarrow> ('e, unit) op" where
  "DeployEdge X c spec0 =
     (if es_nodeID spec0 = '''' \<or> es_bootstrapYAML spec0 = ''''
      then io_raise (Err ''edge spec requires node id and bootstrap'')
      else let spec = (if es_hostPort spec0 \<le> 0 then spec0\<lparr>es_hostPort := 80\<rparr> else spec0) in
        io_seq (ensureEdgeNetwork X c)
        (io_seq (quiet (ContainerRemove X c EdgeContainerName))
        (io_seq (edge_pull X c) (edge_create X c spec))))"

text \<open>
  \<^verbatim>\<open>fmt.Sscanf (s, "%d", &v)\<close> into a zero variable: blanks are skipped, the longest
  signed digit string is read, and nothing is stored when there is none or it overflows.
\<close>

definition sscanf_d :: "string \<Rightarrow> int" where
  "sscanf_d s =
     (let t = dropWhile (\<lambda>c. c = CHR '' '' \<or> c = CHR 0x09) s;
          (neg, u) = (case t of
             c # cs \<Rightarrow> if c = CHR ''-'' then (True, cs) else if c = CHR ''+'' then (False, cs) else (False, t)
           | [] \<Rightarrow> (False, []))
      in case goAtoi ((if neg then ''-'' else '''') @ takeWhile is_digit u) of
           None \<Rightarrow> 0
         | Some n \<Rightarrow> n)"

definition edge_view :: "inspect \<Rightarrow> edge_status" where
  "edge_view info = \<lparr>et_present = True,
     et_running = (in_running info = Some True),
     et_hostPort = (case in_host info of
         None \<Rightarrow> 0
       | Some h \<Rightarrow> (case ho_portBindings h (edgeContainerPortS @ ''/tcp'') of
             [] \<Rightarrow> 0
           | b # _ \<Rightarrow> sscanf_d (pb_hostPort b))),
     et_image = edgeEnvoyImage\<rparr>"

definition EdgeStatus :: "'e ext \<Rightarrow> client \<Rightarrow> ('e, edge_status) op" where
  "EdgeStatus X c =
     io_bind (io_try (Inspect X c EdgeContainerName)) (\<lambda>r. case r of
         Inl e \<Rightarrow> if x_notFound X e then io_ret \<lparr>et_present = False, et_running = False, et_hostPort = 0, et_image = ''''\<rparr>
                  else io_raise e
       | Inr info \<Rightarrow> io_ret (edge_view info))"

definition RemoveEdge :: "'e ext \<Rightarrow> client \<Rightarrow> ('e, unit) op" where
  "RemoveEdge X c =
     io_bind (io_try (ContainerRemove X c EdgeContainerName)) (\<lambda>r. case r of
         Inl e \<Rightarrow> if x_notFound X e then io_ret () else io_raise e
       | Inr _ \<Rightarrow> io_ret ())"

section \<open>The server's own state is not touched\<close>

text \<open>
  Every operation above is made of calls to the outside, so it keeps each property of the
  world that does not look at the outside's state.
\<close>

lemmas docker_calls = ListContainers_def ListByLabel_def Inspect_def ContainerStart_def
  ContainerStop_def ContainerRestart_def ContainerRemove_def ContainerCreate_def
  PullImageAuth_def PullImage_def RemoveImage_def ServerVersion_def Ping_def CreateNetwork_def
  RemoveNetwork_def InspectNetwork_def ConnectNetwork_def DisconnectNetwork_def
  ListImages_def ListNetworks_def

named_theorems docker_keep \<open>docker operations keep what does not look at the outside\<close>

lemma Call_keeps [docker_keep]:
  assumes "ext_blind I"
  shows "io_keeps I (ListContainers X c b)" "io_keeps I (ListByLabel X c l b)"
    "io_keeps I (Inspect X c i)" "io_keeps I (ContainerStart X c i)"
    "io_keeps I (ContainerStop X c i)" "io_keeps I (ContainerRestart X c i)"
    "io_keeps I (ContainerRemove X c i)" "io_keeps I (ContainerCreate X c cfg host nets n)"
    "io_keeps I (PullImageAuth X c r a)" "io_keeps I (PullImage X c r)"
    "io_keeps I (RemoveImage X c i b)" "io_keeps I (ServerVersion X c)" "io_keeps I (Ping X c)"
    "io_keeps I (CreateNetwork X c n d ls)" "io_keeps I (RemoveNetwork X c i)"
    "io_keeps I (InspectNetwork X c i)" "io_keeps I (ConnectNetwork X c i j)"
    "io_keeps I (DisconnectNetwork X c i j)" "io_keeps I (ListImages X c)" "io_keeps I (ListNetworks X c)"
  using assms by (simp_all add: docker_calls ext_blind_ext)

lemma Deploy_keeps [docker_keep]: "ext_blind I \<Longrightarrow> io_keeps I (Deploy X c spec)"
  unfolding Deploy_def create_start_def
  by (intro io_keep docker_keep | assumption)+

lemma usage_loop_keeps [docker_keep]: "ext_blind I \<Longrightarrow> io_keeps I (usage_loop X c excl ss n m)"
proof (induction ss arbitrary: n m)
  case Nil
  then show ?case by simp
next
  case (Cons s ss)
  then show ?case
    unfolding usage_loop.simps
    by (intro io_keep docker_keep | assumption)+
qed

lemma OwnerUsage_keeps [docker_keep]:
  "ext_blind I \<Longrightarrow> io_keeps I (OwnerUsageExcludingService X c owner excl)"
  "ext_blind I \<Longrightarrow> io_keeps I (OwnerUsage X c owner)"
  unfolding OwnerUsageExcludingService_def OwnerUsage_def
  by (intro io_keep docker_keep | assumption)+

lemma EditContainer_keeps [docker_keep]: "ext_blind I \<Longrightarrow> io_keeps I (EditContainer X c i spec)"
  unfolding EditContainer_def Let_def
  by (intro io_keep docker_keep | assumption)+

lemma Recreate_keeps [docker_keep]: "ext_blind I \<Longrightarrow> io_keeps I (Recreate X c i img auth)"
  unfolding Recreate_def recreate_from_def Let_def case_prod_unfold
  by (intro io_keep docker_keep ext_blind_ext | assumption)+

lemma DeployEdge_keeps [docker_keep]: "ext_blind I \<Longrightarrow> io_keeps I (DeployEdge X c spec)"
  unfolding DeployEdge_def ensureEdgeNetwork_def edge_pull_def edge_create_def copyEdgeBootstrap_def Let_def
  by (intro io_keep docker_keep ext_blind_ext | assumption)+

lemma EdgeStatus_keeps [docker_keep]: "ext_blind I \<Longrightarrow> io_keeps I (EdgeStatus X c)"
  unfolding EdgeStatus_def
  by (intro io_keep docker_keep | assumption)+

lemma RemoveEdge_keeps [docker_keep]: "ext_blind I \<Longrightarrow> io_keeps I (RemoveEdge X c)"
  unfolding RemoveEdge_def
  by (intro io_keep docker_keep | assumption)+

lemma ext_blind_db_inv [simp, intro]: "ext_blind db_inv"
  by (simp add: ext_blind_def db_inv_def)

end
