(* ===== verification/Secret.thy ===== *)
theory Secret
  imports World
begin

text \<open>
  The encryption of secrets at rest, \<^verbatim>\<open>secret/secret.go\<close>, with the base64 coding it
  uses, and the contract the registry and endpoint managers rely on.  AES-GCM is a parameter
  of type \<^typ>\<open>aead\<close>.
\<close>

section \<open>Base64\<close>

definition stdAlphabet :: string where
  "stdAlphabet = ''ABCDEFGHIJKLMNOPQRSTUVWXYZabcdefghijklmnopqrstuvwxyz0123456789+/''"

definition urlAlphabet :: string where
  "urlAlphabet = ''ABCDEFGHIJKLMNOPQRSTUVWXYZabcdefghijklmnopqrstuvwxyz0123456789-_''"

text \<open>The four sextets of three bytes.\<close>

definition quad :: "nat \<Rightarrow> nat \<Rightarrow> nat \<Rightarrow> nat list" where
  "quad x y z = [x div 4, (x mod 4) * 16 + y div 16, (y mod 16) * 4 + z div 64, z mod 64]"

definition enc_quad :: "string \<Rightarrow> char \<Rightarrow> char \<Rightarrow> char \<Rightarrow> string" where
  "enc_quad a x y z = map (\<lambda>i. a ! i) (quad (code_of x) (code_of y) (code_of z))"

text \<open>\<^verbatim>\<open>EncodeToString\<close> of the padded encoding with alphabet \<^verbatim>\<open>a\<close>.\<close>

fun encode64 :: "string \<Rightarrow> string \<Rightarrow> string" where
  "encode64 a [] = []"
| "encode64 a [x] = take 2 (enc_quad a x (char_of (0 :: nat)) (char_of (0 :: nat))) @ ''==''"
| "encode64 a [x, y] = take 3 (enc_quad a x y (char_of (0 :: nat))) @ ''=''"
| "encode64 a (x # y # z # bs) = enc_quad a x y z @ encode64 a bs"

text \<open>The bytes of four sextets.\<close>

definition bytes3 :: "nat \<Rightarrow> nat \<Rightarrow> nat \<Rightarrow> nat \<Rightarrow> string" where
  "bytes3 p q r s = map char_of [p * 4 + q div 16, (q mod 16) * 16 + r div 4, (r mod 4) * 64 + s]"

definition sextets :: "string \<Rightarrow> string \<Rightarrow> nat list option" where
  "sextets a cs = those (map (indexByte a) cs)"

text \<open>
  \<^verbatim>\<open>DecodeString\<close>: line breaks are skipped, the length must be a multiple of four and the
  padding may only end the text.
\<close>

fun decode_quads :: "string \<Rightarrow> string \<Rightarrow> string option" where
  "decode_quads a (c # d # e # f # cs) =
     (if f = CHR ''='' then
        (if cs \<noteq> [] then None
         else if e = CHR ''='' then
           (case sextets a [c, d] of Some [p, q] \<Rightarrow> Some (take 1 (bytes3 p q 0 0)) | _ \<Rightarrow> None)
         else (case sextets a [c, d, e] of Some [p, q, r] \<Rightarrow> Some (take 2 (bytes3 p q r 0)) | _ \<Rightarrow> None))
      else (case sextets a [c, d, e, f] of
          Some [p, q, r, s] \<Rightarrow> map_option (\<lambda>bs. bytes3 p q r s @ bs) (decode_quads a cs)
        | _ \<Rightarrow> None))"
| "decode_quads a [] = Some []"
| "decode_quads a cs = None"

definition decode64 :: "string \<Rightarrow> string \<Rightarrow> goerr + string" where
  "decode64 a s =
     (case decode_quads a (filter (\<lambda>c. c \<noteq> CHR 0x0A \<and> c \<noteq> CHR 0x0D) s) of
        None \<Rightarrow> Inl (Err ''illegal base64 data'')
      | Some bs \<Rightarrow> Inr bs)"

section \<open>The box\<close>

definition NewBox :: "'e ext \<Rightarrow> string \<Rightarrow> goerr + aead" where
  "NewBox X masterKey =
     (if masterKey = '''' then Inl (Err ''secret: empty master key'')
      else x_newGCM X (x_sha256 X masterKey))"

definition seal_with :: "aead \<Rightarrow> string \<Rightarrow> string \<Rightarrow> string" where
  "seal_with b nonce plaintext = encode64 stdAlphabet (nonce @ ae_seal b nonce plaintext)"

definition Encrypt :: "'e ext \<Rightarrow> aead \<Rightarrow> string \<Rightarrow> ('e, string) op" where
  "Encrypt X b plaintext =
     (if plaintext = '''' then io_ret ''''
      else io_bind (ext (x_rand X (ae_nonceSize b))) (\<lambda>nonce. io_ret (seal_with b nonce plaintext)))"

definition Decrypt :: "aead \<Rightarrow> string \<Rightarrow> goerr + string" where
  "Decrypt b ciphertext =
     (if ciphertext = '''' then Inr ''''
      else case decode64 stdAlphabet ciphertext of
          Inl e \<Rightarrow> Inl e
        | Inr raw \<Rightarrow>
            if length raw < ae_nonceSize b then Inl (Err ''secret: ciphertext too short'')
            else (case ae_open b (take (ae_nonceSize b) raw) (drop (ae_nonceSize b) raw) of
                Inl e \<Rightarrow> Inl (Wrap ''secret: decrypt failed'' e)
              | Inr plain \<Rightarrow> Inr plain))"

text \<open>
  The documented laws of an AEAD and of the random source: opening undoes sealing under the
  same nonce, and a read returns as many bytes as were asked for.
\<close>

definition aead_ok :: "aead \<Rightarrow> bool" where
  "aead_ok b \<longleftrightarrow> (\<forall>n p. length n = ae_nonceSize b \<longrightarrow> ae_open b n (ae_seal b n p) = Inr p)"

definition rand_ok :: "'e ext \<Rightarrow> bool" where
  "rand_ok X \<longleftrightarrow> (\<forall>n e bs e'. x_rand X n e = (Inr bs, e') \<longrightarrow> length bs = n)"

section \<open>Base64 round trip\<close>

definition alphabet_ok :: "string \<Rightarrow> bool" where
  "alphabet_ok a \<longleftrightarrow> distinct a \<and> length a = 64 \<and> CHR ''='' \<notin> set a \<and>
     CHR 0x0A \<notin> set a \<and> CHR 0x0D \<notin> set a"

lemma stdAlphabet_ok [simp]: "alphabet_ok stdAlphabet"
  by (simp add: alphabet_ok_def stdAlphabet_def)

lemma urlAlphabet_ok [simp]: "alphabet_ok urlAlphabet"
  by (simp add: alphabet_ok_def urlAlphabet_def)

lemma indexByte_nth: "distinct xs \<Longrightarrow> i < length xs \<Longrightarrow> indexByte xs (xs ! i) = Some i"
proof (induction xs arbitrary: i)
  case Nil
  then show ?case by simp
next
  case (Cons x xs)
  then show ?case by (cases i) auto
qed

lemma alphabet_index: "alphabet_ok a \<Longrightarrow> i < 64 \<Longrightarrow> indexByte a (a ! i) = Some i"
  by (simp add: alphabet_ok_def indexByte_nth)

lemma alphabet_plain:
  assumes "alphabet_ok a" and "i < 64"
  shows "a ! i \<noteq> CHR ''=''" "a ! i \<noteq> CHR 0x0A" "a ! i \<noteq> CHR 0x0D"
  using assms by (simp_all add: alphabet_ok_def) (metis nth_mem)+

lemma quad_less: "x < 256 \<Longrightarrow> y < 256 \<Longrightarrow> z < 256 \<Longrightarrow> i \<in> set (quad x y z) \<Longrightarrow> i < 64"
  by (auto simp: quad_def)

lemma quad_bytes3:
  assumes "x < 256" "y < 256" "z < 256"
  shows "bytes3 (x div 4) ((x mod 4) * 16 + y div 16) ((y mod 16) * 4 + z div 64) (z mod 64) =
    map char_of [x, y, z]"
proof -
  from assms have "(x div 4) * 4 + ((x mod 4) * 16 + y div 16) div 16 = x" by simp
  moreover from assms have "(((x mod 4) * 16 + y div 16) mod 16) * 16 + ((y mod 16) * 4 + z div 64) div 4 = y"
    by simp
  moreover from assms have "(((y mod 16) * 4 + z div 64) mod 4) * 64 + z mod 64 = z" by simp
  ultimately show ?thesis by (simp only: bytes3_def list.map)
qed

lemma quad_facts:
  assumes "alphabet_ok a" "x < 256" "y < 256" "z < 256"
  shows "indexByte a (a ! (x div 4)) = Some (x div 4)"
    "indexByte a (a ! ((x mod 4) * 16 + y div 16)) = Some ((x mod 4) * 16 + y div 16)"
    "indexByte a (a ! ((y mod 16) * 4 + z div 64)) = Some ((y mod 16) * 4 + z div 64)"
    "indexByte a (a ! (z mod 64)) = Some (z mod 64)"
    "a ! ((y mod 16) * 4 + z div 64) \<noteq> CHR ''=''" "a ! (z mod 64) \<noteq> CHR ''=''"
proof -
  have b: "x div 4 < 64" "(x mod 4) * 16 + y div 16 < 64" "(y mod 16) * 4 + z div 64 < 64" "z mod 64 < 64"
    by (rule quad_less [OF assms(2-4)], simp add: quad_def)+
  show "indexByte a (a ! (x div 4)) = Some (x div 4)"
    by (rule alphabet_index [OF assms(1) b(1)])
  show "indexByte a (a ! ((x mod 4) * 16 + y div 16)) = Some ((x mod 4) * 16 + y div 16)"
    by (rule alphabet_index [OF assms(1) b(2)])
  show "indexByte a (a ! ((y mod 16) * 4 + z div 64)) = Some ((y mod 16) * 4 + z div 64)"
    by (rule alphabet_index [OF assms(1) b(3)])
  show "indexByte a (a ! (z mod 64)) = Some (z mod 64)"
    by (rule alphabet_index [OF assms(1) b(4)])
  show "a ! ((y mod 16) * 4 + z div 64) \<noteq> CHR ''=''" "a ! (z mod 64) \<noteq> CHR ''=''"
    by (rule alphabet_plain(1) [OF assms(1) b(3)], rule alphabet_plain(1) [OF assms(1) b(4)])
qed

lemma char_of_code_of [simp]: "char_of (code_of c) = c"
  by (simp add: code_of_def)

lemma decode_encode_quads:
  "alphabet_ok a \<Longrightarrow> decode_quads a (encode64 a bs) = Some bs"
proof (induction a bs rule: encode64.induct)
  case (1 a)
  show ?case by simp
next
  case (2 a x)
  note f = quad_facts [OF 2, of "code_of x" 0 0]
  have "take 1 (bytes3 (code_of x div 4) ((code_of x mod 4) * 16) 0 0) = [x]"
    using quad_bytes3 [of "code_of x" 0 0] by (simp add: bytes3_def)
  with f show ?case
    by (simp add: enc_quad_def quad_def sextets_def)
next
  case (3 a x y)
  note f = quad_facts [OF 3, of "code_of x" "code_of y" 0]
  have "take 2 (bytes3 (code_of x div 4) ((code_of x mod 4) * 16 + code_of y div 16)
      ((code_of y mod 16) * 4) 0) = [x, y]"
    using quad_bytes3 [of "code_of x" "code_of y" 0] by (simp add: numeral_2_eq_2)
  with f show ?case
    by (simp add: enc_quad_def quad_def sextets_def numeral_3_eq_3)
next
  case (4 a x y z bs)
  note f = quad_facts [OF 4(2), of "code_of x" "code_of y" "code_of z"]
  from 4 have "decode_quads a (encode64 a bs) = Some bs" by simp
  with f show ?case
    by (simp add: enc_quad_def quad_def sextets_def quad_bytes3)
qed

lemma set_enc_quad:
  assumes "alphabet_ok a"
  shows "set (enc_quad a x y z) \<subseteq> set a"
proof
  fix c
  assume "c \<in> set (enc_quad a x y z)"
  then obtain i where "i \<in> set (quad (code_of x) (code_of y) (code_of z))" and c: "c = a ! i"
    by (auto simp: enc_quad_def)
  then have "i < 64" by (auto intro: quad_less [OF code_of_less code_of_less code_of_less])
  with assms c show "c \<in> set a" by (simp add: alphabet_ok_def)
qed

lemma set_encode64: "alphabet_ok a \<Longrightarrow> set (encode64 a bs) \<subseteq> insert (CHR ''='') (set a)"
proof (induction a bs rule: encode64.induct)
  case (2 a x)
  from set_enc_quad [OF 2] show ?case by (auto dest!: in_set_takeD)
next
  case (3 a x y)
  from set_enc_quad [OF 3] show ?case by (auto dest!: in_set_takeD)
next
  case (4 a x y z bs)
  from set_enc_quad [OF 4(2)] 4 show ?case by auto
qed simp

lemma decode64_encode64:
  assumes "alphabet_ok a"
  shows "decode64 a (encode64 a bs) = Inr bs"
proof -
  have "filter (\<lambda>c. c \<noteq> CHR 0x0A \<and> c \<noteq> CHR 0x0D) (encode64 a bs) = encode64 a bs"
    using set_encode64 [OF assms] assms by (auto simp: filter_id_conv alphabet_ok_def)
  with assms show ?thesis by (simp add: decode64_def decode_encode_quads)
qed

lemma encode64_eq_Nil [simp]: "encode64 a bs = [] \<longleftrightarrow> bs = []"
  by (cases "(a, bs)" rule: encode64.cases) (auto simp: enc_quad_def quad_def)

section \<open>The contract of the box\<close>

text \<open>
  What the callers of the box rely on: what \<^verbatim>\<open>encrypts\<close> relates opens again, and the empty
  secret stays empty.
\<close>

locale secret_box =
  fixes good :: "'b \<Rightarrow> bool"
    and encrypts :: "'b \<Rightarrow> string \<Rightarrow> string \<Rightarrow> bool"
    and opens :: "'b \<Rightarrow> string \<Rightarrow> goerr + string"
  assumes opens_encrypts: "good b \<Longrightarrow> encrypts b p c \<Longrightarrow> opens b c = Inr p"
    and encrypts_Nil: "good b \<Longrightarrow> encrypts b [] c \<longleftrightarrow> c = []"
begin

lemma encrypts_inj: "good b \<Longrightarrow> encrypts b p c \<Longrightarrow> encrypts b q c \<Longrightarrow> p = q"
  using opens_encrypts [of b p c] opens_encrypts [of b q c] by simp

lemma encrypts_nonempty: "good b \<Longrightarrow> encrypts b p c \<Longrightarrow> p \<noteq> [] \<Longrightarrow> c \<noteq> []"
  using encrypts_inj encrypts_Nil by blast

lemma opens_empty: "good b \<Longrightarrow> opens b [] = Inr []"
  using opens_encrypts encrypts_Nil by blast

end

text \<open>\<^verbatim>\<open>c\<close> is a ciphertext \<^verbatim>\<open>Encrypt\<close> can return for \<^verbatim>\<open>p\<close>.\<close>

definition encrypts :: "aead \<Rightarrow> string \<Rightarrow> string \<Rightarrow> bool" where
  "encrypts b p c \<longleftrightarrow>
     (if p = [] then c = [] else \<exists>n. length n = ae_nonceSize b \<and> c = seal_with b n p)"

definition box_ok :: "aead \<Rightarrow> bool" where
  "box_ok b \<longleftrightarrow> aead_ok b \<and> 0 < ae_nonceSize b"

lemma Decrypt_seal_with:
  assumes "aead_ok b" and "length n = ae_nonceSize b" and "0 < ae_nonceSize b"
  shows "Decrypt b (seal_with b n p) = Inr p"
proof -
  have "seal_with b n p \<noteq> []" using assms(2,3) by (auto simp: seal_with_def)
  moreover have "decode64 stdAlphabet (seal_with b n p) = Inr (n @ ae_seal b n p)"
    by (simp add: seal_with_def decode64_encode64)
  ultimately show ?thesis using assms by (simp add: Decrypt_def aead_ok_def)
qed

interpretation box: secret_box box_ok encrypts Decrypt
proof
  fix b p c
  assume "box_ok b" and "encrypts b p c"
  then show "Decrypt b c = Inr p"
  proof (cases "p = []")
    case True
    with \<open>encrypts b p c\<close> show ?thesis by (simp add: encrypts_def Decrypt_def)
  next
    case False
    with \<open>encrypts b p c\<close> obtain n where "length n = ae_nonceSize b" "c = seal_with b n p"
      by (auto simp: encrypts_def)
    with \<open>box_ok b\<close> show ?thesis by (simp add: box_ok_def Decrypt_seal_with)
  qed
qed (simp add: encrypts_def)

lemma Encrypt_encrypts:
  assumes "Encrypt X b p w = (Inr c, w')" and "rand_ok X"
  shows "encrypts b p c"
proof (cases "p = []")
  case True
  with assms show ?thesis by (simp add: Encrypt_def encrypts_def)
next
  case False
  with assms(1) obtain n w1 where n: "ext (x_rand X (ae_nonceSize b)) w = (Inr n, w1)"
    and c: "c = seal_with b n p"
    by (auto simp: Encrypt_def io_inr)
  from n obtain e' where "x_rand X (ae_nonceSize b) (w_ext w) = (Inr n, e')"
    by (rule ext_Inr)
  with assms(2) have "length n = ae_nonceSize b" by (auto simp: rand_ok_def)
  with False c show ?thesis by (auto simp: encrypts_def)
qed

lemma Encrypt_keeps [io_keep]: "ext_blind I \<Longrightarrow> io_keeps I (Encrypt X b p)"
  unfolding Encrypt_def by (intro io_keep ext_blind_ext | assumption)+

lemma Encrypt_frame [simp]:
  "w_db (snd (Encrypt X b p w)) = w_db w" "w_xds (snd (Encrypt X b p w)) = w_xds w"
  "w_clients (snd (Encrypt X b p w)) = w_clients w"
  by (simp_all add: Encrypt_def io_bind_def io_ret_def ext_def split: prod.splits sum.splits)

end
