(* ===== verification/Sample.thy ===== *)
theory Sample
  imports DockerClient Secret
begin

text \<open>
  A concrete outside, on which the properties with hypotheses about the outside are applied:
  one Docker daemon that keeps its containers in a list, connections that record what is sent, a driver without faults, a map order
  that is the order of insertion, and an AEAD that does not hide anything.  It is only used to
  show that those hypotheses can hold together.
\<close>

record sim_container =
  sc_id :: string
  sc_name :: string
  sc_config :: container_config
  sc_host :: host_config
  sc_running :: bool

record sim =
  sm_containers :: "sim_container list"
  sm_wire :: "wire_op list"

definition sim_empty :: sim where
  "sim_empty = \<lparr>sm_containers = [], sm_wire = []\<rparr>"

text \<open>A reference is an identifier, or else a name.\<close>

definition sim_is :: "sim \<Rightarrow> string \<Rightarrow> sim_container \<Rightarrow> bool" where
  "sim_is s i k \<longleftrightarrow>
     (if list_ex (\<lambda>k. sc_id k = i) (sm_containers s) then sc_id k = i else sc_name k = i)"

definition errNoSuch :: goerr where "errNoSuch = Ext ''No such container''"

definition sim_label :: "string \<Rightarrow> sim_container \<Rightarrow> bool" where
  "sim_label l k \<longleftrightarrow> l = '''' \<or>
     (case indexByte l (CHR ''='') of
        None \<Rightarrow> cc_labels (sc_config k) l \<noteq> None
      | Some i \<Rightarrow> cc_labels (sc_config k) (take i l) = Some (drop (Suc i) l))"

definition sim_list :: "bool \<Rightarrow> string \<Rightarrow> (sim, summary list) call" where
  "sim_list all l s =
     (Inr (map (\<lambda>k. \<lparr>su_id = sc_id k, su_labels = cc_labels (sc_config k),
                     su_state = (if sc_running k then ''running'' else ''exited'')\<rparr>)
        (filter (\<lambda>k. (all \<or> sc_running k) \<and> sim_label l k) (sm_containers s))), s)"

definition sim_inspect :: "string \<Rightarrow> (sim, inspect) call" where
  "sim_inspect i s = (case find (sim_is s i) (sm_containers s) of
       None \<Rightarrow> (Inl errNoSuch, s)
     | Some k \<Rightarrow> (Inr \<lparr>in_id = sc_id k, in_name = CHR ''/'' # sc_name k, in_running = Some (sc_running k),
         in_config = Some (sc_config k), in_host = Some (sc_host k), in_networks = []\<rparr>, s))"

text \<open>A new identifier is longer than all others.\<close>

definition sim_create :: "container_config \<Rightarrow> host_config \<Rightarrow> string \<Rightarrow> (sim, string) call" where
  "sim_create cfg host name s =
     (if list_ex (\<lambda>k. sc_name k = name) (sm_containers s) then (Inl (Ext ''name in use''), s)
      else let i = CHR ''c'' # concat (map sc_id (sm_containers s)) in
        (Inr i, s\<lparr>sm_containers := sm_containers s @
           [\<lparr>sc_id = i, sc_name = name, sc_config = cfg, sc_host = host, sc_running = False\<rparr>]\<rparr>))"

definition sim_run :: "bool \<Rightarrow> string \<Rightarrow> (sim, unit) call" where
  "sim_run b i s =
     (if list_ex (sim_is s i) (sm_containers s)
      then (Inr (), s\<lparr>sm_containers := upd_rows (sim_is s i) (\<lambda>k. k\<lparr>sc_running := b\<rparr>) (sm_containers s)\<rparr>)
      else (Inl errNoSuch, s))"

definition sim_remove :: "string \<Rightarrow> (sim, unit) call" where
  "sim_remove i s =
     (if list_ex (sim_is s i) (sm_containers s)
      then (Inr (), s\<lparr>sm_containers := del_rows (sim_is s i) (sm_containers s)\<rparr>)
      else (Inl errNoSuch, s))"

definition sim_docker :: "sim docker_api" where
  "sim_docker = \<lparr>
     da_ping = (\<lambda>c. io_ret ()), da_serverVersion = (\<lambda>c. io_ret ''27.0''),
     da_containerList = (\<lambda>c all l. sim_list all l), da_containerInspect = (\<lambda>c i. sim_inspect i),
     da_containerCreate = (\<lambda>c cfg host nets name. sim_create cfg host name),
     da_containerStart = (\<lambda>c i. sim_run True i), da_containerStop = (\<lambda>c i. sim_run False i),
     da_containerRestart = (\<lambda>c i. sim_run True i), da_containerRemove = (\<lambda>c i. sim_remove i),
     da_imagePull = (\<lambda>c r a. io_ret ()), da_imageInspect = (\<lambda>c r. io_ret ()),
     da_imageList = (\<lambda>c. io_ret []), da_imageRemove = (\<lambda>c r b. io_ret ()),
     da_volumeCreate = (\<lambda>c n d l. io_ret \<lparr>vo_name = n, vo_driver = '''', vo_mountpoint = '''', vo_createdAt = '''', vo_labels = l\<rparr>),
     da_volumeRemove = (\<lambda>c n b. io_ret ()),
     da_volumeInspect = (\<lambda>c n. io_ret \<lparr>vo_name = n, vo_driver = '''', vo_mountpoint = '''', vo_createdAt = '''', vo_labels = Map.empty\<rparr>),
     da_volumeList = (\<lambda>c. io_ret []), da_diskUsage = (\<lambda>c. io_ret []),
     da_networkCreate = (\<lambda>c n d l. io_ret n), da_networkRemove = (\<lambda>c n. io_ret ()),
     da_networkInspect = (\<lambda>c n. io_ret \<lparr>ne_id = n, ne_name = n, ne_labels = Map.empty\<rparr>),
     da_networkList = (\<lambda>c. io_ret []), da_networkConnect = (\<lambda>c n i t. io_ret ()),
     da_networkDisconnect = (\<lambda>c n i. io_ret ()), da_execCreate = (\<lambda>c i cmd. io_ret i),
     da_execAttach = (\<lambda>c i. io_ret ('''', '''')), da_execExitCode = (\<lambda>c i. io_ret 0),
     da_copyTo = (\<lambda>c i d n b. io_ret ()), da_copyFrom = (\<lambda>c i f. io_ret ([], None)),
     da_containerStats = (\<lambda>c i. io_raise (Ext ''no stats'')),
     da_containerLogs = (\<lambda>c i lo. io_ret 1),
     da_statsStream = (\<lambda>c i b. io_ret 1), da_execTTYCreate = (\<lambda>c i xo. io_ret (''x'' @ i)),
     da_execTTYAttach = (\<lambda>c i b. io_ret 2),
     da_imageBuild = (\<lambda>c t d g. io_ret ([], None))\<rparr>"

definition sim_aead :: aead where
  "sim_aead = \<lparr>ae_nonceSize = 12, ae_seal = (\<lambda>n p. p), ae_open = (\<lambda>n c. Inr c)\<rparr>"

definition sim_ext :: "sim ext" where
  "sim_ext = \<lparr>x_sql = (\<lambda>e. ((NoFault, 0), e)), x_order = (\<lambda>e ks. remdups ks),
     x_docker = sim_docker, x_envoy = envoy_lib_plain,
     x_newPort = (\<lambda>proto p. Inr (p @ ''/'' @ proto)), x_notFound = (\<lambda>e. e = errNoSuch),
     x_rand = (\<lambda>n. io_ret (replicate n (CHR ''r''))), x_sha256 = (\<lambda>s. s),
     x_newGCM = (\<lambda>k. Inr sim_aead), x_keyPair = (\<lambda>c k. None), x_certPool = (\<lambda>c. True),
     x_sshHelper = (\<lambda>h. Inr h), x_newClient = (\<lambda>h t. None),
     x_authJSON = (\<lambda>u p a. Some (u @ '':'' @ p @ ''@'' @ a)),
     x_bcrypt = (\<lambda>p. io_ret (''hash:'' @ p)), x_bcryptOk = (\<lambda>h p. h = ''hash:'' @ p),
     x_clock = io_ret 0, x_newRequest = (\<lambda>u. None),
     x_httpGet = (\<lambda>u a. io_ret \<lparr>hr_code = 200, hr_status = ''200 OK'', hr_body = ''''\<rparr>),
     x_repositories = (\<lambda>b. Inr [b]), x_tags = (\<lambda>b. Inr [b]),
     x_jwtSign = (\<lambda>k c. Inr (cm_subject c)),
     x_jwtParse = (\<lambda>t kf. io_raise (Ext ''no tokens here'')),
     x_advJSON = (\<lambda>a. ''''), x_advParse = (\<lambda>s. advanced_zero),
     x_envJSON = joinWith [CHR 0x0A], x_envParse = splitChar (CHR 0x0A),
     x_mkdirTemp = io_ret ''/tmp/b'', x_gitClone = (\<lambda>d u b. io_ret ()), x_tarDir = io_ret,
     x_parseIP = (\<lambda>s. s \<noteq> ''''), x_readFile = (\<lambda>p. io_ret p), x_parseKey = Inr,
     x_sshDial = (\<lambda>a u k. io_ret (int (length a))), x_sshListen = (\<lambda>c a. io_ret ()),
     x_sshClose = (\<lambda>c. io_ret ()), x_wsUpgrade = io_ret 7, x_wire = (\<lambda>a. io_modify (\<lambda>s. s\<lparr>sm_wire := sm_wire s @ [a]\<rparr>)),
     x_streamEvents = (\<lambda>c h s. ([Piece ''started'', BrowserSpeaks, Piece ''ready'', BrowserLeft, Piece ''late''], s)),
     x_sessionEvents = (\<lambda>c h s. ([BrowserSends (BinaryFrame ''ls''), ShellOutput ''a b'', BrowserGone], s)),
     x_parseResize = (\<lambda>s. None), x_stat = (\<lambda>p. io_raise (Ext ''no such file''))\<rparr>"

definition sim_local :: client where
  "sim_local = \<lparr>cli_ref = 0, cli_host = '''', cli_tls = None\<rparr>"

definition sim_server :: server where
  "sim_server = \<lparr>srv_local = sim_local, srv_box = sim_aead, srv_baseDomain = ''apps.test'',
     srv_jwtKey = ''k'', srv_xdsAdvertise = ''10.0.0.1:18000'', srv_publicIPService = '''',
     srv_sshKeyPath = '''', srv_webDir = ''''\<rparr>"

definition sim_world :: "db \<Rightarrow> sim world" where
  "sim_world d = \<lparr>w_db = d, w_xds = NewManager ''edge'' ''apps.test'' 0, w_clients = Map.empty,
     w_next = 1, w_helpers = (\<lambda>_. Map.empty), w_running = Map.empty, w_ext = sim_empty\<rparr>"

section \<open>The hypotheses hold\<close>

lemma sim_order_ok [simp]: "order_ok sim_ext"
  by (simp add: order_ok_def sim_ext_def)

lemma sim_faultless [simp]: "faultless sim_ext"
  by (simp add: faultless_def sim_ext_def)

lemma sim_rand_ok [simp]: "rand_ok sim_ext"
  by (auto simp: rand_ok_def sim_ext_def io_ret_def)

lemma sim_box_ok [simp]: "box_ok (srv_box sim_server)"
  by (simp add: box_ok_def aead_ok_def sim_server_def sim_aead_def)

lemma sim_envoy_ok [simp]: "envoy_lib_ok (x_envoy sim_ext)"
  by (simp add: sim_ext_def)

lemma sim_ext_simps [simp]:
  "x_sql sim_ext e = ((NoFault, 0), e)" "x_order sim_ext e ks = remdups ks"
  "x_docker sim_ext = sim_docker" "x_envoy sim_ext = envoy_lib_plain"
  "x_newPort sim_ext proto p = Inr (p @ ''/'' @ proto)"
  by (simp_all add: sim_ext_def)

end
