(* ===== verification/Proxy.thy ===== *)
theory Proxy
  imports Sample
begin

text \<open>
  The route registry, \<^verbatim>\<open>proxy/registry.go\<close>: manual routes and the upstreams of services
  become match domains, are grouped by environment and published as one snapshot per Envoy
  node.  The control plane is used through the interface \<^verbatim>\<open>Snapshotter\<close> and the service
  manager through \<^verbatim>\<open>ServiceSource\<close>.
\<close>

section \<open>Names\<close>

text \<open>
  The loop of \<^verbatim>\<open>slug\<close> over the lower-cased, trimmed name.  Strings are bytes: the bytes of
  a character outside ASCII count as a run of non-alphanumeric characters.
\<close>

definition slug_char :: "char \<Rightarrow> bool" where
  "slug_char c \<longleftrightarrow> is_lower c \<or> is_digit c"

fun slug_loop :: "string \<Rightarrow> string \<Rightarrow> bool \<Rightarrow> string" where
  "slug_loop [] b prevDash = b"
| "slug_loop (c # cs) b prevDash =
     (if slug_char c then slug_loop cs (b @ [c]) False
      else if \<not> prevDash \<and> b \<noteq> [] then slug_loop cs (b @ ''-'') True
      else slug_loop cs b prevDash)"

definition slug :: "string \<Rightarrow> string" where
  "slug s =
     (let out = trimWith (\<lambda>c. c = CHR ''-'') (slug_loop (toLower (trimSpace s)) '''' False)
      in if out = '''' then ''host'' else out)"

section \<open>The upstreams\<close>

record service_upstream =
  sp_service :: string
  sp_subdomain :: string
  sp_hosts :: "string list"
  sp_port :: u32
  sp_endpointID :: int

text \<open>\<^verbatim>\<open>serverSlug\<close>: the local host and the slug of every environment.\<close>

definition serverSlug :: "endpoint list \<Rightarrow> int \<Rightarrow> string" where
  "serverSlug eps = fold (\<lambda>e m. m(ep_id e := slug (ep_name e))) eps ((\<lambda>_. '''')(0 := ''local''))"

definition slugName :: "endpoint list \<Rightarrow> int \<Rightarrow> string" where
  "slugName eps i = (let n = serverSlug eps i in if n = '''' then ''local'' else n)"

definition service_hosts :: "string \<Rightarrow> string \<Rightarrow> string \<Rightarrow> string \<Rightarrow> string list" where
  "service_hosts base name slg sub =
     (name @ ''.'' @ slg @ ''.'' @ base) # (if sub \<noteq> '''' then [sub @ ''.'' @ base] else [])"

definition svc_upstream :: "string \<Rightarrow> endpoint list \<Rightarrow> service_upstream \<Rightarrow> upstream" where
  "svc_upstream base eps u =
     (let slg = slugName eps (sp_endpointID u) in
      \<lparr>up_key = ''svc-'' @ slg @ ''-'' @ sp_service u, up_subdomain = sp_subdomain u,
       up_domains = service_hosts base (sp_service u) slg (sp_subdomain u),
       up_hosts = sp_hosts u, up_port = sp_port u, up_endpointID = sp_endpointID u\<rparr>)"

definition with_hosts :: "service_upstream list \<Rightarrow> service_upstream list" where
  "with_hosts us = filter (\<lambda>u. sp_hosts u \<noteq> []) us"

text \<open>\<^verbatim>\<open>svcSubs\<close>: the custom subdomains claimed by services.\<close>

definition svc_subs :: "service_upstream list \<Rightarrow> string set" where
  "svc_subs us = sp_subdomain ` set (filter (\<lambda>u. sp_subdomain u \<noteq> '''') us)"

definition route_upstream :: "string \<Rightarrow> route \<Rightarrow> upstream" where
  "route_upstream base rt =
     \<lparr>up_key = ''rt-'' @ rt_subdomain rt, up_subdomain = rt_subdomain rt,
      up_domains = [rt_subdomain rt @ ''.'' @ base], up_hosts = [rt_targetHost rt],
      up_port = word_of_int (rt_targetPort rt), up_endpointID = rt_endpointID rt\<rparr>"

text \<open>All upstreams: the services' first, then the manual routes no service claims.\<close>

definition all_upstreams :: "string \<Rightarrow> endpoint list \<Rightarrow> service_upstream list \<Rightarrow> route list \<Rightarrow> upstream list" where
  "all_upstreams base eps svcUps routes =
     (let us = with_hosts svcUps
      in map (svc_upstream base eps) us @
         map (route_upstream base) (filter (\<lambda>rt. rt_subdomain rt \<notin> svc_subs us) routes))"

definition byEnv :: "upstream list \<Rightarrow> int \<Rightarrow> upstream list" where
  "byEnv ups i = filter (\<lambda>u. up_endpointID u = i) ups"

definition node_ids :: "endpoint list \<Rightarrow> upstream list \<Rightarrow> int list" where
  "node_ids eps ups = remdups (0 # map ep_id eps @ map up_endpointID ups)"

section \<open>The operations\<close>

type_synonym 'e source = "('e, service_upstream list) op option"

definition source_upstreams :: "'e source \<Rightarrow> ('e, service_upstream list) op" where
  "source_upstreams src = (case src of None \<Rightarrow> io_ret [] | Some f \<Rightarrow> f)"

text \<open>One iteration of the last loop of \<^verbatim>\<open>publish\<close>.\<close>

definition push_node :: "'e ext \<Rightarrow> upstream list \<Rightarrow> int \<Rightarrow> (goerr, xds_manager, unit) io" where
  "push_node X ups i m = Update (x_envoy X) (NodeForEndpoint m i) (byEnv ups i) m"

definition publish :: "'e ext \<Rightarrow> server \<Rightarrow> 'e source \<Rightarrow> ('e, unit) op" where
  "publish X S src =
     io_bind (sql X ListEndpoints) (\<lambda>eps.
     io_bind (source_upstreams src) (\<lambda>svcUps.
     io_bind (sql X ListRoutes) (\<lambda>routes.
       let ups = all_upstreams (srv_baseDomain S) eps svcUps routes in
       io_bind (io_gets (\<lambda>w. x_order X (w_ext w) (node_ids eps ups))) (\<lambda>ids.
         io_foreach (\<lambda>i. on_xds (push_node X ups i)) ids))))"

definition Sync :: "'e ext \<Rightarrow> server \<Rightarrow> 'e source \<Rightarrow> ('e, unit) op" where
  "Sync X S src = publish X S src"

definition RouteList :: "'e ext \<Rightarrow> ('e, route list) op" where
  "RouteList X = sql X ListRoutes"

definition ServiceDomains :: "'e ext \<Rightarrow> server \<Rightarrow> string \<Rightarrow> string \<Rightarrow> int \<Rightarrow> ('e, string list) op" where
  "ServiceDomains X S service subdomain endpointID =
     io_bind (if endpointID \<noteq> 0
        then io_bind (io_try (sql X (GetEndpoint endpointID))) (\<lambda>r. io_ret (case r of
               Inl _ \<Rightarrow> ''local'' | Inr ep \<Rightarrow> slug (ep_name ep)))
        else io_ret ''local'')
     (\<lambda>slg. io_ret (service_hosts (srv_baseDomain S) service slg subdomain))"

definition Upsert :: "'e ext \<Rightarrow> server \<Rightarrow> 'e source \<Rightarrow> route \<Rightarrow> ('e, route) op" where
  "Upsert X S src route =
     (if rt_subdomain route = '''' then io_raise (Err ''subdomain is required'')
      else if rt_targetPort route \<le> 0 then io_raise (Err ''target port must be positive'')
      else io_bind (sql X (UpsertRoute route)) (\<lambda>saved.
           io_seq (publish X S src) (io_ret saved)))"

definition RouteDelete :: "'e ext \<Rightarrow> server \<Rightarrow> 'e source \<Rightarrow> string \<Rightarrow> ('e, unit) op" where
  "RouteDelete X S src subdomain = io_seq (sql X (DeleteRoute subdomain)) (publish X S src)"

section \<open>The interface of the control plane\<close>

text \<open>
  What the registry relies on: different environments have different nodes, an update
  publishes its upstreams at its node and nowhere else, and it does not rename nodes.
\<close>

locale snapshotter =
  fixes lib_ok :: "'l \<Rightarrow> bool"
    and good :: "'s \<Rightarrow> bool"
    and node :: "'s \<Rightarrow> int \<Rightarrow> string"
    and published :: "'s \<Rightarrow> string \<Rightarrow> upstream list \<Rightarrow> bool"
    and upd :: "'l \<Rightarrow> string \<Rightarrow> upstream list \<Rightarrow> (goerr, 's, unit) io"
  assumes node_inj: "good s \<Longrightarrow> node s i = node s j \<longleftrightarrow> i = j"
    and upd_here: "lib_ok l \<Longrightarrow> good s \<Longrightarrow> upd l n us s = (Inr x, s') \<Longrightarrow> published s' n us"
    and upd_other: "lib_ok l \<Longrightarrow> good s \<Longrightarrow> upd l n us s = (Inr x, s') \<Longrightarrow> m \<noteq> n \<Longrightarrow>
      published s m vs \<Longrightarrow> published s' m vs"
    and upd_good: "good s \<Longrightarrow> good (snd (upd l n us s))"
    and upd_node: "node (snd (upd l n us s)) = node s"
begin

text \<open>The loop that publishes a list of environments.\<close>

definition push :: "'l \<Rightarrow> (int \<Rightarrow> upstream list) \<Rightarrow> int list \<Rightarrow> (goerr, 's, unit) io" where
  "push l g is = io_foreach (\<lambda>i s. upd l (node s i) (g i) s) is"

lemma push_Cons:
  "push l g (i # is) s = (Inr x, t) \<Longrightarrow>
   \<exists>s'. upd l (node s i) (g i) s = (Inr (), s') \<and> push l g is s' = (Inr x, t)"
  by (auto simp: push_def io_inr)

lemma push_keeps_good: "good s \<Longrightarrow> push l g is s = (Inr x, t) \<Longrightarrow> good t \<and> node t = node s"
proof (induction "is" arbitrary: s)
  case Nil
  then show ?case by (simp add: push_def)
next
  case (Cons i "is")
  from push_Cons [OF Cons.prems(2)] obtain s' where u: "upd l (node s i) (g i) s = (Inr (), s')"
    and p: "push l g is s' = (Inr x, t)" by blast
  from u Cons.prems(1) upd_good [of s l "node s i" "g i"] upd_node [of l "node s i" "g i" s]
  have "good s'" and "node s' = node s" by simp_all
  with Cons.IH [OF _ p] show ?case by simp
qed

lemma push_keeps:
  assumes "lib_ok l" and "good s" and "push l g is s = (Inr x, t)" and "j \<notin> set is"
    and "published s (node s j) vs"
  shows "published t (node s j) vs"
  using assms(2-)
proof (induction "is" arbitrary: s)
  case Nil
  then show ?case by (simp add: push_def)
next
  case (Cons i "is")
  from push_Cons [OF Cons.prems(2)] obtain s' where u: "upd l (node s i) (g i) s = (Inr (), s')"
    and p: "push l g is s' = (Inr x, t)" by blast
  from u Cons.prems(1) upd_good [of s l "node s i" "g i"] upd_node [of l "node s i" "g i" s]
  have s': "good s'" "node s' = node s" by simp_all
  from Cons.prems(1,3) have "node s j \<noteq> node s i" by (simp add: node_inj)
  with upd_other [OF assms(1) Cons.prems(1) u] Cons.prems(4) s'(2)
  have "published s' (node s' j) vs" by simp
  with Cons.IH [OF s'(1) p] Cons.prems(3) s'(2) show ?case by simp
qed

lemma push_published:
  assumes "lib_ok l" and "good s" and "push l g is s = (Inr x, t)" and "distinct is" and "j \<in> set is"
  shows "published t (node s j) (g j)"
  using assms(2-)
proof (induction "is" arbitrary: s)
  case Nil
  then show ?case by simp
next
  case (Cons i "is")
  from push_Cons [OF Cons.prems(2)] obtain s' where u: "upd l (node s i) (g i) s = (Inr (), s')"
    and p: "push l g is s' = (Inr x, t)" by blast
  from u Cons.prems(1) upd_good [of s l "node s i" "g i"] upd_node [of l "node s i" "g i" s]
  have s': "good s'" "node s' = node s" by simp_all
  show ?case
  proof (cases "j = i")
    case True
    with Cons.prems(3) have "j \<notin> set is" by simp
    moreover have "published s' (node s' j) (g j)"
      using upd_here [OF assms(1) Cons.prems(1) u] True s'(2) by simp
    ultimately show ?thesis using push_keeps [OF assms(1) s'(1) p] s'(2) by simp
  next
    case False
    with Cons.prems Cons.IH [OF s'(1) p] s'(2) show ?thesis by simp
  qed
qed

end

text \<open>The control plane provides it.\<close>

definition published :: "xds_manager \<Rightarrow> string \<Rightarrow> upstream list \<Rightarrow> bool" where
  "published m n us \<longleftrightarrow> (\<exists>v. xm_cache m n = Some (mkSnapshot v us (xm_baseDomain m)))"

lemma NodeForEndpoint_Update [simp]: "NodeForEndpoint (snd (Update L n us m)) = NodeForEndpoint m"
  by (simp add: NodeForEndpoint_def fun_eq_iff)

interpretation xds: snapshotter envoy_lib_ok node_id_ok NodeForEndpoint published Update
proof
  fix s :: xds_manager and i j
  assume "node_id_ok s"
  then show "NodeForEndpoint s i = NodeForEndpoint s j \<longleftrightarrow> i = j" by (rule NodeForEndpoint_inj)
next
  fix l s n us x s'
  assume "envoy_lib_ok l" and "Update l n us s = (Inr x, s')"
  from Update_Inr [OF this(2,1)] show "published s' n us" by (auto simp: published_def)
next
  fix l s n us x s' m vs
  assume "envoy_lib_ok l" and u: "Update l n us s = (Inr x, s')" and "m \<noteq> n" and "published s m vs"
  with Update_Inr [OF u] show "published s' m vs" by (auto simp: published_def)
qed (simp_all add: node_id_ok_def)

section \<open>Publishing\<close>

lemma on_xds_foreach:
  "io_foreach (\<lambda>i. on_xds (f i)) is w = (Inr (), w') \<longleftrightarrow>
   (\<exists>m. io_foreach f is (w_xds w) = (Inr (), m) \<and> w' = w\<lparr>w_xds := m\<rparr>)"
proof (induction "is" arbitrary: w)
  case Nil
  then show ?case by auto
next
  case (Cons i "is")
  show ?case
    by (auto simp: io_inr Cons.IH on_xds_Inr_iff)
qed

lemma push_node_push: "io_foreach (push_node X ups) is = xds.push (x_envoy X) (byEnv ups) is"
proof -
  have "push_node X ups = (\<lambda>i s. Update (x_envoy X) (NodeForEndpoint s i) (byEnv ups i) s)"
    by (simp add: push_node_def fun_eq_iff)
  then show ?thesis by (simp add: xds.push_def)
qed

text \<open>
  \<^verbatim>\<open>inputs X src w eps svcUps routes w1\<close>: what the three reads of \<^verbatim>\<open>publish\<close> returned.
\<close>

definition inputs :: "'e ext \<Rightarrow> 'e source \<Rightarrow> 'e world \<Rightarrow> endpoint list \<Rightarrow> service_upstream list
    \<Rightarrow> route list \<Rightarrow> 'e world \<Rightarrow> bool" where
  "inputs X src w eps svcUps routes w' \<longleftrightarrow>
     (\<exists>w1 w2. sql X ListEndpoints w = (Inr eps, w1) \<and> source_upstreams src w1 = (Inr svcUps, w2) \<and>
        sql X ListRoutes w2 = (Inr routes, w'))"

lemma publish_Inr:
  "publish X S src w = (Inr x, w') \<Longrightarrow>
   \<exists>eps svcUps routes w1. inputs X src w eps svcUps routes w1 \<and>
     (let ups = all_upstreams (srv_baseDomain S) eps svcUps routes in
      \<exists>m. xds.push (x_envoy X) (byEnv ups) (x_order X (w_ext w1) (node_ids eps ups)) (w_xds w1) = (Inr x, m) \<and>
          w' = w1\<lparr>w_xds := m\<rparr>)"
  by (fastforce simp: publish_def inputs_def io_inr on_xds_foreach push_node_push Let_def)

lemma node_ids_set:
  "set (node_ids eps ups) = {0} \<union> ep_id ` set eps \<union> up_endpointID ` set ups"
  by (auto simp: node_ids_def)

text \<open>An environment without a node of its own id has no upstreams.\<close>

lemma byEnv_Nil: "i \<notin> set (node_ids eps ups) \<Longrightarrow> byEnv ups i = []"
  by (auto simp: node_ids_set byEnv_def filter_empty_conv)

section \<open>The slug\<close>

lemma slug_loop_chars:
  "set b \<subseteq> {c. slug_char c \<or> c = CHR ''-''} \<Longrightarrow> set (slug_loop cs b p) \<subseteq> {c. slug_char c \<or> c = CHR ''-''}"
  by (induction cs b p rule: slug_loop.induct) auto

lemma slug_chars: "set (slug s) \<subseteq> {c. slug_char c \<or> c = CHR ''-''}"
proof -
  have "set (slug_loop (toLower (trimSpace s)) [] False) \<subseteq> {c. slug_char c \<or> c = CHR ''-''}"
    by (rule slug_loop_chars) simp
  then have "set (trimWith (\<lambda>c. c = CHR ''-'') (slug_loop (toLower (trimSpace s)) [] False)) \<subseteq>
      {c. slug_char c \<or> c = CHR ''-''}"
    using set_trimWith by blast
  moreover have "set ''host'' \<subseteq> {c. slug_char c \<or> c = CHR ''-''}"
    by (simp add: slug_char_def is_lower_def code_of_def)
  ultimately show ?thesis by (simp add: slug_def Let_def)
qed

lemma slug_neq_Nil [simp]: "slug s \<noteq> []"
  by (simp add: slug_def Let_def)

lemma slug_ends: "hd (slug s) \<noteq> CHR ''-''" "last (slug s) \<noteq> CHR ''-''"
proof -
  let ?t = "slug_loop (toLower (trimSpace s)) [] False"
  have "trimWith (\<lambda>c. c = CHR ''-'') ?t \<noteq> [] \<Longrightarrow>
      hd (trimWith (\<lambda>c. c = CHR ''-'') ?t) \<noteq> CHR ''-'' \<and> last (trimWith (\<lambda>c. c = CHR ''-'') ?t) \<noteq> CHR ''-''"
    using trimWith_ends [of "\<lambda>c. c = CHR ''-''" ?t] by blast
  then show "hd (slug s) \<noteq> CHR ''-''" "last (slug s) \<noteq> CHR ''-''"
    by (auto simp: slug_def Let_def)
qed

lemma slugName_neq_Nil [simp]: "slugName eps i \<noteq> []"
  by (simp add: slugName_def Let_def)

lemma serverSlug_other: "i \<notin> ep_id ` set eps \<Longrightarrow> serverSlug eps i = (if i = 0 then ''local'' else '''')"
proof -
  assume i: "i \<notin> ep_id ` set eps"
  have "fold (\<lambda>e m. m(ep_id e := slug (ep_name e))) eps m i = m i" for m
    using i by (induction eps arbitrary: m) auto
  then show ?thesis by (simp add: serverSlug_def)
qed

lemma serverSlug_in:
  assumes "distinct (map ep_id eps)" and "e \<in> set eps"
  shows "serverSlug eps (ep_id e) = slug (ep_name e)"
proof -
  have "fold (\<lambda>e m. m(ep_id e := slug (ep_name e))) eps m (ep_id e) = slug (ep_name e)" for m
    using assms
  proof (induction eps arbitrary: m)
    case Nil
    then show ?case by simp
  next
    case (Cons f eps)
    have other: "i \<notin> ep_id ` set eps \<Longrightarrow> fold (\<lambda>e m. m(ep_id e := slug (ep_name e))) eps m i = m i" for i m
      by (induction eps arbitrary: m) auto
    from Cons show ?case
      by (cases "e \<in> set eps") (auto simp: other fun_upd_same simp del: fun_upd_apply)
  qed
  then show ?thesis by (simp add: serverSlug_def)
qed

section \<open>Keys\<close>

lemma upstreamKey_svc [simp]:
  "upstreamKey (svc_upstream base eps u) = ''svc-'' @ slugName eps (sp_endpointID u) @ ''-'' @ sp_service u"
  by (simp add: upstreamKey_def svc_upstream_def Let_def)

lemma upstreamKey_route [simp]: "upstreamKey (route_upstream base rt) = ''rt-'' @ rt_subdomain rt"
  by (simp add: upstreamKey_def route_upstream_def)

lemma up_endpointID_simps [simp]:
  "up_endpointID (svc_upstream base eps u) = sp_endpointID u"
  "up_endpointID (route_upstream base rt) = rt_endpointID rt"
  by (simp_all add: svc_upstream_def route_upstream_def Let_def)

lemma byEnv_all:
  "byEnv (all_upstreams base eps us rs) i =
     map (svc_upstream base eps) (filter (\<lambda>u. sp_endpointID u = i) (with_hosts us)) @
     map (route_upstream base) (filter (\<lambda>rt. rt_endpointID rt = i)
        (filter (\<lambda>rt. rt_subdomain rt \<notin> svc_subs (with_hosts us)) rs))"
  by (simp add: byEnv_def all_upstreams_def Let_def filter_map comp_def)

text \<open>
  Within one environment all services share the slug, so distinct service names and distinct
  route subdomains give distinct keys.
\<close>

lemma distinct_map_same_prefix:
  assumes "distinct (map f xs)" and "\<And>x. x \<in> set xs \<Longrightarrow> g x = p @ f x"
  shows "distinct (map g xs)"
proof -
  have "map g xs = map (\<lambda>y. p @ y) (map f xs)" using assms(2) by simp
  moreover have "distinct (map (\<lambda>y. p @ y) (map f xs))"
    using assms(1) by (simp add: distinct_map inj_on_def del: map_map)
  ultimately show ?thesis by metis
qed

lemma byEnv_keys_distinct:
  assumes "distinct (map sp_service us)" and "distinct (map rt_subdomain rs)"
  shows "distinct (map upstreamKey (byEnv (all_upstreams base eps us rs) i))"
proof -
  let ?us = "filter (\<lambda>u. sp_endpointID u = i) (with_hosts us)"
  let ?rs = "filter (\<lambda>rt. rt_endpointID rt = i) (filter (\<lambda>rt. rt_subdomain rt \<notin> svc_subs (with_hosts us)) rs)"
  have "distinct (map sp_service ?us)"
    unfolding with_hosts_def by (intro distinct_map_filter assms(1))
  then have "distinct (map (\<lambda>u. upstreamKey (svc_upstream base eps u)) ?us)"
    by (rule distinct_map_same_prefix [where p = "''svc-'' @ slugName eps i @ ''-''"]) auto
  moreover have "distinct (map rt_subdomain ?rs)"
    by (intro distinct_map_filter assms(2))
  then have "distinct (map (\<lambda>rt. upstreamKey (route_upstream base rt)) ?rs)"
    by (rule distinct_map_same_prefix [where p = "''rt-''"]) auto
  ultimately show ?thesis
    by (auto simp: byEnv_all comp_def)
qed

section \<open>Slugs are stable\<close>

text \<open>The output of the loop without its accumulator.\<close>

fun slug_out :: "string \<Rightarrow> bool \<Rightarrow> bool \<Rightarrow> string" where
  "slug_out [] n p = []"
| "slug_out (c # cs) n p =
     (if slug_char c then c # slug_out cs True False
      else if \<not> p \<and> n then CHR ''-'' # slug_out cs True True
      else slug_out cs n p)"

lemma slug_loop_out: "slug_loop cs b p = b @ slug_out cs (b \<noteq> []) p"
  by (induction cs b p rule: slug_loop.induct) auto

text \<open>Slug characters with single hyphens between them (\<^verbatim>\<open>p\<close>: after a hyphen or at the start).\<close>

fun tidy :: "bool \<Rightarrow> string \<Rightarrow> bool" where
  "tidy p [] = True"
| "tidy p (c # cs) = (if slug_char c then tidy False cs else c = CHR ''-'' \<and> \<not> p \<and> tidy True cs)"

lemma not_slug_hyphen [simp]: "\<not> slug_char CHR ''-''"
  by (simp add: slug_char_def is_lower_def is_digit_def code_of_def)

lemma tidy_slug_out: "tidy (p \<or> \<not> n) (slug_out cs n p)"
  by (induction cs n p rule: slug_out.induct) auto

lemma slug_out_tidy: "tidy (p \<or> \<not> n) t \<Longrightarrow> slug_out t n p = t"
proof (induction t arbitrary: n p)
  case Nil
  then show ?case by simp
next
  case (Cons c t)
  show ?case
  proof (cases "slug_char c")
    case True
    with Cons.prems Cons.IH [of False True] show ?thesis by simp
  next
    case False
    with Cons.prems Cons.IH [of True True] show ?thesis by auto
  qed
qed

lemma tidy_prefix: "tidy p (s @ t) \<Longrightarrow> tidy p s"
  by (induction s arbitrary: p) (auto split: if_splits)

lemma tidy_start: "tidy True t \<Longrightarrow> t \<noteq> [] \<Longrightarrow> hd t \<noteq> CHR ''-''"
  by (cases t) (auto split: if_splits)

lemma trimWith_prefix: "t = [] \<or> \<not> P (hd t) \<Longrightarrow> \<exists>u. t = trimWith P t @ u"
proof -
  assume "t = [] \<or> \<not> P (hd t)"
  then have "dropWhile P t = t" by (cases t) auto
  moreover have "rev t = takeWhile P (rev t) @ dropWhile P (rev t)" by simp
  then have "t = rev (dropWhile P (rev t)) @ rev (takeWhile P (rev t))"
    by (metis rev_append rev_rev_ident)
  ultimately show ?thesis by (metis trimWith_def)
qed

lemma tidy_slug: "tidy True (slug s)"
proof -
  let ?t = "slug_loop (toLower (trimSpace s)) [] False"
  have t: "tidy True ?t"
    using tidy_slug_out [of False False] by (simp add: slug_loop_out)
  then obtain u where "?t = trimWith (\<lambda>c. c = CHR ''-'') ?t @ u"
    using trimWith_prefix [of ?t "\<lambda>c. c = CHR ''-''"] tidy_start by blast
  with t have "tidy True (trimWith (\<lambda>c. c = CHR ''-'') ?t)" by (metis tidy_prefix)
  moreover have "tidy True ''host''" by (simp add: slug_char_def is_lower_def code_of_def)
  ultimately show ?thesis unfolding slug_def Let_def by (simp only: split: if_split) simp
qed

lemma slug_char_stable: "slug_char c \<or> c = CHR ''-'' \<Longrightarrow> \<not> is_space c \<and> lower_char c = c"
  by (auto simp: slug_char_def is_lower_def is_digit_def is_space_def lower_char_def is_upper_def code_of_def)

lemma slug_idem: "slug (slug s) = slug s"
proof -
  have st: "\<not> is_space c \<and> lower_char c = c" if "c \<in> set (slug s)" for c
    using that slug_chars [of s] by (intro slug_char_stable) auto
  then have low: "toLower (slug s) = slug s" by (simp add: toLower_def map_idI)
  have "trimSpace (slug s) = slug s"
    unfolding trimSpace_def using st hd_in_set [of "slug s"] last_in_set [of "slug s"]
    by (intro trimWith_id) auto
  with low have "slug_loop (toLower (trimSpace (slug s))) [] False = slug s"
    using slug_out_tidy [of False False "slug s"] tidy_slug [of s] by (simp add: slug_loop_out)
  moreover have "trimWith (\<lambda>c. c = CHR ''-'') (slug s) = slug s"
    using slug_ends [of s] by (intro trimWith_id) simp
  ultimately show ?thesis by (simp add: slug_def [of "slug s"] Let_def)
qed

section \<open>Automatic addresses\<close>

definition plain_name :: "string \<Rightarrow> bool" where
  "plain_name s \<longleftrightarrow> CHR ''.'' \<notin> set s"

lemma dotted_prefix_unique:
  assumes "plain_name p" "plain_name q" and "p @ ''.'' @ s = q @ ''.'' @ t"
  shows "p = q"
proof -
  from assms(1,3) have "indexByte (q @ ''.'' @ t) CHR ''.'' = Some (length p)"
    by (metis append_Cons append_Nil indexByte_append plain_name_def)
  moreover from assms(2) have "indexByte (q @ ''.'' @ t) CHR ''.'' = Some (length q)"
    by (simp add: indexByte_append plain_name_def)
  ultimately have "length p = length q" by simp
  with assms(3) show ?thesis by simp
qed

lemma slugName_plain: "plain_name (slugName eps i)"
proof -
  have h: "plain_name (slug s)" for s
    using slug_chars [of s] by (auto simp: plain_name_def slug_char_def is_lower_def is_digit_def code_of_def)
  have "plain_name (fold (\<lambda>e m. m(ep_id e := slug (ep_name e))) eps m i)" if "plain_name (m i)" for m
    using that
  proof (induction eps arbitrary: m)
    case (Cons e eps)
    then show ?case by (cases "ep_id e = i") (simp_all add: h)
  qed simp
  then have "plain_name (serverSlug eps i)" by (simp add: serverSlug_def plain_name_def)
  then show ?thesis by (simp add: slugName_def Let_def plain_name_def)
qed

definition autoHost :: "string \<Rightarrow> endpoint list \<Rightarrow> service_upstream \<Rightarrow> string" where
  "autoHost base eps u = sp_service u @ ''.'' @ slugName eps (sp_endpointID u) @ ''.'' @ base"

lemma not_port_pattern: "base \<noteq> [] \<Longrightarrow> last base \<noteq> CHR ''*'' \<Longrightarrow> p @ ''.'' @ base \<noteq> d @ '':*''"
  by (metis append_is_Nil_conv last.simps last_appendR list.distinct(1))

lemma not_pattern_mem:
  "(\<And>d. h \<noteq> d @ '':*'') \<Longrightarrow> h \<in> set (concat (map (\<lambda>d. [d, d @ '':*'']) ds)) \<longleftrightarrow> h \<in> set ds"
  by (induction ds) auto

lemma autoHost_matches:
  assumes "base \<noteq> []" "last base \<noteq> CHR ''*''" "plain_name (sp_service u)" "plain_name (sp_service v)"
    and "sp_subdomain v = [] \<or> plain_name (sp_subdomain v)" "sp_endpointID v = sp_endpointID u"
  shows "autoHost base eps u \<in> set (matchDomains (svc_upstream base eps v) base) \<longleftrightarrow>
    sp_service v = sp_service u"
proof -
  let ?slg = "slugName eps (sp_endpointID u)"
  have doms: "matchSource (svc_upstream base eps v) base =
      service_hosts base (sp_service v) ?slg (sp_subdomain v)"
    by (simp add: matchSource_def svc_upstream_def service_hosts_def Let_def assms(6))
  have np: "autoHost base eps u \<noteq> d @ '':*''" for d
    using not_port_pattern [OF assms(1,2), of "sp_service u @ ''.'' @ ?slg"] by (simp add: autoHost_def)
  have "autoHost base eps u \<noteq> sp_subdomain v @ ''.'' @ base" if "sp_subdomain v \<noteq> []"
  proof
    assume eq: "autoHost base eps u = sp_subdomain v @ ''.'' @ base"
    then have "(sp_service u @ ''.'' @ ?slg) @ ''.'' @ base = sp_subdomain v @ ''.'' @ base"
      by (simp add: autoHost_def)
    then have "sp_service u @ ''.'' @ ?slg = sp_subdomain v" by simp
    moreover have "plain_name (sp_subdomain v)" using that assms(5) by simp
    ultimately show False unfolding plain_name_def by (metis in_set_conv_decomp append_Cons append_Nil)
  qed
  moreover have "autoHost base eps u = sp_service v @ ''.'' @ ?slg @ ''.'' @ base \<longleftrightarrow> sp_service v = sp_service u"
    by (auto simp: autoHost_def)
  ultimately show ?thesis
    unfolding matchDomains_def doms not_pattern_mem [OF np] by (auto simp: service_hosts_def)
qed

section \<open>Properties\<close>

text \<open>
  C7: publishing reaches every node.  Let the configured node id not start like a generated one, the
  source of services leave the control plane alone, and \<^verbatim>\<open>SetSnapshot\<close> have its documented effect.
  When \<^verbatim>\<open>publish\<close> returns, the snapshot of every
  environment (the local host, each stored environment, and any environment an upstream names)
  is built from exactly the upstreams of that environment; one without upstreams gets an empty
  snapshot.  The upstreams are those of the services that have a host, followed by the stored manual
  routes whose subdomain none of these services has.
\<close>

theorem publish_reaches_every_node:
  assumes "envoy_lib_ok (x_envoy X)" "order_ok X" "node_id_ok (w_xds w)"
    and "\<And>w. w_xds (snd (source_upstreams src w)) = w_xds w"
    and "publish X S src w = (Inr x, w')"
  shows "\<exists>eps svcUps routes w1. inputs X src w eps svcUps routes w1 \<and> w_db w' = w_db w1 \<and>
    (let ups = all_upstreams (srv_baseDomain S) eps svcUps routes in
     \<forall>i \<in> {0} \<union> ep_id ` set eps \<union> up_endpointID ` set ups.
       published (w_xds w') (NodeForEndpoint (w_xds w') i) (byEnv ups i))"
proof -
  from publish_Inr [OF assms(5)] obtain eps svcUps routes w1 m where inp: "inputs X src w eps svcUps routes w1"
    and p: "xds.push (x_envoy X) (byEnv (all_upstreams (srv_baseDomain S) eps svcUps routes))
        (x_order X (w_ext w1) (node_ids eps (all_upstreams (srv_baseDomain S) eps svcUps routes))) (w_xds w1)
        = (Inr x, m)" (is "xds.push _ (byEnv ?ups) ?is _ = _")
    and w': "w' = w1\<lparr>w_xds := m\<rparr>"
    by (auto simp: Let_def)
  from inp have "w_xds w1 = w_xds w"
    unfolding inputs_def by (metis sql_frame(1) assms(4) snd_conv)
  with assms(3) have ok: "node_id_ok (w_xds w1)" by simp
  have "published m (NodeForEndpoint (w_xds w1) i) (byEnv ?ups i)"
    if "i \<in> {0} \<union> ep_id ` set eps \<union> up_endpointID ` set ?ups" for i
    using xds.push_published [OF assms(1) ok p] that assms(2) by (simp add: order_ok_def node_ids_set)
  moreover have "NodeForEndpoint m = NodeForEndpoint (w_xds w1)"
    using xds.push_keeps_good [OF ok p] by simp
  moreover have "w_db w' = w_db w1" "w_xds w' = m" by (simp_all add: w')
  ultimately show ?thesis
    by (intro exI [of _ eps] exI [of _ svcUps] exI [of _ routes] exI [of _ w1]) (use inp in \<open>simp add: Let_def\<close>)
qed

text \<open>A service and two routes on the local host, one of them to the service's subdomain, and an idle environment.\<close>

definition sim_mix_ups :: "service_upstream list" where
  "sim_mix_ups = [\<lparr>sp_service = ''web'', sp_subdomain = ''www'', sp_hosts = [''web-0''], sp_port = 80, sp_endpointID = 0\<rparr>]"

definition sim_mix_route :: "string \<Rightarrow> route" where
  "sim_mix_route sub = \<lparr>rt_id = 1, rt_subdomain = sub, rt_containerID = [], rt_targetHost = ''h'', rt_targetPort = 8080,
     rt_endpointID = 0, rt_createdAt = 0\<rparr>"

definition sim_mix_db :: db where
  "sim_mix_db = db_empty\<lparr>db_routes := [sim_mix_route ''api'', sim_mix_route ''www''],
     db_endpoints := [\<lparr>ep_id = 1, ep_name = ''lab'', ep_host = ''tcp://h'', ep_tlsCAEnc = [], ep_tlsCertEnc = [],
       ep_tlsKeyEnc = [], ep_tls = False, ep_createdAt = 0\<rparr>]\<rparr>"

theorem publish_reaches_every_node_witness:
  "\<exists>x w'. publish sim_ext sim_server (Some (io_ret sim_mix_ups)) (sim_world sim_mix_db) = (Inr x, w') \<and>
     published (w_xds w') (NodeForEndpoint (w_xds w') 0)
       [svc_upstream (srv_baseDomain sim_server) [] (hd sim_mix_ups), route_upstream (srv_baseDomain sim_server) (sim_mix_route ''api'')] \<and>
     published (w_xds w') (NodeForEndpoint (w_xds w') 1) []"
proof -
  let ?src = "Some (io_ret sim_mix_ups) :: sim source" and ?w = "sim_world sim_mix_db"
  have xds: "w_xds (snd (source_upstreams ?src w)) = w_xds w" for w
    by (simp add: source_upstreams_def io_ret_def)
  have n: "node_id_ok (w_xds ?w)" by code_simp
  have "(case fst (publish sim_ext sim_server ?src ?w) of Inr _ \<Rightarrow> True | Inl _ \<Rightarrow> False)" by code_simp
  then obtain x w' where p: "publish sim_ext sim_server ?src ?w = (Inr x, w')"
    by (cases "publish sim_ext sim_server ?src ?w") (auto split: sum.splits)
  from publish_reaches_every_node [OF sim_envoy_ok sim_order_ok n xds p]
  obtain eps svcUps routes w1 where inp: "inputs sim_ext ?src ?w eps svcUps routes w1"
    and pub: "\<forall>i \<in> {0} \<union> ep_id ` set eps \<union> up_endpointID ` set (all_upstreams (srv_baseDomain sim_server) eps svcUps routes).
       published (w_xds w') (NodeForEndpoint (w_xds w') i) (byEnv (all_upstreams (srv_baseDomain sim_server) eps svcUps routes) i)"
    unfolding Let_def by blast
  let ?e = "sql sim_ext ListEndpoints ?w"
  let ?ups = "all_upstreams (srv_baseDomain sim_server) (projr (fst ?e)) sim_mix_ups (projr (fst (sql sim_ext ListRoutes (snd ?e))))"
  have inp: "eps = projr (fst ?e)" "svcUps = sim_mix_ups" "routes = projr (fst (sql sim_ext ListRoutes (snd ?e)))"
    using inp by (auto simp: inputs_def source_upstreams_def io_ret_def)
  have ids: "map ep_id (projr (fst ?e)) = [1]" by code_simp
  have "byEnv ?ups 0 = [svc_upstream (srv_baseDomain sim_server) [] (hd sim_mix_ups),
      route_upstream (srv_baseDomain sim_server) (sim_mix_route ''api'')]" by code_simp
  moreover have "byEnv ?ups 1 = []" by code_simp
  moreover have "1 \<in> ep_id ` set eps" unfolding inp(1) by (metis ids image_set list.set_intros(1))
  then have "published (w_xds w') (NodeForEndpoint (w_xds w') i) (byEnv ?ups i)" if "i = 0 \<or> i = 1" for i
    using pub that unfolding inp by blast
  ultimately show ?thesis using p by metis
qed

lemma byEnv_no_default: "''default'' \<notin> upstreamKey ` set (byEnv (all_upstreams base eps us rs) i)"
  by (auto simp: byEnv_all)

text \<open>Upstreams with different keys give different names.\<close>

lemma snapshot_clusters_distinct:
  assumes "distinct (map upstreamKey us)"
  shows "distinct (map cl_name (sn_clusters (mkSnapshot v us base)))"
proof -
  have "map cl_name (sn_clusters (mkSnapshot v us base)) = map (\<lambda>u. ''cl_'' @ upstreamKey u) us"
    by (simp add: mkSnapshot_def makeCluster_def clusterName_def)
  moreover have "distinct (map (\<lambda>u. ''cl_'' @ upstreamKey u) us)"
    by (rule distinct_map_same_prefix [OF assms, of _ "''cl_''"]) simp
  ultimately show ?thesis by simp
qed

lemma snapshot_vhosts_distinct:
  assumes "distinct (map upstreamKey us)" and "''default'' \<notin> upstreamKey ` set us"
  shows "distinct (map vh_name (rc_virtualHosts (makeRouteConfig us base)))"
proof -
  have "distinct (map (\<lambda>u. ''vh_'' @ upstreamKey u) us)"
    by (rule distinct_map_same_prefix [OF assms(1), of _ "''vh_''"]) simp
  moreover have "''vh_default'' \<notin> set (map (\<lambda>u. ''vh_'' @ upstreamKey u) us)"
    using assms(2) by auto
  then have "''vh_default'' \<notin> set (map vh_name (build_vhosts base us {}))"
    by (rule contra_subsetD [OF subseq_set [OF build_vhosts_names_subset]])
  ultimately show ?thesis
    using subseq_distinct [OF build_vhosts_names_subset [of base us "{}"]]
    by (simp add: Let_def makeRouteConfig_def defaultVirtualHost_def)
qed

text \<open>
  No two clusters and no two virtual hosts of one snapshot have the same name, when service
  names and route subdomains are unique (as the tables' constraints make them): Envoy rejects a
  configuration with a repeated name.
\<close>

lemma snapshot_names_distinct:
  assumes "distinct (map sp_service svcUps)" and "distinct (map rt_subdomain routes)"
  shows "let ups = all_upstreams base eps svcUps routes in
    distinct (map cl_name (sn_clusters (mkSnapshot v (byEnv ups i) base))) \<and>
    distinct (map vh_name (rc_virtualHosts (makeRouteConfig (byEnv ups i) base)))"
  unfolding Let_def
  by (intro conjI snapshot_clusters_distinct snapshot_vhosts_distinct byEnv_keys_distinct assms byEnv_no_default)

lemma route_auto_host:
  assumes "base \<noteq> []" "last base \<noteq> CHR ''*''"
    and names: "\<And>v. v \<in> set svcUps \<Longrightarrow> plain_name (sp_service v) \<and> plain_name (sp_subdomain v)"
    and "distinct (map sp_service svcUps)" "u \<in> set svcUps" "sp_hosts u \<noteq> []"
  shows "route_host (makeRouteConfig (byEnv (all_upstreams base eps svcUps routes) (sp_endpointID u)) base)
      (autoHost base eps u) = Some (ToCluster (clusterName (svc_upstream base eps u)))"
proof -
  let ?ups = "byEnv (all_upstreams base eps svcUps routes) (sp_endpointID u)"
  let ?vs = "filter (\<lambda>v. sp_endpointID v = sp_endpointID u) (with_hosts svcUps)"
  let ?h = "autoHost base eps u"
  have u: "u \<in> set ?vs" using assms(5,6) by (simp add: with_hosts_def)
  have m: "?h \<in> set (matchDomains (svc_upstream base eps v) base) \<longleftrightarrow> sp_service v = sp_service u"
    if "v \<in> set ?vs" for v
    using that names [of u] names [of v] assms(5) by (intro autoHost_matches [OF assms(1,2)]) (auto simp: with_hosts_def)
  have "find (\<lambda>v. ?h \<in> set (matchDomains (svc_upstream base eps v) base)) ?vs = Some u"
  proof -
    have "distinct (map sp_service ?vs)"
      unfolding with_hosts_def by (intro distinct_map_filter assms(4))
    then have "find (\<lambda>v. sp_service v = sp_service u) ?vs = Some u"
      using u by (simp only: find_Some_iff_distinct)
    moreover have "find (\<lambda>v. ?h \<in> set (matchDomains (svc_upstream base eps v) base)) ?vs =
        find (\<lambda>v. sp_service v = sp_service u) ?vs"
      by (rule find_cong [OF refl]) (simp add: m)
    ultimately show ?thesis by simp
  qed
  then have "claimant base ?ups ?h = Some (svc_upstream base eps u)"
    by (simp add: claimant_def byEnv_all find_append find_map comp_def)
  moreover have "?h \<noteq> []" "last ?h \<noteq> CHR ''*''" using assms(1,2) by (simp_all add: autoHost_def)
  ultimately show ?thesis by (rule route_host_claimed)
qed

text \<open>
  The server part of an automatic address is a DNS label and stable.  A slug is not empty,
  consists of lower-case letters, digits and hyphens, does not start or end with a hyphen and
  has no two hyphens in a row, and slugging it again changes nothing.
\<close>

lemma slug_is_dns_label:
  "slug s \<noteq> [] \<and> set (slug s) \<subseteq> {c. slug_char c \<or> c = CHR ''-''} \<and>
   hd (slug s) \<noteq> CHR ''-'' \<and> last (slug s) \<noteq> CHR ''-'' \<and> tidy True (slug s) \<and> slug (slug s) = slug s"
  using slug_chars slug_ends tidy_slug slug_idem by simp

text \<open>
  C38: the addresses shown for a service are the ones it is routed at.  With a driver that does
  not fail, \<^verbatim>\<open>ServiceDomains\<close> returns for a service of the local host or of a stored
  environment exactly the match domains \<^verbatim>\<open>publish\<close> gives its upstream.
\<close>

theorem service_domains_are_routed:
  assumes "faultless X" "db_ok (w_db w)"
    and "sp_endpointID u = 0 \<or> sp_endpointID u \<in> ep_id ` set (db_endpoints (w_db w))"
    and "set eps = scanEndpoint ` set (db_endpoints (w_db w))" "distinct (map ep_id eps)"
  shows "fst (ServiceDomains X S (sp_service u) (sp_subdomain u) (sp_endpointID u) w) =
    Inr (up_domains (svc_upstream (srv_baseDomain S) eps u))"
proof (cases "sp_endpointID u = 0")
  case True
  from assms(2) have "0 \<notin> ep_id ` set (db_endpoints (w_db w))"
    by (auto simp: db_ok_def endpoints_ok_def tbl_ok_def)
  with assms(4) have "0 \<notin> ep_id ` set eps" by (auto simp: scanEndpoint_def image_image)
  with True show ?thesis
    by (simp add: ServiceDomains_def io_defs svc_upstream_def slugName_def serverSlug_other Let_def)
next
  case False
  with assms(3) obtain e where e: "e \<in> set (db_endpoints (w_db w))" "ep_id e = sp_endpointID u" by auto
  have "tbl_ok ep_id ep_id (db_seq (w_db w) TEndpoints) (db_endpoints (w_db w))"
    using assms(2) by (simp add: db_ok_def endpoints_ok_def)
  with e have "find (\<lambda>e. ep_id e = sp_endpointID u) (db_endpoints (w_db w)) = Some e"
    by (simp add: tbl_ok_find_id)
  then have "fst (ServiceDomains X S (sp_service u) (sp_subdomain u) (sp_endpointID u) w) =
      Inr (service_hosts (srv_baseDomain S) (sp_service u) (slug (ep_name e)) (sp_subdomain u))"
    using False by (simp add: ServiceDomains_def io_defs sql_faultless [OF assms(1)] GetEndpoint_def scanEndpoint_def)
  moreover have "scanEndpoint e \<in> set eps" using assms(4) e(1) by blast
  from serverSlug_in [OF assms(5) this] have "serverSlug eps (sp_endpointID u) = slug (ep_name e)"
    using e(2) by (simp add: scanEndpoint_def)
  ultimately show ?thesis by (simp add: svc_upstream_def slugName_def Let_def)
qed

theorem service_domains_are_routed_witness:
  "fst (ServiceDomains sim_ext sim_server ''web'' ''www'' 0 (sim_world db_empty)) =
     Inr [''web.local.apps.test'', ''www.apps.test'']"
proof -
  let ?u = "\<lparr>sp_service = ''web'', sp_subdomain = ''www'', sp_hosts = [], sp_port = 0, sp_endpointID = 0\<rparr>"
  have "up_domains (svc_upstream (srv_baseDomain sim_server) [] ?u) = [''web.local.apps.test'', ''www.apps.test'']"
    by code_simp
  moreover have "db_ok (w_db (sim_world db_empty))" by (simp add: sim_world_def db_ok_empty)
  ultimately show ?thesis
    using service_domains_are_routed [OF sim_faultless, of "sim_world db_empty" ?u "[]" sim_server]
    by (simp add: sim_world_def db_empty_def)
qed

end
