(* ===== verification/Endpoint.thy ===== *)
theory Endpoint
  imports Sample
begin

text \<open>
  Docker environments, \<^verbatim>\<open>endpoint/endpoint.go\<close>, and the connection to a remote daemon,
  \<^verbatim>\<open>docker/remote.go\<close>: the cache of clients, the TLS material that is stored encrypted,
  and the coherence of the cache with the stored endpoints.
\<close>

section \<open>Connecting to a remote daemon\<close>

text \<open>A new \<^verbatim>\<open>Client\<close> object with an empty cache of helpers.\<close>

definition new_client :: "string \<Rightarrow> tls_material option \<Rightarrow> ('e, client) op" where
  "new_client host tls w =
     (Inr \<lparr>cli_ref = w_next w, cli_host = host, cli_tls = tls\<rparr>,
      w\<lparr>w_next := w_next w + 1, w_helpers := (w_helpers w)(w_next w := Map.empty)\<rparr>)"

definition connect :: "'e ext \<Rightarrow> string \<Rightarrow> string \<Rightarrow> tls_material option \<Rightarrow> ('e, client) op" where
  "connect X msg host tls =
     (case x_newClient X host tls of Some e \<Rightarrow> io_raise (Wrap msg e) | None \<Rightarrow> new_client host tls)"

definition newSSHClient :: "'e ext \<Rightarrow> string \<Rightarrow> ('e, client) op" where
  "newSSHClient X host =
     (case x_sshHelper X host of
        Inl e \<Rightarrow> io_raise (Wrap ''ssh connection helper'' e)
      | Inr h \<Rightarrow> connect X ''ssh docker client'' h None)"

definition NewRemote :: "'e ext \<Rightarrow> string \<Rightarrow> tls_material option \<Rightarrow> ('e, client) op" where
  "NewRemote X host tlsMat =
     (if host = '''' then io_raise (Err ''remote endpoint host is required'')
      else if hasPrefix host ''ssh://'' then newSSHClient X host
      else case tlsMat of
          None \<Rightarrow> connect X ''remote docker client'' host None
        | Some t \<Rightarrow>
            if tm_cert t = '''' then connect X ''remote docker client'' host None
            else if tm_ca t = '''' then
              io_raise (Err ''a CA certificate is required for TLS (refusing to skip server verification)'')
            else case x_keyPair X (tm_cert t) (tm_key t) of
                Some e \<Rightarrow> io_raise (Wrap ''tls keypair'' e)
              | None \<Rightarrow>
                  if \<not> x_certPool X (tm_ca t) then io_raise (Err ''invalid CA certificate'')
                  else connect X ''remote docker client'' host (Some t))"

section \<open>The manager\<close>

definition LocalID :: int where "LocalID = 0"

text \<open>\<^verbatim>\<open>s, _ := m.box.Decrypt(x)\<close> and \<^verbatim>\<open>s, _ := m.box.Encrypt(x)\<close>.\<close>

definition decrypted :: "server \<Rightarrow> string \<Rightarrow> string" where
  "decrypted S x = (case Decrypt (srv_box S) x of Inl _ \<Rightarrow> '''' | Inr p \<Rightarrow> p)"

definition encrypted :: "'e ext \<Rightarrow> server \<Rightarrow> string \<Rightarrow> ('e, string) op" where
  "encrypted X S p = io_bind (io_try (Encrypt X (srv_box S) p))
     (\<lambda>r. io_ret (case r of Inl _ \<Rightarrow> '''' | Inr c \<Rightarrow> c))"

definition endpoint_tls :: "server \<Rightarrow> endpoint \<Rightarrow> tls_material option" where
  "endpoint_tls S e =
     (if ep_tlsCertEnc e = '''' then None
      else Some \<lparr>tm_ca = decrypted S (ep_tlsCAEnc e), tm_cert = decrypted S (ep_tlsCertEnc e),
                 tm_key = decrypted S (ep_tlsKeyEnc e)\<rparr>)"

definition cache_client :: "int \<Rightarrow> client \<Rightarrow> ('e, unit) op" where
  "cache_client i c = io_modify (\<lambda>w. w\<lparr>w_clients := (w_clients w)(i \<mapsto> c)\<rparr>)"

definition uncache_client :: "int \<Rightarrow> ('e, unit) op" where
  "uncache_client i = io_modify (\<lambda>w. w\<lparr>w_clients := (w_clients w)(i := None)\<rparr>)"

definition ClientFor :: "'e ext \<Rightarrow> server \<Rightarrow> int \<Rightarrow> ('e, client) op" where
  "ClientFor X S i =
     (if i = LocalID then io_ret (srv_local S)
      else io_bind (io_gets (\<lambda>w. w_clients w i)) (\<lambda>cached. case cached of
          Some c \<Rightarrow> io_ret c
        | None \<Rightarrow>
            io_bind (sql X (GetEndpoint i)) (\<lambda>ep.
            io_bind (NewRemote X (ep_host ep) (endpoint_tls S ep)) (\<lambda>c.
            io_seq (cache_client i c) (io_ret c)))))"

definition EndpointList :: "'e ext \<Rightarrow> ('e, endpoint list) op" where
  "EndpointList X = sql X ListEndpoints"

definition EndpointCreate :: "'e ext \<Rightarrow> server \<Rightarrow> string \<Rightarrow> string \<Rightarrow> string \<Rightarrow> string \<Rightarrow> string
    \<Rightarrow> ('e, endpoint) op" where
  "EndpointCreate X S name host caPEM certPEM keyPEM =
     (if name = '''' \<or> host = '''' then io_raise (Err ''name and host are required'')
      else io_bind (encrypted X S caPEM) (\<lambda>ca.
           io_bind (encrypted X S certPEM) (\<lambda>cert.
           io_bind (encrypted X S keyPEM) (\<lambda>key.
             sql X (CreateEndpoint \<lparr>ep_id = 0, ep_name = name, ep_host = host, ep_tlsCAEnc = ca,
               ep_tlsCertEnc = cert, ep_tlsKeyEnc = key, ep_tls = False, ep_createdAt = 0\<rparr>)))))"

text \<open>New material replaces all three stored values; an empty certificate keeps them.\<close>

definition new_material :: "'e ext \<Rightarrow> server \<Rightarrow> endpoint \<Rightarrow> string \<Rightarrow> string \<Rightarrow> string
    \<Rightarrow> ('e, string \<times> string \<times> string) op" where
  "new_material X S cur caPEM certPEM keyPEM =
     (if certPEM = '''' then io_ret (ep_tlsCAEnc cur, ep_tlsCertEnc cur, ep_tlsKeyEnc cur)
      else io_bind (encrypted X S caPEM) (\<lambda>ca.
           io_bind (encrypted X S certPEM) (\<lambda>cert.
           io_bind (encrypted X S keyPEM) (\<lambda>key. io_ret (ca, cert, key)))))"

definition EndpointUpdate :: "'e ext \<Rightarrow> server \<Rightarrow> int \<Rightarrow> string \<Rightarrow> string \<Rightarrow> string \<Rightarrow> string \<Rightarrow> string
    \<Rightarrow> ('e, endpoint) op" where
  "EndpointUpdate X S i name host caPEM certPEM keyPEM =
     (if name = '''' \<or> host = '''' then io_raise (Err ''name and host are required'')
      else io_bind (sql X (GetEndpoint i)) (\<lambda>cur.
           io_bind (new_material X S cur caPEM certPEM keyPEM) (\<lambda>(ca, cert, key).
             let ep = \<lparr>ep_id = i, ep_name = name, ep_host = host, ep_tlsCAEnc = ca,
                       ep_tlsCertEnc = cert, ep_tlsKeyEnc = key, ep_tls = False, ep_createdAt = 0\<rparr>
             in io_seq (sql X (UpdateEndpoint ep))
                (io_seq (uncache_client i)
                  (io_ret (ep\<lparr>ep_tls := (cert \<noteq> ''''), ep_createdAt := ep_createdAt cur\<rparr>))))))"

definition EndpointDelete :: "'e ext \<Rightarrow> int \<Rightarrow> ('e, unit) op" where
  "EndpointDelete X i = io_seq (uncache_client i) (sql X (DeleteEndpoint i))"

definition EndpointStatus :: "'e ext \<Rightarrow> server \<Rightarrow> int \<Rightarrow> ('e, bool \<times> string) op" where
  "EndpointStatus X S i =
     io_bind (io_try (ClientFor X S i)) (\<lambda>r. case r of
         Inl _ \<Rightarrow> io_ret (False, '''')
       | Inr c \<Rightarrow> io_bind (io_try (ServerVersion X c)) (\<lambda>v. case v of
             Inl _ \<Rightarrow> io_ret (False, '''')
           | Inr v \<Rightarrow> io_ret (True, v)))"

section \<open>Connections are verified\<close>

lemma connect_Inr:
  "connect X msg host tls w = (Inr c, w') \<Longrightarrow> cli_host c = host \<and> cli_tls c = tls \<and>
     w_db w' = w_db w \<and> w_clients w' = w_clients w \<and> w_xds w' = w_xds w"
  by (auto simp: connect_def new_client_def io_raise_def split: option.splits)

text \<open>The host and TLS material of the client a successful \<^verbatim>\<open>NewRemote\<close> returns.\<close>

definition remote_tls :: "string \<Rightarrow> tls_material option \<Rightarrow> tls_material option" where
  "remote_tls host tlsMat =
     (if hasPrefix host ''ssh://'' then None
      else case tlsMat of None \<Rightarrow> None | Some t \<Rightarrow> if tm_cert t = '''' then None else Some t)"

lemma NewRemote_Inr:
  assumes "NewRemote X host tlsMat w = (Inr c, w')"
  shows "host \<noteq> []" and "cli_tls c = remote_tls host tlsMat"
    and "\<not> hasPrefix host ''ssh://'' \<Longrightarrow> cli_host c = host"
    and "hasPrefix host ''ssh://'' \<Longrightarrow> x_sshHelper X host = Inr (cli_host c)"
    and "w_db w' = w_db w" and "w_clients w' = w_clients w" and "w_xds w' = w_xds w"
    and "cli_tls c = Some t \<Longrightarrow> tm_ca t \<noteq> [] \<and> x_certPool X (tm_ca t)"
  using assms
  by (auto simp: NewRemote_def newSSHClient_def remote_tls_def io_raise_def dest!: connect_Inr
      split: if_splits option.splits sum.splits)

section \<open>Coherence of the client cache\<close>

text \<open>
  The connection of a client: what the daemon it talks to depends on.  \<^verbatim>\<open>serves\<close> says that
  a client is connected the way the endpoint row says, and verifies the daemon when it has
  TLS credentials.
\<close>

definition serves :: "'e ext \<Rightarrow> server \<Rightarrow> endpoint \<Rightarrow> client \<Rightarrow> bool" where
  "serves X S e c \<longleftrightarrow> cli_tls c = remote_tls (ep_host e) (endpoint_tls S e) \<and>
     (if hasPrefix (ep_host e) ''ssh://'' then x_sshHelper X (ep_host e) = Inr (cli_host c)
      else cli_host c = ep_host e) \<and>
     (\<forall>t. cli_tls c = Some t \<longrightarrow> tm_ca t \<noteq> [] \<and> x_certPool X (tm_ca t))"

definition cache_ok :: "'e ext \<Rightarrow> server \<Rightarrow> 'e world \<Rightarrow> bool" where
  "cache_ok X S w \<longleftrightarrow> db_ok (w_db w) \<and>
     (\<forall>i c. w_clients w i = Some c \<longrightarrow>
        (\<exists>e \<in> set (db_endpoints (w_db w)). ep_id e = i \<and> serves X S e c))"

text \<open>The driver never loses the answer to a statement the server executed.\<close>

definition answers_kept :: "'e ext \<Rightarrow> bool" where
  "answers_kept X \<longleftrightarrow> (\<forall>e err. fst (fst (x_sql X e)) \<noteq> FaultAfter err)"

lemma serves_scan [simp]: "serves X S (scanEndpoint e) c = serves X S e c"
  by (simp add: serves_def scanEndpoint_def endpoint_tls_def)

lemma serves_cong:
  "ep_host e = ep_host f \<Longrightarrow> ep_tlsCAEnc e = ep_tlsCAEnc f \<Longrightarrow> ep_tlsCertEnc e = ep_tlsCertEnc f \<Longrightarrow>
   ep_tlsKeyEnc e = ep_tlsKeyEnc f \<Longrightarrow> serves X S e c = serves X S f c"
  by (simp add: serves_def endpoint_tls_def)

lemma NewRemote_serves:
  assumes "NewRemote X (ep_host e) (endpoint_tls S e) w = (Inr c, w')"
  shows "serves X S e c"
  using NewRemote_Inr(2,3,4,8) [OF assms] by (simp add: serves_def)

lemma GetEndpoint_Inr:
  "GetEndpoint i d = (Inr e, d') \<Longrightarrow> d' = d \<and> (\<exists>row \<in> set (db_endpoints d). ep_id row = i \<and> e = scanEndpoint row)"
  by (auto simp: GetEndpoint_def split: option.splits dest!: find_SomeD)

lemma cache_ok_now [simp]:
  "cache_ok X S (w\<lparr>w_db := (w_db w)\<lparr>db_now := n\<rparr>, w_ext := e\<rparr>) = cache_ok X S w"
  "cache_ok X S (w\<lparr>w_ext := e\<rparr>) = cache_ok X S w"
  by (simp_all add: cache_ok_def)

lemma cache_ok_blind [simp, intro]: "ext_blind (cache_ok X S)"
  by (simp add: ext_blind_def)

lemma cache_ok_uncache: "cache_ok X S w \<Longrightarrow> cache_ok X S (w\<lparr>w_clients := (w_clients w)(i := None)\<rparr>)"
  by (auto simp: cache_ok_def)

lemma cache_ok_sql:
  assumes "io_keeps db_ok q" and "\<And>d. set (db_endpoints d) \<subseteq> set (db_endpoints (snd (q d)))"
  shows "io_keeps (cache_ok X S) (sql X q)"
proof (rule io_keepsI)
  fix w
  assume ok: "cache_ok X S w"
  let ?d = "\<lambda>now. (w_db w)\<lparr>db_now := now\<rparr>"
  have "db_ok (snd (q (?d now)))" for now
    using ok assms(1) by (auto simp: cache_ok_def io_keeps_def)
  then have "cache_ok X S (w\<lparr>w_db := snd (q (?d now)), w_ext := e\<rparr>)" for now e
    using ok assms(2) [of "?d now"] by (fastforce simp: cache_ok_def)
  with ok show "cache_ok X S (snd (sql X q w))"
    by (auto simp: sql_def Let_def split: prod.splits fault.splits) (metis snd_conv)+
qed

lemma ClientFor_found:
  assumes "cache_ok X S w" and "ClientFor X S i w = (Inr c, w')" and "i \<noteq> LocalID"
  shows "\<exists>e \<in> set (db_endpoints (w_db w)). ep_id e = i \<and> serves X S e c"
proof (cases "w_clients w i")
  case (Some c')
  with assms show ?thesis by (auto simp: ClientFor_def cache_ok_def io_inr)
next
  case None
  with assms(2,3) obtain ep w1 w2 where s: "sql X (GetEndpoint i) w = (Inr ep, w1)"
    and n: "NewRemote X (ep_host ep) (endpoint_tls S ep) w1 = (Inr c, w2)"
    by (auto simp: ClientFor_def io_inr)
  from s obtain d e now where "GetEndpoint i ((w_db w)\<lparr>db_now := now\<rparr>) = (Inr ep, d)"
    by (rule sql_Inr)
  with NewRemote_serves [OF n] show ?thesis by (auto dest!: GetEndpoint_Inr)
qed

lemma NewRemote_frame [simp]:
  "w_db (snd (NewRemote X h t w)) = w_db w" "w_clients (snd (NewRemote X h t w)) = w_clients w"
  "w_xds (snd (NewRemote X h t w)) = w_xds w" "w_running (snd (NewRemote X h t w)) = w_running w"
  by (simp_all add: NewRemote_def newSSHClient_def connect_def new_client_def io_raise_def
      split: option.splits sum.splits)

lemma sql_GetEndpoint_frame [simp]:
  "db_endpoints (w_db (snd (sql X (GetEndpoint i) w))) = db_endpoints (w_db w)"
  by (rule sql_same) (simp_all add: GetEndpoint_def split: option.splits)

text \<open>What \<^verbatim>\<open>ClientFor\<close> leaves: at most the one new entry, for the client it returns.\<close>

lemma ClientFor_state:
  assumes "ClientFor X S i w = (r, w')"
  shows "db_endpoints (w_db w') = db_endpoints (w_db w)"
    and "w_clients w' = w_clients w \<or> (\<exists>c. r = Inr c \<and> i \<noteq> LocalID \<and> w_clients w' = (w_clients w)(i \<mapsto> c))"
proof -
  have "db_endpoints (w_db w') = db_endpoints (w_db w) \<and>
    (w_clients w' = w_clients w \<or> (\<exists>c. r = Inr c \<and> i \<noteq> LocalID \<and> w_clients w' = (w_clients w)(i \<mapsto> c)))"
  proof (cases "i = LocalID \<or> w_clients w i \<noteq> None")
    case True
    with assms have "w' = w"
      by (cases "i = LocalID"; cases "w_clients w i") (simp_all add: ClientFor_def io_defs)
    then show ?thesis by simp
  next
    case False
    obtain q w1 where s: "sql X (GetEndpoint i) w = (q, w1)" by (cases "sql X (GetEndpoint i) w")
    have w1: "db_endpoints (w_db w1) = db_endpoints (w_db w)" "w_clients w1 = w_clients w"
      using s sql_GetEndpoint_frame [of X i w] sql_frame(2) [of X "GetEndpoint i" w] by simp_all
    show ?thesis
    proof (cases q)
      case (Inl e)
      with False s w1 assms show ?thesis by (auto simp: ClientFor_def io_defs)
    next
      case (Inr ep)
      obtain p w2 where n: "NewRemote X (ep_host ep) (endpoint_tls S ep) w1 = (p, w2)"
        by (cases "NewRemote X (ep_host ep) (endpoint_tls S ep) w1")
      have w2: "w_db w2 = w_db w1" "w_clients w2 = w_clients w1"
        using n NewRemote_frame(1,2) [of X "ep_host ep" "endpoint_tls S ep" w1] by simp_all
      show ?thesis
      proof (cases p)
        case (Inl e)
        with False s n w1 w2 Inr assms show ?thesis by (auto simp: ClientFor_def io_defs)
      next
        case (Inr c)
        have "(r, w') = (Inr c, w2\<lparr>w_clients := (w_clients w2)(i \<mapsto> c)\<rparr>)"
          using False s n \<open>q = Inr ep\<close> Inr assms by (simp add: ClientFor_def io_defs cache_client_def)
        with w1 w2 False show ?thesis by simp
      qed
    qed
  qed
  then show "db_endpoints (w_db w') = db_endpoints (w_db w)"
    and "w_clients w' = w_clients w \<or> (\<exists>c. r = Inr c \<and> i \<noteq> LocalID \<and> w_clients w' = (w_clients w)(i \<mapsto> c))"
    by simp_all
qed

lemma db_ok_NewRemote [io_keep]: "io_keeps db_inv (NewRemote X h t)"
  by (simp add: io_keeps_def db_inv_def)

lemma db_ok_ClientFor [io_keep]: "io_keeps db_inv (ClientFor X S i)"
  unfolding ClientFor_def cache_client_def
  by (intro io_keep stmt_keeps) simp_all

lemma ClientFor_cache: "io_keeps (cache_ok X S) (ClientFor X S i)"
proof (rule io_keepsI)
  fix w
  assume ok: "cache_ok X S w"
  obtain r w' where p: "ClientFor X S i w = (r, w')" by (cases "ClientFor X S i w")
  from ok have "db_ok (w_db w')"
    using io_keepsD [OF db_ok_ClientFor _ p] by (simp add: cache_ok_def db_inv_def)
  with ok ClientFor_state [OF p] ClientFor_found [OF ok, of i] p show "cache_ok X S (snd (ClientFor X S i w))"
    by (fastforce simp: cache_ok_def)
qed

lemma encrypted_keeps [io_keep]: "ext_blind I \<Longrightarrow> io_keeps I (encrypted X S p)"
  unfolding encrypted_def by (intro io_keep | assumption)+

lemma EndpointCreate_cache: "io_keeps (cache_ok X S) (EndpointCreate X S n h ca cert key)"
  unfolding EndpointCreate_def
  by (intro io_keep cache_ok_sql stmt_keeps cache_ok_blind)
    (auto simp: CreateEndpoint_def Let_def bump_seq_def)

lemma new_material_keeps [io_keep]: "ext_blind I \<Longrightarrow> io_keeps I (new_material X S cur ca cert key)"
  unfolding new_material_def by (intro io_keep | assumption)+

text \<open>Changing or deleting one row keeps the coherence of the other entries.\<close>

lemma cache_ok_change:
  assumes "cache_ok X S w" and "db_ok d"
    and "\<And>e. e \<in> set (db_endpoints (w_db w)) \<Longrightarrow> ep_id e \<noteq> i \<Longrightarrow> e \<in> set (db_endpoints d)"
    and "w_clients w' = (w_clients w)(i := None)" and "w_db w' = d"
  shows "cache_ok X S w'"
  using assms by (fastforce simp: cache_ok_def split: if_splits)

lemma EndpointDelete_cache: "io_keeps (cache_ok X S) (EndpointDelete X i)"
proof (rule io_keepsI)
  fix w
  assume ok: "cache_ok X S w"
  let ?w = "w\<lparr>w_clients := (w_clients w)(i := None)\<rparr>"
  let ?q = "DeleteEndpoint i"
  have "db_ok (snd (?q ((w_db w)\<lparr>db_now := n\<rparr>)))" for n
    using ok DeleteEndpoint_keeps by (simp add: io_keeps_def cache_ok_def)
  then have del: "cache_ok X S (?w\<lparr>w_db := snd (?q ((w_db w)\<lparr>db_now := n\<rparr>)), w_ext := e\<rparr>)" for n e
    by (rule cache_ok_change [OF ok, where i = i]) (simp_all add: DeleteEndpoint_def)
  have "EndpointDelete X i w = sql X ?q ?w"
    by (simp add: EndpointDelete_def uncache_client_def io_defs)
  moreover have "cache_ok X S (?w\<lparr>w_ext := e\<rparr>)" for e
    using cache_ok_uncache [OF ok] by simp
  ultimately show "cache_ok X S (snd (EndpointDelete X i w))"
    using del by (auto simp: sql_def Let_def split: prod.splits fault.splits) (metis snd_conv)+
qed

lemma update_row_cache:
  assumes ans: "answers_kept X" and ok: "cache_ok X S w"
  shows "cache_ok X S (snd (io_seq (sql X (UpdateEndpoint ep)) (io_seq (uncache_client (ep_id ep)) (io_ret x)) w))"
proof -
  let ?q = "UpdateEndpoint ep"
  obtain f n e where x: "x_sql X (w_ext w) = ((f, n), e)" by (metis surj_pair)
  let ?d = "snd (?q ((w_db w)\<lparr>db_now := n\<rparr>))"
  have "db_ok ?d"
    using ok UpdateEndpoint_keeps by (simp add: io_keeps_def cache_ok_def)
  then have upd: "cache_ok X S (w\<lparr>w_db := ?d, w_ext := e, w_clients := (w_clients w)(ep_id ep := None)\<rparr>)"
    by (rule cache_ok_change [OF ok, where i = "ep_id ep"]) (force simp: UpdateEndpoint_def set_upd_rows)+
  show ?thesis
  proof (cases f)
    case NoFault
    with x have "sql X ?q w = (Inr (), w\<lparr>w_db := ?d, w_ext := e\<rparr>)"
      by (simp add: sql_def UpdateEndpoint_def)
    with upd show ?thesis
      by (simp add: io_defs uncache_client_def)
  next
    case (FaultBefore err)
    with x have "sql X ?q w = (Inl err, w\<lparr>w_ext := e\<rparr>)"
      by (simp add: sql_def UpdateEndpoint_def)
    with ok show ?thesis by (simp add: io_defs)
  next
    case (FaultAfter err)
    with x ans show ?thesis by (metis answers_kept_def fst_conv)
  qed
qed

lemma GetEndpoint_cache: "io_keeps (cache_ok X S) (sql X (GetEndpoint i))"
  by (intro cache_ok_sql stmt_keeps) (simp add: GetEndpoint_def split: option.splits)

lemma EndpointUpdate_cache:
  assumes "answers_kept X"
  shows "io_keeps (cache_ok X S) (EndpointUpdate X S i n h ca cert key)"
proof -
  have t: "io_keeps (cache_ok X S) (io_seq (sql X (UpdateEndpoint ep)) (io_seq (uncache_client i) (io_ret x)))"
    if "ep_id ep = i" for ep x
    using that update_row_cache [OF assms] by (auto simp: io_keeps_def)
  show ?thesis
    unfolding EndpointUpdate_def Let_def
    by (rule io_keeps_if io_keeps_raise io_keeps_case_prod t io_keeps_bind [OF GetEndpoint_cache]
        io_keeps_bind [OF new_material_keeps [OF cache_ok_blind]] | simp)+
qed

section \<open>Properties\<close>

text \<open>
  C10: the client cache stays coherent with the stored endpoints.  Every operation of the
  endpoint manager keeps the invariant that each cached client is connected to the host and
  with the TLS material its endpoint row holds now: looking a client up adds a matching entry,
  an edit or a deletion drops the entry of the row it touches.  (For an edit the driver must
  not lose the answer to a statement that was executed.)
\<close>

theorem client_cache_coherent:
  assumes "answers_kept X"
  shows "io_keeps (cache_ok X S) (ClientFor X S i) \<and>
    io_keeps (cache_ok X S) (EndpointCreate X S n h ca cert key) \<and>
    io_keeps (cache_ok X S) (EndpointUpdate X S i n h ca cert key) \<and>
    io_keeps (cache_ok X S) (EndpointDelete X i)"
  using assms by (simp add: ClientFor_cache EndpointCreate_cache EndpointUpdate_cache EndpointDelete_cache)

theorem client_cache_coherent_witness:
  "cache_ok sim_ext sim_server
     (snd (EndpointUpdate sim_ext sim_server 1 ''b'' ''tcp://h2:2375'' '''' '''' ''''
       (snd (ClientFor sim_ext sim_server 1
         (snd (EndpointCreate sim_ext sim_server ''a'' ''tcp://h1:2375'' '''' '''' '''' (sim_world db_empty)))))))"
proof -
  have a: "answers_kept sim_ext" by (simp add: answers_kept_def)
  have "cache_ok sim_ext sim_server (sim_world db_empty)"
    by (simp add: cache_ok_def sim_world_def db_ok_empty)
  with client_cache_coherent [OF a, of sim_server 1] show ?thesis
    by (simp add: io_keeps_def)
qed

text \<open>
  A client that is handed out for a remote environment is connected the way its stored
  endpoint says (host and decrypted TLS material), and one with TLS credentials always has a
  valid certificate authority to verify the daemon with.
\<close>

lemma client_matches_endpoint:
  assumes "cache_ok X S w" and "ClientFor X S i w = (Inr c, w')" and "i \<noteq> LocalID"
  shows "(\<exists>e \<in> set (db_endpoints (w_db w)). ep_id e = i \<and> serves X S e c) \<and> cache_ok X S w'"
  using ClientFor_found [OF assms] io_keepsD [OF ClientFor_cache assms(1,2)] by simp

end
