(* ===== verification/Registry.thy ===== *)
theory Registry
  imports Sample
begin

text \<open>
  Image registries, \<^verbatim>\<open>registry/registry.go\<close>: credentials stored through the secret box,
  the choice of the credential for an image, and the registry's HTTP interface.
\<close>

section \<open>Hosts\<close>

definition normalizeHost :: "string \<Rightarrow> string" where
  "normalizeHost url = trimPrefix (trimPrefix (trimSuffix url ''/'') ''https://'') ''http://''"

definition dockerHub :: string where "dockerHub = ''registry-1.docker.io''"

definition hostForImage :: "string \<Rightarrow> string" where
  "hostForImage img =
     (case indexByte img (CHR ''/'') of
        None \<Rightarrow> dockerHub
      | Some slash \<Rightarrow>
          let first = take slash img in
          if containsAny first ''.:'' \<or> first = ''localhost'' then first else dockerHub)"

definition hubNames :: "string list" where
  "hubNames = [''docker.io'', ''index.docker.io'', ''registry-1.docker.io'']"

definition hostsMatch :: "string \<Rightarrow> string \<Rightarrow> bool" where
  "hostsMatch configured0 imageHost =
     (let configured = normalizeHost configured0
      in configured = imageHost \<or> configured \<in> set hubNames \<and> imageHost \<in> set hubNames)"

section \<open>The service\<close>

definition RegistryList :: "'e ext \<Rightarrow> string \<Rightarrow> ('e, registry list) op" where
  "RegistryList X owner = sql X (ListRegistries owner)"

definition RegistryOwner :: "'e ext \<Rightarrow> int \<Rightarrow> ('e, string) op" where
  "RegistryOwner X i = io_bind (sql X (GetRegistry i)) (\<lambda>r. io_ret (rg_owner r))"

definition RegistryCreate :: "'e ext \<Rightarrow> server \<Rightarrow> string \<Rightarrow> string \<Rightarrow> string \<Rightarrow> string \<Rightarrow> string
    \<Rightarrow> ('e, registry) op" where
  "RegistryCreate X S name url username password owner =
     (if name = '''' \<or> url = '''' then io_raise (Err ''name and url are required'')
      else io_bind (Encrypt X (srv_box S) password) (\<lambda>enc.
        sql X (InsertRegistry \<lparr>rg_id = 0, rg_name = name, rg_url = normalizeHost url,
          rg_username = username, rg_passwordEnc = enc, rg_owner = owner, rg_createdAt = 0\<rparr>)))"

definition RegistryDelete :: "'e ext \<Rightarrow> int \<Rightarrow> ('e, unit) op" where
  "RegistryDelete X i = sql X (DeleteRegistry i)"

definition encodeAuth :: "'e ext \<Rightarrow> string \<Rightarrow> string \<Rightarrow> string \<Rightarrow> string" where
  "encodeAuth X username password serverAddress =
     (case x_authJSON X username password serverAddress of
        None \<Rightarrow> ''''
      | Some b \<Rightarrow> encode64 urlAlphabet b)"

definition io_of_sum :: "'x + 'a \<Rightarrow> ('x, 's, 'a) io" where
  "io_of_sum r = (case r of Inl e \<Rightarrow> io_raise e | Inr x \<Rightarrow> io_ret x)"

text \<open>The loop over the registries of \<^verbatim>\<open>AuthForImage\<close>.\<close>

fun auth_loop :: "'e ext \<Rightarrow> server \<Rightarrow> string \<Rightarrow> registry list \<Rightarrow> goerr + string" where
  "auth_loop X S host [] = Inr ''''"
| "auth_loop X S host (r # rs) =
     (if hostsMatch (rg_url r) host then
        (case Decrypt (srv_box S) (rg_passwordEnc r) of
           Inl e \<Rightarrow> Inl e
         | Inr pw \<Rightarrow> Inr (encodeAuth X (rg_username r) pw (rg_url r)))
      else auth_loop X S host rs)"

definition AuthForImage :: "'e ext \<Rightarrow> server \<Rightarrow> string \<Rightarrow> ('e, string) op" where
  "AuthForImage X S img =
     io_bind (sql X (ListRegistries '''')) (\<lambda>regs. io_of_sum (auth_loop X S (hostForImage img) regs))"

text \<open>\<^verbatim>\<open>auth, _ := registries.AuthForImage(...)\<close>.\<close>

definition auth_or_none :: "'e ext \<Rightarrow> server \<Rightarrow> string \<Rightarrow> ('e, string) op" where
  "auth_or_none X S img = io_bind (io_try (AuthForImage X S img))
     (\<lambda>r. io_ret (case r of Inl _ \<Rightarrow> '''' | Inr a \<Rightarrow> a))"

section \<open>The registry's HTTP interface\<close>

fun do_schemes :: "'e ext \<Rightarrow> string list \<Rightarrow> string \<Rightarrow> (string \<times> string) option \<Rightarrow> goerr \<Rightarrow> ('e, response) op" where
  "do_schemes X [] hostpath basic lastErr = io_raise (Wrap ''registry unreachable'' lastErr)"
| "do_schemes X (scheme # ss) hostpath basic lastErr =
     (let url = scheme @ ''://'' @ hostpath in
      case x_newRequest X url of
        Some e \<Rightarrow> io_raise e
      | None \<Rightarrow> io_bind (io_try (ext (x_httpGet X url basic))) (\<lambda>r. case r of
            Inl e \<Rightarrow> do_schemes X ss hostpath basic e
          | Inr resp \<Rightarrow> io_ret resp))"

definition RegistryDo :: "'e ext \<Rightarrow> string \<Rightarrow> string \<Rightarrow> string \<Rightarrow> string \<Rightarrow> ('e, response) op" where
  "RegistryDo X host path username password =
     do_schemes X [''https'', ''http''] (host @ path)
       (if username \<noteq> '''' then Some (username, password) else None) (Err '''')"

definition TestLogin :: "'e ext \<Rightarrow> string \<Rightarrow> string \<Rightarrow> string \<Rightarrow> ('e, unit) op" where
  "TestLogin X url username password =
     io_bind (RegistryDo X (normalizeHost url) ''/v2/'' username password)
       (\<lambda>resp. io_guard (hr_code resp = 200) (Err (''registry returned '' @ hr_status resp)))"

fun creds_loop :: "server \<Rightarrow> int \<Rightarrow> registry list \<Rightarrow> goerr + (registry \<times> string)" where
  "creds_loop S i [] = Inl (Err (''registry '' @ goItoa i @ '' not found''))"
| "creds_loop S i (r # rs) =
     (if rg_id r = i then
        (case Decrypt (srv_box S) (rg_passwordEnc r) of Inl e \<Rightarrow> Inl e | Inr pw \<Rightarrow> Inr (r, pw))
      else creds_loop S i rs)"

definition credsFor :: "'e ext \<Rightarrow> server \<Rightarrow> int \<Rightarrow> ('e, registry \<times> string) op" where
  "credsFor X S i = io_bind (sql X (ListRegistries '''')) (\<lambda>regs. io_of_sum (creds_loop S i regs))"

definition Catalog :: "'e ext \<Rightarrow> server \<Rightarrow> int \<Rightarrow> ('e, string list) op" where
  "Catalog X S i =
     io_bind (credsFor X S i) (\<lambda>(r, pw).
     io_bind (RegistryDo X (rg_url r) ''/v2/_catalog?n=100'' (rg_username r) pw) (\<lambda>resp.
       if hr_code resp \<noteq> 200 then io_raise (Err (''catalog: registry returned '' @ hr_status resp))
       else io_of_sum (x_repositories X (hr_body resp))))"

definition Tags :: "'e ext \<Rightarrow> server \<Rightarrow> int \<Rightarrow> string \<Rightarrow> ('e, string list) op" where
  "Tags X S i repo =
     io_bind (credsFor X S i) (\<lambda>(r, pw).
     io_bind (RegistryDo X (rg_url r) (''/v2/'' @ repo @ ''/tags/list'') (rg_username r) pw) (\<lambda>resp.
       if hr_code resp \<noteq> 200 then io_raise (Err (''tags: registry returned '' @ hr_status resp))
       else io_of_sum (x_tags X (hr_body resp))))"

section \<open>Which credential is used\<close>

lemma io_of_sum_Inr [simp]: "io_of_sum r w = (Inr x, w') \<longleftrightarrow> r = Inr x \<and> w' = w"
  by (auto simp: io_of_sum_def io_defs split: sum.splits)

lemma io_keeps_io_of_sum [io_keep]: "io_keeps I (io_of_sum r)"
  by (simp add: io_of_sum_def io_keep split: sum.splits)

lemma AuthForImage_keeps [io_keep]:
  "io_keeps I (sql X (ListRegistries '''')) \<Longrightarrow> io_keeps I (AuthForImage X S img)"
  "io_keeps I (sql X (ListRegistries '''')) \<Longrightarrow> io_keeps I (auth_or_none X S img)"
  unfolding AuthForImage_def auth_or_none_def by (intro io_keep | assumption)+

lemma auth_loop_find:
  "auth_loop X S host rs =
     (case find (\<lambda>r. hostsMatch (rg_url r) host) rs of
        None \<Rightarrow> Inr ''''
      | Some r \<Rightarrow> (case Decrypt (srv_box S) (rg_passwordEnc r) of
            Inl e \<Rightarrow> Inl e
          | Inr pw \<Rightarrow> Inr (encodeAuth X (rg_username r) pw (rg_url r))))"
  by (induction rs) auto

lemma creds_loop_find:
  "creds_loop S i rs =
     (case find (\<lambda>r. rg_id r = i) rs of
        None \<Rightarrow> Inl (Err (''registry '' @ goItoa i @ '' not found''))
      | Some r \<Rightarrow> (case Decrypt (srv_box S) (rg_passwordEnc r) of Inl e \<Rightarrow> Inl e | Inr pw \<Rightarrow> Inr (r, pw)))"
  by (induction rs) auto

text \<open>An image reference that names its registry.\<close>

lemma hostForImage_qualified:
  assumes "CHR ''/'' \<notin> set h" and "CHR ''.'' \<in> set h \<or> CHR '':'' \<in> set h \<or> h = ''localhost''"
  shows "hostForImage (h @ ''/'' @ rest) = h"
  using assms by (auto simp: hostForImage_def indexByte_append containsAny_def)

lemma hostForImage_hub:
  "CHR ''/'' \<notin> set img \<Longrightarrow> hostForImage img = dockerHub"
  by (simp add: hostForImage_def indexByte_None [THEN iffD2])

lemma InsertRegistry_Inr:
  "InsertRegistry r d = (Inr r', d') \<Longrightarrow>
   r' = r\<lparr>rg_id := next_id TRegistries d, rg_createdAt := db_now d\<rparr> \<and> r' \<in> set (db_registries d') \<and>
   rg_passwordEnc r' = rg_passwordEnc r"
  by (auto simp: InsertRegistry_def Let_def split: if_splits)

lemma ListRegistries_find:
  assumes "registries_ok d" and "r \<in> set (db_registries d)" and "ListRegistries '''' d = (Inr rs, d')"
  shows "find (\<lambda>q. rg_id q = rg_id r) rs = Some r"
proof -
  from assms(3) have rs: "rs = order_by d rg_name (db_registries d)"
    by (auto simp: ListRegistries_def)
  from assms(1) have "distinct (map rg_id rs)"
    unfolding rs registries_ok_def tbl_ok_def by simp
  with assms(2) rs show ?thesis by (simp add: find_Some_iff_distinct)
qed

lemma find_singleton: "set xs = {z} \<Longrightarrow> P z \<Longrightarrow> find P xs = Some z"
  by (cases xs) auto

section \<open>Properties\<close>

text \<open>
  C30: the password of a registry survives the storage round trip.  After a registry was
  created, the credentials looked up for it are the row that was returned and exactly the
  password that was given, and the row's address is the normalised one.
\<close>

theorem registry_password_roundtrip:
  assumes "faultless X" "rand_ok X" "box_ok (srv_box S)" "db_ok (w_db w)"
    and "RegistryCreate X S name url username password owner w = (Inr r, w')"
  shows "fst (credsFor X S (rg_id r) w') = Inr (r, password) \<and> rg_url r = normalizeHost url \<and>
    rg_username r = username \<and> rg_owner r = owner"
proof -
  from assms(5) obtain enc w1 where e: "Encrypt X (srv_box S) password w = (Inr enc, w1)"
    and s: "sql X (InsertRegistry \<lparr>rg_id = 0, rg_name = name, rg_url = normalizeHost url,
          rg_username = username, rg_passwordEnc = enc, rg_owner = owner, rg_createdAt = 0\<rparr>) w1 = (Inr r, w')"
    (is "sql X (InsertRegistry ?row) w1 = _")
    by (auto simp: RegistryCreate_def io_inr split: if_splits)
  from e have "w_db w1 = w_db w" using Encrypt_frame(1) [of X "srv_box S" password w] by simp
  with assms(4) have ok: "db_inv w1" by (simp add: db_inv_def)
  from s obtain d ex n where i: "InsertRegistry ?row ((w_db w1)\<lparr>db_now := n\<rparr>) = (Inr r, d)"
    and w': "w' = w1\<lparr>w_db := d, w_ext := ex\<rparr>" by (rule sql_Inr)
  from InsertRegistry_Inr [OF i] have eq: "r = ?row\<lparr>rg_id := next_id TRegistries ((w_db w1)\<lparr>db_now := n\<rparr>),
      rg_createdAt := n\<rparr>" by simp
  from InsertRegistry_Inr [OF i] have mem: "r \<in> set (db_registries d)" by blast
  from mem have r: "r \<in> set (db_registries (w_db w'))" by (simp add: w')
  have f: "rg_passwordEnc r = enc" "rg_url r = normalizeHost url" "rg_username r = username" "rg_owner r = owner"
    by (simp_all add: eq)
  have "db_inv w'" using io_keepsD [OF db_inv_sql [OF InsertRegistry_keeps] ok s] .
  then have reg: "registries_ok ((w_db w')\<lparr>db_now := t\<rparr>)" for t
    by (metis db_inv_def db_ok_now db_okD(4))
  let ?t = "sql_time X w'"
  obtain rs d' where l: "ListRegistries '''' ((w_db w')\<lparr>db_now := ?t\<rparr>) = (Inr rs, d')"
    by (simp add: ListRegistries_def)
  have "find (\<lambda>q. rg_id q = rg_id r) rs = Some r"
    by (rule ListRegistries_find [OF reg _ l]) (simp add: r)
  moreover have "Decrypt (srv_box S) enc = Inr password"
    using box.opens_encrypts [OF assms(3) Encrypt_encrypts [OF e assms(2)]] .
  ultimately have "creds_loop S (rg_id r) rs = Inr (r, password)"
    by (simp add: creds_loop_find f)
  with l have "fst (credsFor X S (rg_id r) w') = Inr (r, password)"
    by (simp add: credsFor_def sql_faultless [OF assms(1)] io_bind_def io_of_sum_def io_ret_def)
  with f show ?thesis by simp
qed

theorem registry_password_roundtrip_witness:
  "\<exists>r w'. RegistryCreate sim_ext sim_server ''ghcr'' ''https://ghcr.io/'' ''bob'' ''s3cret'' '''' (sim_world db_empty)
      = (Inr r, w') \<and>
    fst (credsFor sim_ext sim_server (rg_id r) w') = Inr (r, ''s3cret'') \<and> rg_url r = ''ghcr.io''"
proof -
  let ?m = "RegistryCreate sim_ext sim_server ''ghcr'' ''https://ghcr.io/'' ''bob'' ''s3cret'' ''''"
  have "\<exists>r. fst (?m (sim_world db_empty)) = Inr r"
    by (simp add: RegistryCreate_def Encrypt_def io_defs ext_def sql_def InsertRegistry_def sim_world_def
        db_empty_def sim_ext_def Let_def bump_seq_def)
  then obtain r w' where p: "?m (sim_world db_empty) = (Inr r, w')" by (metis prod.collapse)
  have d: "db_ok (w_db (sim_world db_empty))" by (simp add: sim_world_def db_ok_empty)
  have "normalizeHost ''https://ghcr.io/'' = ''ghcr.io''" by code_simp
  with registry_password_roundtrip [OF sim_faultless sim_rand_ok sim_box_ok d p] p show ?thesis by auto
qed

text \<open>
  The credential attached to an image pull is the one of the first registry, in the order
  of the names, whose host is the image's host, with Docker Hub's three names taken as one; a
  reference without a registry part belongs to Docker Hub, and without a match there is no
  credential.
\<close>

lemma auth_for_image_first_match:
  assumes "AuthForImage X S img w = (Inr tok, w')"
  shows "\<exists>regs. set regs = set (db_registries (w_db w)) \<and>
    (case find (\<lambda>r. hostsMatch (rg_url r) (hostForImage img)) regs of
       None \<Rightarrow> tok = ''''
     | Some r \<Rightarrow> (\<exists>pw. Decrypt (srv_box S) (rg_passwordEnc r) = Inr pw \<and>
         tok = encodeAuth X (rg_username r) pw (rg_url r))) \<and>
    sorted (map (\<lambda>r. db_collate (w_db w) (rg_name r)) regs)"
proof -
  from assms obtain regs w1 where s: "sql X (ListRegistries '''') w = (Inr regs, w1)"
    and a: "auth_loop X S (hostForImage img) regs = Inr tok"
    by (auto simp: AuthForImage_def io_inr)
  from s obtain d e n where "ListRegistries '''' ((w_db w)\<lparr>db_now := n\<rparr>) = (Inr regs, d)"
    by (rule sql_Inr)
  then have regs: "regs = order_by ((w_db w)\<lparr>db_now := n\<rparr>) rg_name (db_registries (w_db w))"
    by (auto simp: ListRegistries_def)
  from a show ?thesis
    by (intro exI [of _ regs]) (auto simp: auth_loop_find regs order_by_def split: option.splits sum.splits)
qed

end
