(* ===== verification/Service.thy ===== *)
theory Service
  imports Proxy Endpoint Registry "HOL-Library.AList"
begin

text \<open>
  The service manager, \<^verbatim>\<open>service/service.go\<close>, \<^verbatim>\<open>service/scaler.go\<close>,
  \<^verbatim>\<open>service/git.go\<close> and the build in \<^verbatim>\<open>docker/build.go\<close>: the replicas of a
  service are reconciled on the host it runs on, its upstreams are contributed to the route
  registry, and its replica count follows the CPU load.
\<close>

section \<open>Replicas\<close>

definition replicaName :: "string \<Rightarrow> int \<Rightarrow> string" where
  "replicaName service i = service @ ''-'' @ goItoa i"

definition offset_port :: "int \<Rightarrow> port_map \<Rightarrow> port_map" where
  "offset_port delta p =
     (case goAtoi (trimSpace (pm_hostPort p)) of
        None \<Rightarrow> p
      | Some n \<Rightarrow> p\<lparr>pm_hostPort := goItoa (i64 (n + delta))\<rparr>)"

definition offsetHostPorts :: "port_map list \<Rightarrow> int \<Rightarrow> port_map list" where
  "offsetHostPorts ports delta =
     (if ports = [] \<or> delta = 0 then ports else map (offset_port delta) ports)"

definition service_env :: "'e ext \<Rightarrow> service \<Rightarrow> string list" where
  "service_env X svc = (if sv_env svc \<noteq> '''' then x_envParse X (sv_env svc) else [])"

definition service_advanced :: "'e ext \<Rightarrow> service \<Rightarrow> int \<Rightarrow> advanced_spec" where
  "service_advanced X svc i =
     (let adv = (if sv_advanced svc \<noteq> '''' then x_advParse X (sv_advanced svc) else advanced_zero)
      in adv\<lparr>ad_ports := offsetHostPorts (ad_ports adv) i\<rparr>)"

definition replica_spec :: "'e ext \<Rightarrow> service \<Rightarrow> int \<Rightarrow> string \<Rightarrow> deploy_spec" where
  "replica_spec X svc i auth =
     \<lparr>ds_name = replicaName (sv_name svc) i, ds_image = sv_image svc, ds_env = service_env X svc,
      ds_subdomain = sv_subdomain svc, ds_containerPort = sv_containerPort svc, ds_publish = [],
      ds_network = sv_network svc, ds_registryAuth = auth, ds_owner = sv_owner svc,
      ds_nanoCPUs = i64 (sv_cpuMilli svc * 1000000), ds_memoryBytes = i64 (sv_memMB svc * 2 ^ 20),
      ds_extraLabels = [(LabelService, sv_name svc), (LabelReplica, goItoa i)],
      ds_advanced = service_advanced X svc i\<rparr>"

definition replicaSpec :: "'e ext \<Rightarrow> server \<Rightarrow> service \<Rightarrow> int \<Rightarrow> ('e, deploy_spec) op" where
  "replicaSpec X S svc i =
     io_bind (auth_or_none X S (sv_image svc)) (\<lambda>auth. io_ret (replica_spec X svc i auth))"

text \<open>\<^verbatim>\<open>0, ..., n - 1\<close>, empty for a negative count.\<close>

definition indices :: "int \<Rightarrow> int list" where
  "indices n = map int [0..<nat n]"

section \<open>Upstreams\<close>

definition service_upstream_of :: "service \<Rightarrow> service_upstream" where
  "service_upstream_of svc =
     \<lparr>sp_service = sv_name svc, sp_subdomain = sv_subdomain svc,
      sp_hosts = map (replicaName (sv_name svc)) (indices (sv_replicas svc)),
      sp_port = word_of_int (sv_containerPort svc), sp_endpointID = sv_endpointID svc\<rparr>"

definition upstreams_of :: "service list \<Rightarrow> service_upstream list" where
  "upstreams_of svcs =
     map service_upstream_of (filter (\<lambda>svc. \<not> (sv_containerPort svc = 0 \<or> sv_replicas svc \<le> 0)) svcs)"

definition Upstreams :: "'e ext \<Rightarrow> ('e, service_upstream list) op" where
  "Upstreams X = io_bind (sql X (ListServices '''')) (\<lambda>svcs. io_ret (upstreams_of svcs))"

text \<open>\<^verbatim>\<open>m.registry.Sync(ctx)\<close>: the registry's service source is the manager itself.\<close>

definition SyncRoutes :: "'e ext \<Rightarrow> server \<Rightarrow> ('e, unit) op" where
  "SyncRoutes X S = Sync X S (Some (Upstreams X))"

section \<open>Reconciliation\<close>

definition dockerFor :: "'e ext \<Rightarrow> server \<Rightarrow> service \<Rightarrow> ('e, client) op" where
  "dockerFor X S svc = ClientFor X S (sv_endpointID svc)"

definition replica_index :: "summary \<Rightarrow> int option" where
  "replica_index c = goAtoi (mget (su_labels c) LabelReplica)"

text \<open>The first loop: the containers by replica index, starting those that do not run.\<close>

fun scan_replicas :: "'e ext \<Rightarrow> client \<Rightarrow> summary list \<Rightarrow> (int \<times> string) list
    \<Rightarrow> ('e, (int \<times> string) list) op" where
  "scan_replicas X cli [] m = io_ret m"
| "scan_replicas X cli (c # cs) m =
     (case replica_index c of
        None \<Rightarrow> scan_replicas X cli cs m
      | Some idx \<Rightarrow>
          io_seq (if su_state c \<noteq> ''running'' then quiet (ContainerStart X cli (su_id c)) else io_ret ())
            (scan_replicas X cli cs (AList.update idx (su_id c) m)))"

text \<open>The second loop: missing replicas are deployed; what is left over is returned.\<close>

fun ensure_replicas :: "'e ext \<Rightarrow> server \<Rightarrow> client \<Rightarrow> service \<Rightarrow> int list \<Rightarrow> (int \<times> string) list
    \<Rightarrow> ('e, (int \<times> string) list) op" where
  "ensure_replicas X S cli svc [] m = io_ret m"
| "ensure_replicas X S cli svc (i # is) m =
     (case map_of m i of
        Some _ \<Rightarrow> ensure_replicas X S cli svc is (AList.delete i m)
      | None \<Rightarrow>
          io_bind (replicaSpec X S svc i) (\<lambda>spec.
          io_seq (io_maperr (Wrap (''start replica '' @ goItoa i)) (Deploy X cli spec))
            (ensure_replicas X S cli svc is m)))"

definition remove_leftovers :: "'e ext \<Rightarrow> client \<Rightarrow> (int \<times> string) list \<Rightarrow> ('e, unit) op" where
  "remove_leftovers X cli m =
     io_bind (io_gets (\<lambda>w. x_order X (w_ext w) (map fst m))) (\<lambda>ks.
       io_foreach (\<lambda>k. case map_of m k of None \<Rightarrow> io_ret () | Some i \<Rightarrow> quiet (ContainerRemove X cli i)) ks)"

definition reconcile :: "'e ext \<Rightarrow> server \<Rightarrow> service \<Rightarrow> ('e, unit) op" where
  "reconcile X S svc =
     io_bind (dockerFor X S svc) (\<lambda>cli.
     io_bind (ListByLabel X cli (LabelService @ ''='' @ sv_name svc) True) (\<lambda>existing.
     io_bind (scan_replicas X cli existing []) (\<lambda>byIndex.
     io_bind (ensure_replicas X S cli svc (indices (sv_replicas svc)) byIndex) (\<lambda>left.
       remove_leftovers X cli left))))"

section \<open>Operations of the manager\<close>

definition ServiceCreate :: "'e ext \<Rightarrow> server \<Rightarrow> service \<Rightarrow> ('e, service) op" where
  "ServiceCreate X S svc =
     io_bind (sql X (CreateService svc)) (\<lambda>saved.
     io_seq (reconcile X S saved) (io_seq (SyncRoutes X S) (io_ret saved)))"

definition ServiceList :: "'e ext \<Rightarrow> string \<Rightarrow> ('e, service list) op" where
  "ServiceList X owner = sql X (ListServices owner)"

definition ServiceGet :: "'e ext \<Rightarrow> string \<Rightarrow> ('e, service) op" where
  "ServiceGet X name = sql X (GetService name)"

text \<open>One replica of a rolling replacement.\<close>

definition replace_replica :: "'e ext \<Rightarrow> server \<Rightarrow> client \<Rightarrow> string \<Rightarrow> string \<Rightarrow> service \<Rightarrow> int \<Rightarrow> ('e, unit) op" where
  "replace_replica X S cli what name svc i =
     io_seq (quiet (ContainerRemove X cli (replicaName name i)))
     (io_bind (replicaSpec X S svc i) (\<lambda>spec.
        io_seq (io_maperr (Wrap (what @ '' replica '' @ goItoa i)) (Deploy X cli spec)) (io_ret ())))"

text \<open>The last part of \<^verbatim>\<open>Update\<close>: replicas beyond the count are dropped.\<close>

definition drop_leftovers :: "'e ext \<Rightarrow> client \<Rightarrow> string \<Rightarrow> int \<Rightarrow> ('e, unit) op" where
  "drop_leftovers X cli name n =
     io_bind (io_try (ListByLabel X cli (LabelService @ ''='' @ name) True)) (\<lambda>r. case r of
         Inl _ \<Rightarrow> io_ret ()
       | Inr existing \<Rightarrow>
           io_foreach (\<lambda>c. case replica_index c of
               None \<Rightarrow> io_ret ()
             | Some idx \<Rightarrow> if n \<le> idx then quiet (ContainerRemove X cli (su_id c)) else io_ret ()) existing)"

definition keep_identity :: "service \<Rightarrow> service \<Rightarrow> service" where
  "keep_identity cur new = new\<lparr>sv_id := sv_id cur, sv_name := sv_name cur, sv_owner := sv_owner cur,
     sv_webhookToken := sv_webhookToken cur, sv_endpointID := sv_endpointID cur\<rparr>"

definition ServiceUpdate :: "'e ext \<Rightarrow> server \<Rightarrow> string \<Rightarrow> service \<Rightarrow> ('e, service) op" where
  "ServiceUpdate X S name new0 =
     io_bind (sql X (GetService name)) (\<lambda>cur.
       let new = keep_identity cur new0 in
       io_seq (sql X (UpdateService new))
       (io_bind (dockerFor X S new) (\<lambda>cli.
        io_seq (io_foreach (replace_replica X S cli ''update'' name new) (indices (sv_replicas new)))
        (io_seq (drop_leftovers X cli name (sv_replicas new))
        (io_seq (SyncRoutes X S) (io_ret new))))))"

definition SetSubdomain :: "'e ext \<Rightarrow> server \<Rightarrow> string \<Rightarrow> string \<Rightarrow> ('e, unit) op" where
  "SetSubdomain X S name subdomain =
     io_bind (sql X (GetService name)) (\<lambda>svc.
     io_seq (sql X (SetServiceSubdomain (sv_id svc) subdomain)) (SyncRoutes X S))"

definition Scale :: "'e ext \<Rightarrow> server \<Rightarrow> string \<Rightarrow> int \<Rightarrow> ('e, unit) op" where
  "Scale X S name replicas0 =
     io_bind (sql X (GetService name)) (\<lambda>svc.
       let replicas = (if replicas0 < 0 then 0 else replicas0) in
       io_seq (sql X (SetServiceReplicas (sv_id svc) replicas))
       (io_seq (reconcile X S (svc\<lparr>sv_replicas := replicas\<rparr>)) (SyncRoutes X S)))"

definition Redeploy :: "'e ext \<Rightarrow> server \<Rightarrow> string \<Rightarrow> string \<Rightarrow> ('e, unit) op" where
  "Redeploy X S name newImage =
     io_bind (sql X (GetService name)) (\<lambda>svc0.
       let svc = (if newImage \<noteq> '''' then svc0\<lparr>sv_image := newImage\<rparr> else svc0) in
       io_seq (sql X (SetServiceImage (sv_id svc) (sv_image svc)))
       (io_bind (dockerFor X S svc) (\<lambda>cli.
        io_seq (io_foreach (replace_replica X S cli ''redeploy'' name svc) (indices (sv_replicas svc)))
          (SyncRoutes X S))))"

definition ServiceDelete :: "'e ext \<Rightarrow> server \<Rightarrow> string \<Rightarrow> ('e, unit) op" where
  "ServiceDelete X S name =
     io_bind (sql X (GetService name)) (\<lambda>svc.
     io_bind (dockerFor X S svc) (\<lambda>cli.
     io_bind (ListByLabel X cli (LabelService @ ''='' @ name) True) (\<lambda>reps.
     io_seq (io_foreach (\<lambda>c. quiet (ContainerRemove X cli (su_id c))) reps)
     (io_seq (sql X (DeleteService (sv_id svc))) (SyncRoutes X S)))))"

definition SyncAll :: "'e ext \<Rightarrow> server \<Rightarrow> ('e, unit) op" where
  "SyncAll X S =
     io_bind (sql X (ListServices '''')) (\<lambda>svcs.
     io_seq (io_foreach (reconcile X S) svcs) (SyncRoutes X S))"

section \<open>Autoscaling\<close>

definition clamp :: "int \<Rightarrow> int \<Rightarrow> int \<Rightarrow> int" where
  "clamp v lo hi = (if v < lo then lo else if v > hi then hi else v)"

definition desired_replicas :: "bool \<Rightarrow> bool \<Rightarrow> int \<Rightarrow> int \<Rightarrow> int \<Rightarrow> int" where
  "desired_replicas hot cold current lo hi =
     clamp (if hot \<and> current < hi then current + 1
            else if cold \<and> current > lo then current - 1
            else current) lo hi"

text \<open>
  The CPU percentages of the running replicas; \<^const>\<open>None\<close> for one that could not be read.  It
  adds nothing to the total, but counts in the mean.
\<close>

fun sample_replicas :: "'e ext \<Rightarrow> client \<Rightarrow> summary list \<Rightarrow> ('e, rat option list) op" where
  "sample_replicas X cli [] = io_ret []"
| "sample_replicas X cli (c # cs) =
     io_bind (io_try (CPUPercent X cli (su_id c))) (\<lambda>r.
     io_bind (sample_replicas X cli cs) (\<lambda>rs.
       io_ret ((case r of Inl _ \<Rightarrow> None | Inr p \<Rightarrow> Some p) # rs)))"

fun add_samples :: "rat \<Rightarrow> rat option list \<Rightarrow> rat" where
  "add_samples t [] = t"
| "add_samples t (None # ps) = add_samples t ps"
| "add_samples t (Some p # ps) = add_samples (fl (t + p)) ps"

definition mean_cpu :: "rat option list \<Rightarrow> rat" where
  "mean_cpu ps = fl (add_samples 0 ps / fl (of_int (int (length ps))))"

definition cpu_above :: "rat option list \<Rightarrow> int \<Rightarrow> bool" where
  "cpu_above ps targetPct \<longleftrightarrow> mean_cpu ps > fl (of_int targetPct)"

definition cpu_below_half :: "rat option list \<Rightarrow> int \<Rightarrow> bool" where
  "cpu_below_half ps targetPct \<longleftrightarrow> mean_cpu ps < fl (fl (of_int targetPct) / 2)"

text \<open>One service of \<^verbatim>\<open>scaleOnce\<close>; every failure skips the service.\<close>

definition scale_service :: "'e ext \<Rightarrow> server \<Rightarrow> service \<Rightarrow> ('e, unit) op" where
  "scale_service X S svc =
     (if \<not> sv_autoscale svc then io_ret ()
      else quiet (
        io_bind (dockerFor X S svc) (\<lambda>cli.
        io_bind (ListByLabel X cli (LabelService @ ''='' @ sv_name svc) False) (\<lambda>reps.
          if reps = [] then io_ret ()
          else io_bind (sample_replicas X cli reps) (\<lambda>ss.
            let current = int (length reps);
                desired = desired_replicas (cpu_above ss (sv_targetCPUPct svc))
                  (cpu_below_half ss (sv_targetCPUPct svc)) current (sv_minReplicas svc) (sv_maxReplicas svc)
            in if desired \<noteq> current then Scale X S (sv_name svc) desired else io_ret ())))))"

definition scaleOnce :: "'e ext \<Rightarrow> server \<Rightarrow> ('e, unit) op" where
  "scaleOnce X S =
     quiet (io_bind (sql X (ListServices '''')) (\<lambda>svcs. io_foreach (scale_service X S) svcs))"

section \<open>Builds from git\<close>

text \<open>The loop over the build's output: the first error message ends it.\<close>

fun build_output :: "build_message list \<Rightarrow> goerr option \<Rightarrow> goerr option" where
  "build_output [] e = map_option (Wrap ''read build output'') e"
| "build_output (m # ms) e =
     (if bm_error m \<noteq> '''' then Some (Err (''build failed: '' @ bm_error m)) else build_output ms e)"

definition BuildImage :: "'e ext \<Rightarrow> client \<Rightarrow> string \<Rightarrow> string \<Rightarrow> string \<Rightarrow> ('e, unit) op" where
  "BuildImage X cli contextDir dockerfile tag =
     io_bind (io_maperr (Wrap ''tar build context'') (ext (x_tarDir X contextDir))) (\<lambda>tar.
     io_bind (io_maperr (Wrap ''image build'')
        (ext (da_imageBuild (x_docker X) cli tar (if dockerfile = '''' then ''Dockerfile'' else dockerfile) tag)))
     (\<lambda>(ms, e). case build_output ms e of None \<Rightarrow> io_ret () | Some err \<Rightarrow> io_raise err))"

definition BuildAndRedeploy :: "'e ext \<Rightarrow> server \<Rightarrow> service \<Rightarrow> ('e, unit) op" where
  "BuildAndRedeploy X S svc =
     (if sv_gitRepo svc = '''' then io_raise (Err (''service '' @ sv_name svc @ '' has no git repo configured''))
      else io_bind (ext (x_mkdirTemp X)) (\<lambda>dir.
        let branch = (if sv_gitBranch svc = '''' then ''main'' else sv_gitBranch svc);
            tag = ''easydeploy/'' @ sv_name svc @ '':latest''
        in io_seq (io_maperr (Wrap ''git clone'') (ext (x_gitClone X dir (sv_gitRepo svc) branch)))
           (io_bind (dockerFor X S svc) (\<lambda>cli.
            io_seq (io_maperr (Wrap ''build'') (BuildImage X cli dir (sv_gitDockerfile svc) tag))
              (Redeploy X S (sv_name svc) tag)))))"

end
