(* ===== verification/Replicas.thy ===== *)
theory Replicas
  imports Service
begin

text \<open>
  What the service manager guarantees about the containers of a host.  The Docker daemon is
  outside the repository: \<^verbatim>\<open>docker_ok\<close> states what its documentation says of the calls
  the manager makes, over a view of the containers of a client's host.
\<close>

section \<open>The containers of a host\<close>

text \<open>\<^verbatim>\<open>cv_running\<close>: the daemon lists the container when it is not asked for all of them.\<close>

record container_view =
  cv_id :: string
  cv_name :: string
  cv_labels :: "string \<rightharpoonup> string"
  cv_running :: bool

type_synonym 'e view = "'e \<Rightarrow> client \<Rightarrow> container_view list"

text \<open>A reference names a container by its identifier, or else by its name.\<close>

definition refers :: "container_view list \<Rightarrow> string \<Rightarrow> container_view \<Rightarrow> bool" where
  "refers vs x k \<longleftrightarrow> (if x \<in> cv_id ` set vs then cv_id k = x else cv_name k = x)"

definition started :: "string \<Rightarrow> container_view list \<Rightarrow> container_view list" where
  "started x vs = upd_rows (refers vs x) (\<lambda>k. k\<lparr>cv_running := True\<rparr>) vs"

definition removed :: "string \<Rightarrow> container_view list \<Rightarrow> container_view list" where
  "removed x vs = del_rows (refers vs x) vs"

text \<open>
  A call that returned had its effect; one that failed may or may not have had it.  A created
  container has an identifier of its own and the labels of its configuration.
\<close>

definition created :: "container_view list \<Rightarrow> container_config \<Rightarrow> string \<Rightarrow> container_view list \<Rightarrow> bool" where
  "created vs cfg name vs' \<longleftrightarrow> (\<exists>i. i \<notin> cv_id ` set vs \<and>
     vs' = vs @ [\<lparr>cv_id = i, cv_name = name, cv_labels = cc_labels cfg, cv_running = False\<rparr>])"

text \<open>A list filtered by a label has the containers with that label, in whatever state they are reported.\<close>

definition list_ok :: "'e ext \<Rightarrow> 'e view \<Rightarrow> bool" where
  "list_ok X V \<longleftrightarrow> (\<forall>c all k v e r e'.
     CHR ''='' \<notin> set k \<and> da_containerList (x_docker X) c all (k @ ''='' @ v) e = (r, e') \<longrightarrow>
        V e' c = V e c \<and>
        (\<forall>ss. r = Inr ss \<longrightarrow> (\<lambda>s. (su_id s, su_labels s)) ` set ss =
           (\<lambda>q. (cv_id q, cv_labels q)) ` {q \<in> set (V e c). (all \<or> cv_running q) \<and> cv_labels q k = Some v}))"

definition start_ok :: "'e ext \<Rightarrow> 'e view \<Rightarrow> bool" where
  "start_ok X V \<longleftrightarrow> (\<forall>c x e r e'. da_containerStart (x_docker X) c x e = (r, e') \<longrightarrow>
     V e' c = started x (V e c) \<or> (\<exists>err. r = Inl err \<and> V e' c = V e c))"

definition remove_ok :: "'e ext \<Rightarrow> 'e view \<Rightarrow> bool" where
  "remove_ok X V \<longleftrightarrow> (\<forall>c x e r e'. da_containerRemove (x_docker X) c x e = (r, e') \<longrightarrow>
     V e' c = removed x (V e c) \<or> (\<exists>err. r = Inl err \<and> V e' c = V e c))"

definition create_ok :: "'e ext \<Rightarrow> 'e view \<Rightarrow> bool" where
  "create_ok X V \<longleftrightarrow> (\<forall>c cfg host nets name e r e'.
     da_containerCreate (x_docker X) c cfg host nets name e = (r, e') \<longrightarrow>
       (case r of
          Inr i \<Rightarrow> i \<notin> cv_id ` set (V e c) \<and> V e' c = V e c @
            [\<lparr>cv_id = i, cv_name = name, cv_labels = cc_labels cfg, cv_running = False\<rparr>]
        | Inl err \<Rightarrow> V e' c = V e c \<or> created (V e c) cfg name (V e' c)))"

text \<open>Pulling an image and using the database do not touch containers.\<close>

definition docker_ok :: "'e ext \<Rightarrow> 'e view \<Rightarrow> bool" where
  "docker_ok X V \<longleftrightarrow> list_ok X V \<and> start_ok X V \<and> remove_ok X V \<and> create_ok X V \<and>
     (\<forall>c e ref auth. V (snd (da_imagePull (x_docker X) c ref auth e)) c = V e c) \<and>
     (\<forall>c e. V (snd (x_sql X e)) c = V e c)"

section \<open>Replicas of a service\<close>

definition own :: "string \<Rightarrow> container_view \<Rightarrow> bool" where
  "own n k \<longleftrightarrow> cv_labels k LabelService = Some n"

definition view_index :: "container_view \<Rightarrow> int option" where
  "view_index k = goAtoi (mget (cv_labels k) LabelReplica)"

definition foreign :: "string \<Rightarrow> container_view list \<Rightarrow> container_view list" where
  "foreign n vs = filter (\<lambda>k. \<not> own n k) vs"

definition has_replica :: "string \<Rightarrow> int \<Rightarrow> container_view list \<Rightarrow> bool" where
  "has_replica n i vs \<longleftrightarrow> (\<exists>k \<in> set vs. own n k \<and> view_index k = Some i)"

text \<open>
  The invariant of a reconciliation: the containers of others are \<^verbatim>\<open>F\<close>, \<^verbatim>\<open>M\<close>
  maps replica numbers to present containers of the service, and the replicas \<^verbatim>\<open>I\<close> have
  containers that \<^verbatim>\<open>M\<close> does not name.
\<close>

definition settled :: "string \<Rightarrow> container_view list \<Rightarrow> (int \<rightharpoonup> string) \<Rightarrow> int set \<Rightarrow> container_view list \<Rightarrow> bool" where
  "settled n F M I vs \<longleftrightarrow> distinct (map cv_id vs) \<and> foreign n vs = F \<and>
     (\<forall>i a. M i = Some a \<longrightarrow> (\<exists>k \<in> set vs. own n k \<and> cv_id k = a \<and> view_index k = Some i)) \<and>
     (\<forall>i \<in> I. \<exists>k \<in> set vs. own n k \<and> view_index k = Some i \<and> cv_id k \<notin> ran M)"

lemma settled_weaken: "settled n F M I vs \<Longrightarrow> settled n F Map.empty {} vs"
  by (simp add: settled_def)

lemma settled_unique:
  "settled n F M I vs \<Longrightarrow> k \<in> set vs \<Longrightarrow> q \<in> set vs \<Longrightarrow> cv_id k = cv_id q \<Longrightarrow> k = q"
  by (auto simp: settled_def distinct_map dest: inj_onD)

text \<open>The identifiers tracked for different replicas differ.\<close>

lemma settled_inj:
  assumes "settled n F M I vs" "M i = Some a" "M j = Some a"
  shows "i = j"
proof -
  from assms obtain k q where "k \<in> set vs" "cv_id k = a" "view_index k = Some i"
    and "q \<in> set vs" "cv_id q = a" "view_index q = Some j"
    unfolding settled_def by blast
  with settled_unique [OF assms(1), of k q] show ?thesis by simp
qed

text \<open>A tracked container need not be tracked any more: it counts as the replica.\<close>

lemma settled_keep:
  assumes "settled n F M I vs" "M i = Some a"
  shows "settled n F (M(i := None)) (insert i I) vs"
proof -
  from assms obtain k where k: "k \<in> set vs" "own n k" "cv_id k = a" "view_index k = Some i"
    unfolding settled_def by blast
  have "a \<notin> ran (M(i := None))"
    using settled_inj [OF assms(1) _ assms(2)] by (auto simp: ran_def split: if_splits)
  moreover have "ran (M(i := None)) \<subseteq> ran M" by (auto simp: ran_def)
  ultimately show ?thesis using assms(1) k unfolding settled_def by (auto split: if_splits) blast+
qed

text \<open>A new container of the service.\<close>

lemma settled_create:
  assumes "settled n F M I vs" "own n k" "cv_id k \<notin> cv_id ` set vs" "view_index k = Some i"
  shows "settled n F M (insert i I) (vs @ [k])"
proof -
  have "cv_id k \<notin> ran M"
  proof
    assume "cv_id k \<in> ran M"
    then obtain j where "M j = Some (cv_id k)" by (auto simp: ran_def)
    with assms(1) obtain q where "q \<in> set vs" "cv_id q = cv_id k" unfolding settled_def by blast
    with assms(3) show False by (metis image_eqI)
  qed
  with assms show ?thesis unfolding settled_def foreign_def by (auto simp: image_iff)
qed

text \<open>Removing a tracked container.\<close>

lemma settled_remove:
  assumes "settled n F M I vs" "M i = Some a"
  shows "settled n F (M(i := None)) I (removed a vs)" "settled n F (M(i := None)) I vs"
proof -
  from assms obtain k where k: "k \<in> set vs" "own n k" "cv_id k = a" "view_index k = Some i"
    unfolding settled_def by blast
  then have a: "a \<in> cv_id ` set vs" by auto
  have rem: "removed a vs = filter (\<lambda>q. cv_id q \<noteq> a) vs"
    using a by (simp add: removed_def refers_def [abs_def] del_rows_def)
  have r: "ran (M(i := None)) \<subseteq> ran M" and "a \<in> ran M" using assms(2) by (auto simp: ran_def)
  have no: "a \<notin> ran (M(i := None))"
    using settled_inj [OF assms(1) _ assms(2)] by (auto simp: ran_def split: if_splits)
  have "foreign n (filter (\<lambda>q. cv_id q \<noteq> a) vs) = foreign n vs"
    using settled_unique [OF assms(1)] k unfolding foreign_def filter_filter
    by (intro filter_cong [OF refl]) auto
  moreover have "distinct (map cv_id (filter (\<lambda>q. cv_id q \<noteq> a) vs))"
    using assms(1) by (simp add: settled_def distinct_map_filter)
  moreover have "\<exists>k \<in> set (filter (\<lambda>q. cv_id q \<noteq> a) vs). own n k \<and> cv_id k = b \<and> view_index k = Some j"
    if "(M(i := None)) j = Some b" for j b
  proof -
    from that no have "b \<noteq> a" by (auto simp: ran_def)
    from that have "M j = Some b" by (simp split: if_splits)
    with assms(1) \<open>b \<noteq> a\<close> show ?thesis unfolding settled_def by auto
  qed
  moreover have "\<exists>k \<in> set (filter (\<lambda>q. cv_id q \<noteq> a) vs). own n k \<and> view_index k = Some j \<and> cv_id k \<notin> ran (M(i := None))"
    if "j \<in> I" for j
  proof -
    from assms(1) that obtain q where "q \<in> set vs" "own n q" "view_index q = Some j" "cv_id q \<notin> ran M"
      unfolding settled_def by blast
    with r \<open>a \<in> ran M\<close> show ?thesis by auto
  qed
  ultimately show "settled n F (M(i := None)) I (removed a vs)"
    using assms(1) unfolding rem settled_def by simp
  show "settled n F (M(i := None)) I vs"
    using assms(1) r unfolding settled_def by (simp split: if_splits) blast
qed

text \<open>Starting a container changes neither its identifier nor its labels.\<close>

lemma settled_start:
  assumes "settled n F M I vs" "q \<in> set vs" "own n q" "cv_id q = a"
  shows "settled n F M I (started a vs)"
proof -
  let ?f = "\<lambda>k. if cv_id k = a then k\<lparr>cv_running := True\<rparr> else k"
  have st: "started a vs = map ?f vs"
    using assms(2,4) by (auto simp: started_def refers_def [abs_def] upd_rows_def)
  have f: "cv_id (?f k) = cv_id k" "cv_labels (?f k) = cv_labels k" for k by simp_all
  then have o: "own n (?f k) = own n k" "view_index (?f k) = view_index k" for k
    by (simp_all add: own_def view_index_def)
  have "foreign n (map ?f vs) = map ?f (foreign n vs)"
    unfolding foreign_def filter_map comp_def o by simp
  moreover have "map ?f (foreign n vs) = foreign n vs"
    using settled_unique [OF assms(1)] assms(2-4) by (intro map_idI) (auto simp: foreign_def)
  moreover have "map cv_id (map ?f vs) = map cv_id vs" by simp
  ultimately show ?thesis
    using assms(1) unfolding st settled_def
    by (simp only: set_map bex_simps(7) o f) blast
qed

text \<open>A container of the service the listing gave is tracked under its replica number.\<close>

definition listed :: "string \<Rightarrow> summary list \<Rightarrow> container_view list \<Rightarrow> bool" where
  "listed n ss vs \<longleftrightarrow>
     (\<forall>s \<in> set ss. \<exists>k \<in> set vs. own n k \<and> cv_id k = su_id s \<and> view_index k = replica_index s)"

lemma listed_started: "listed n ss vs \<Longrightarrow> listed n ss (started a vs)"
proof -
  assume l: "listed n ss vs"
  let ?f = "\<lambda>k. if refers vs a k then k\<lparr>cv_running := True\<rparr> else k"
  have f: "own n (?f k) = own n k" "cv_id (?f k) = cv_id k" "view_index (?f k) = view_index k" for k
    by (simp_all add: own_def view_index_def)
  show ?thesis
    using l unfolding listed_def started_def set_upd_rows bex_simps(7) f .
qed

lemma settled_track:
  assumes "settled n F M {} vs" "k \<in> set vs" "own n k" "cv_id k = a" "view_index k = Some i"
  shows "settled n F (M(i \<mapsto> a)) {} vs"
  using assms unfolding settled_def by (simp split: if_splits) blast

section \<open>The calls on one host\<close>

definition on_host :: "'e view \<Rightarrow> client \<Rightarrow> (container_view list \<Rightarrow> bool) \<Rightarrow> 'e world \<Rightarrow> bool" where
  "on_host V c P w \<longleftrightarrow> P (V (w_ext w) c)"

lemma on_host_ext: "on_host V c P (w\<lparr>w_ext := e\<rparr>) = P (V e c)"
  by (simp add: on_host_def)

lemma docker_okD:
  assumes "docker_ok X V"
  shows "list_ok X V" "start_ok X V" "remove_ok X V" "create_ok X V"
    "V (snd (da_imagePull (x_docker X) c ref auth e)) c = V e c" "V (snd (x_sql X e)) c = V e c"
  using assms by (auto simp: docker_ok_def)

lemma sql_view [io_keep]: "docker_ok X V \<Longrightarrow> io_keeps (on_host V c P) (sql X q)"
  by (auto simp: io_keeps_def on_host_def sql_def Let_def split: prod.splits fault.splits)
    (metis docker_okD(6) snd_conv)+

lemma on_xds_view [io_keep]: "io_keeps (on_host V c P) (on_xds f)"
  by (simp add: io_keeps_def on_host_def)

lemma modify_view [io_keep]: "(\<And>w. w_ext (f w) = w_ext w) \<Longrightarrow> io_keeps (on_host V c P) (io_modify f)"
  by (simp add: io_keeps_def on_host_def io_defs)

lemma pull_view [io_keep]: "docker_ok X V \<Longrightarrow> io_keeps (on_host V c P) (PullImageAuth X c ref auth)"
  by (auto simp: io_keeps_def on_host_def PullImageAuth_def ext_def split: prod.splits)
    (metis docker_okD(5) snd_conv)

lemma list_spec:
  assumes "docker_ok X V"
  shows "io_spec (on_host V c (settled n F M I)) (ListByLabel X c (LabelService @ ''='' @ n) all)
    (\<lambda>ss. on_host V c (\<lambda>vs. settled n F M I vs \<and> listed n ss vs)) (on_host V c (settled n F M I))"
proof -
  have "CHR ''='' \<notin> set LabelService" by (simp add: LabelService_def)
  moreover from assms have "list_ok X V" by (rule docker_okD)
  ultimately have l: "V e' c = V e c \<and> (\<forall>ss. r = Inr ss \<longrightarrow> (\<lambda>s. (su_id s, su_labels s)) ` set ss =
         (\<lambda>q. (cv_id q, cv_labels q)) ` {q \<in> set (V e c). (all \<or> cv_running q) \<and> cv_labels q LabelService = Some n})"
    if "da_containerList (x_docker X) c all (LabelService @ ''='' @ n) e = (r, e')" for e r e'
    using that unfolding list_ok_def by blast
  show ?thesis
    unfolding io_spec_def ListByLabel_def ext_def on_host_def
  proof (intro allI impI)
    fix w
    assume s: "settled n F M I (V (w_ext w) c)"
    obtain r e' where r: "da_containerList (x_docker X) c all (LabelService @ ''='' @ n) (w_ext w) = (r, e')"
      by fastforce
    have "listed n ss (V (w_ext w) c)" if "r = Inr ss" for ss
      unfolding listed_def
    proof
      fix s
      assume "s \<in> set ss"
      then have "(su_id s, su_labels s) \<in> (\<lambda>s. (su_id s, su_labels s)) ` set ss" by blast
      also have "\<dots> = (\<lambda>q. (cv_id q, cv_labels q)) ` {q \<in> set (V (w_ext w) c). (all \<or> cv_running q) \<and>
          cv_labels q LabelService = Some n}" using l [OF r] that by blast
      finally obtain q where "q \<in> set (V (w_ext w) c)" "cv_labels q LabelService = Some n" "cv_id q = su_id s" "cv_labels q = su_labels s"
        by auto
      then show "\<exists>k \<in> set (V (w_ext w) c). own n k \<and> cv_id k = su_id s \<and> view_index k = replica_index s"
        by (intro bexI [of _ q]) (simp_all add: own_def replica_index_def view_index_def)
    qed
    with s l [OF r] r
    show "case case da_containerList (x_docker X) c all (LabelService @ ''='' @ n) (w_ext w) of
         (r, e) \<Rightarrow> (r, w\<lparr>w_ext := e\<rparr>) of
         (Inl x, t) \<Rightarrow> settled n F M I (V (w_ext t) c)
       | (Inr x, t) \<Rightarrow> settled n F M I (V (w_ext t) c) \<and> listed n x (V (w_ext t) c)"
      by (auto split: sum.splits)
  qed
qed

lemma start_view:
  assumes "docker_ok X V" "\<And>vs. P vs \<Longrightarrow> Q vs" "\<And>vs. P vs \<Longrightarrow> Q (started x vs)"
  shows "io_spec (on_host V c P) (ContainerStart X c x) (\<lambda>_. on_host V c Q) (on_host V c Q)"
  unfolding io_spec_def ContainerStart_def ext_def on_host_def
proof (intro allI impI)
  fix w
  assume "P (V (w_ext w) c)"
  moreover obtain r e' where r: "da_containerStart (x_docker X) c x (w_ext w) = (r, e')" by fastforce
  moreover have "V e' c = started x (V (w_ext w) c) \<or> V e' c = V (w_ext w) c"
    using docker_okD(2) [OF assms(1)] r unfolding start_ok_def by blast
  ultimately show "case case da_containerStart (x_docker X) c x (w_ext w) of (r, e) \<Rightarrow> (r, w\<lparr>w_ext := e\<rparr>) of
      (Inl e, t) \<Rightarrow> Q (V (w_ext t) c) | (Inr xa, t) \<Rightarrow> Q (V (w_ext t) c)"
    using assms(2,3) by (auto split: sum.splits)
qed

lemma remove_view:
  assumes "docker_ok X V" "\<And>vs. P vs \<Longrightarrow> Q vs" "\<And>vs. P vs \<Longrightarrow> Q (removed x vs)"
  shows "io_spec (on_host V c P) (ContainerRemove X c x) (\<lambda>_. on_host V c Q) (on_host V c Q)"
  unfolding io_spec_def ContainerRemove_def ext_def on_host_def
proof (intro allI impI)
  fix w
  assume "P (V (w_ext w) c)"
  moreover obtain r e' where r: "da_containerRemove (x_docker X) c x (w_ext w) = (r, e')" by fastforce
  moreover have "V e' c = removed x (V (w_ext w) c) \<or> V e' c = V (w_ext w) c"
    using docker_okD(3) [OF assms(1)] r unfolding remove_ok_def by blast
  ultimately show "case case da_containerRemove (x_docker X) c x (w_ext w) of (r, e) \<Rightarrow> (r, w\<lparr>w_ext := e\<rparr>) of
      (Inl e, t) \<Rightarrow> Q (V (w_ext t) c) | (Inr xa, t) \<Rightarrow> Q (V (w_ext t) c)"
    using assms(2,3) by (auto split: sum.splits)
qed

lemma quiet_spec: "io_spec P m (\<lambda>_. Q) Q \<Longrightarrow> io_spec P (quiet m) (\<lambda>_. Q) E"
  unfolding quiet_def by (rule io_spec_seq [where R = Q]) (auto intro: io_spec_try io_triple)

lemma create_view:
  assumes "docker_ok X V" "\<And>vs. P vs \<Longrightarrow> R vs"
    and new: "\<And>vs i. P vs \<Longrightarrow> i \<notin> cv_id ` set vs \<Longrightarrow>
      Q i (vs @ [\<lparr>cv_id = i, cv_name = name, cv_labels = cc_labels cfg, cv_running = False\<rparr>])"
    and "\<And>i vs. Q i vs \<Longrightarrow> R vs"
  shows "io_spec (on_host V c P) (ContainerCreate X c cfg host nets name) (\<lambda>i. on_host V c (Q i)) (on_host V c R)"
  unfolding io_spec_def ContainerCreate_def ext_def on_host_def
proof (intro allI impI)
  fix w
  assume p: "P (V (w_ext w) c)"
  obtain r e' where r: "da_containerCreate (x_docker X) c cfg host nets name (w_ext w) = (r, e')" by fastforce
  have o: "case r of
          Inr i \<Rightarrow> i \<notin> cv_id ` set (V (w_ext w) c) \<and> V e' c = V (w_ext w) c @
            [\<lparr>cv_id = i, cv_name = name, cv_labels = cc_labels cfg, cv_running = False\<rparr>]
        | Inl err \<Rightarrow> V e' c = V (w_ext w) c \<or> created (V (w_ext w) c) cfg name (V e' c)"
    using docker_okD(4) [OF assms(1)] r unfolding create_ok_def by blast
  have "R vs'" if "created (V (w_ext w) c) cfg name vs'" for vs'
    using that new [OF p] assms(4) by (fastforce simp: created_def)
  note cr = this
  show "case case da_containerCreate (x_docker X) c cfg host nets name (w_ext w) of
        (r, e) \<Rightarrow> (r, w\<lparr>w_ext := e\<rparr>) of
      (Inl e, t) \<Rightarrow> R (V (w_ext t) c) | (Inr i, t) \<Rightarrow> Q i (V (w_ext t) c)"
  proof (cases r)
    case (Inl err)
    with o assms(2) [OF p] cr r show ?thesis by auto
  next
    case (Inr i)
    with o new [OF p] r show ?thesis by auto
  qed
qed

section \<open>The two loops of a reconciliation\<close>

lemma scan_spec:
  assumes "docker_ok X V"
  shows "io_spec (on_host V c (\<lambda>vs. settled n F (map_of m) {} vs \<and> listed n ss vs))
    (scan_replicas X c ss m) (\<lambda>m'. on_host V c (settled n F (map_of m') {}))
    (on_host V c (settled n F Map.empty {}))"
proof (induction ss arbitrary: m)
  case Nil
  then show ?case by (auto intro: io_triple simp: on_host_def)
next
  case (Cons s ss)
  show ?case
  proof (cases "replica_index s")
    case None
    with Cons.IH [of m] show ?thesis
      by (auto elim: io_spec_weaken simp: on_host_def listed_def)
  next
    case (Some i)
    let ?m = "AList.update i (su_id s) m"
    let ?P = "\<lambda>vs. settled n F (map_of m) {} vs \<and> listed n (s # ss) vs"
    have st: "?P (started (su_id s) vs)" if p: "?P vs" for vs
    proof -
      from p obtain k where "k \<in> set vs" "own n k" "cv_id k = su_id s" by (auto simp: listed_def)
      with p settled_start [of n F "map_of m" "{}" vs k "su_id s"] listed_started show ?thesis by blast
    qed
    have tr: "settled n F (map_of ?m) {} vs \<and> listed n ss vs" if p: "?P vs" for vs
    proof -
      from p Some obtain k where "k \<in> set vs" "own n k" "cv_id k = su_id s" "view_index k = Some i"
        by (auto simp: listed_def)
      with p settled_track [of n F "map_of m" vs k "su_id s" i] show ?thesis
        by (simp add: update_conv' listed_def)
    qed
    have "io_spec (on_host V c ?P) (if su_state s \<noteq> ''running'' then quiet (ContainerStart X c (su_id s)) else io_ret ())
        (\<lambda>_. on_host V c ?P) (on_host V c (settled n F Map.empty {}))"
    proof (cases "su_state s \<noteq> ''running''")
      case True
      have "io_spec (on_host V c ?P) (ContainerStart X c (su_id s)) (\<lambda>_. on_host V c ?P) (on_host V c ?P)"
        by (rule start_view [OF assms]) (use st in auto)
      with True show ?thesis by (simp add: quiet_spec)
    qed (auto intro: io_triple)
    moreover have "io_spec (on_host V c ?P) (scan_replicas X c ss ?m)
        (\<lambda>m'. on_host V c (settled n F (map_of m') {})) (on_host V c (settled n F Map.empty {}))"
      by (rule io_spec_weaken [OF Cons.IH [of ?m]]) (use tr in \<open>auto simp: on_host_def\<close>)
    ultimately show ?thesis using Some by (auto intro: io_spec_seq)
  qed
qed

text \<open>The options of a service do not set the labels that mark its replicas.\<close>

definition option_labels :: "'e ext \<Rightarrow> service \<Rightarrow> (string \<times> string) list" where
  "option_labels X svc =
     ad_labels (if sv_advanced svc \<noteq> '''' then x_advParse X (sv_advanced svc) else advanced_zero)"

definition labels_plain :: "'e ext \<Rightarrow> service \<Rightarrow> bool" where
  "labels_plain X svc \<longleftrightarrow> LabelService \<notin> fst ` set (option_labels X svc) \<and>
     LabelReplica \<notin> fst ` set (option_labels X svc)"

lemma service_advanced_labels [simp]: "ad_labels (service_advanced X svc i) = option_labels X svc"
  by (simp add: service_advanced_def option_labels_def Let_def)

lemma replica_spec_labels:
  "deploy_labels (replica_spec X svc i auth) LabelService = Some (sv_name svc)"
  "deploy_labels (replica_spec X svc i auth) LabelReplica = Some (goItoa i)"
  "sv_owner svc \<noteq> '''' \<Longrightarrow> deploy_labels (replica_spec X svc i auth) LabelOwner = Some (sv_owner svc)"
  by (simp_all add: deploy_labels_def replica_spec_def add_labels_def Let_def)

lemma replica_spec_fields [simp]:
  "ds_advanced (replica_spec X svc i auth) = service_advanced X svc i"
  "ds_nanoCPUs (replica_spec X svc i auth) = i64 (sv_cpuMilli svc * 1000000)"
  "ds_memoryBytes (replica_spec X svc i auth) = i64 (sv_memMB svc * 2 ^ 20)"
  by (simp_all add: replica_spec_def)

lemma replica_config_labels:
  assumes "deploy_config np (replica_spec X svc i auth) = Inr (cfg, host)" "labels_plain X svc"
  shows "cc_labels cfg LabelService = Some (sv_name svc)" "cc_labels cfg LabelReplica = Some (goItoa i)"
  using assms(2) deploy_config_frame(1) [OF assms(1)]
  by (simp_all add: labels_plain_def add_labels_other replica_spec_labels)

lemma AuthForImage_view: "docker_ok X V \<Longrightarrow> io_keeps (on_host V c P) (auth_or_none X S img)"
  by (intro io_keep)

lemma replicaSpec_spec:
  assumes "docker_ok X V"
  shows "io_spec (on_host V c P) (replicaSpec X S svc i)
    (\<lambda>spec w. on_host V c P w \<and> (\<exists>auth. spec = replica_spec X svc i auth)) (on_host V c P)"
  unfolding replicaSpec_def
  by (rule io_spec_bind [OF io_spec_keeps [OF AuthForImage_view [OF assms]]]) (auto intro: io_triple)

lemma Deploy_spec:
  assumes "docker_ok X V" "labels_plain X svc" "in_i64 i"
  shows "io_spec (on_host V c (settled (sv_name svc) F M I)) (Deploy X c (replica_spec X svc i auth))
    (\<lambda>_. on_host V c (settled (sv_name svc) F M (insert i I)))
    (on_host V c (settled (sv_name svc) F Map.empty {}))"
proof -
  let ?n = "sv_name svc"
  let ?spec = "replica_spec X svc i auth"
  let ?E = "on_host V c (settled ?n F Map.empty {})"
  have weak: "on_host V c (settled ?n F M' I') w \<Longrightarrow> ?E w" for M' I' w
    by (auto simp: on_host_def intro: settled_weaken)
  have pull: "io_spec (on_host V c (settled ?n F M I)) (quiet (PullImageAuth X c (ds_image ?spec) (ds_registryAuth ?spec)))
      (\<lambda>_. on_host V c (settled ?n F M I)) ?E"
    by (rule quiet_spec [OF io_spec_keeps [OF pull_view [OF assms(1)]]])
  show ?thesis
  proof (cases "deploy_config (x_newPort X) ?spec")
    case (Inl e)
    then show ?thesis
      unfolding Deploy_def by (auto intro!: io_spec_seq [OF pull] io_triple weak)
  next
    case (Inr r)
    obtain cfg host where r: "r = (cfg, host)" by (cases r)
    note lab = replica_config_labels [OF Inr [unfolded r] assms(2)]
    let ?new = "\<lambda>a. \<lparr>cv_id = a, cv_name = ds_name ?spec, cv_labels = cc_labels cfg, cv_running = False\<rparr>"
    have new: "own ?n (?new a)" "view_index (?new a) = Some i" for a
      using lab assms(3) by (simp_all add: own_def view_index_def mget_def goAtoi_goItoa)
    let ?Q = "\<lambda>a vs. settled ?n F M (insert i I) vs \<and> (\<exists>k \<in> set vs. own ?n k \<and> cv_id k = a)"
    have cr: "io_spec (on_host V c (settled ?n F M I))
        (ContainerCreate X c cfg host (if ds_network ?spec \<noteq> '''' then [(ds_network ?spec, '''')] else []) (ds_name ?spec))
        (\<lambda>a. on_host V c (?Q a)) ?E"
    proof (rule create_view [OF assms(1)])
      fix vs a
      assume s: "settled ?n F M I vs" and "a \<notin> cv_id ` set vs"
      then have "settled ?n F M (insert i I) (vs @ [?new a])"
        by (intro settled_create [OF s]) (simp_all add: new)
      then show "?Q a (vs @ [?new a])" by (simp add: new)
    qed (auto intro: settled_weaken)
    have st: "io_spec (on_host V c (?Q a)) (ContainerStart X c a)
        (\<lambda>_. on_host V c (settled ?n F M (insert i I))) (on_host V c (settled ?n F M (insert i I)))" for a
      by (rule start_view [OF assms(1)]) (auto intro: settled_start)
    have "io_spec (on_host V c (settled ?n F M I)) (create_start X c ?spec cfg host)
        (\<lambda>_. on_host V c (settled ?n F M (insert i I))) ?E"
      unfolding create_start_def
    proof (rule io_spec_bind [OF io_spec_maperr [OF cr]], rule io_spec_seq [OF io_spec_maperr])
      show "io_spec (on_host V c (?Q x)) (ContainerStart X c x) (\<lambda>_. on_host V c (settled ?n F M (insert i I))) ?E" for x
        by (rule io_spec_weaken [OF st]) (auto intro: weak)
    qed (auto intro: io_triple)
    with Inr r show ?thesis
      unfolding Deploy_def by (auto intro: io_spec_seq [OF pull])
  qed
qed

lemma ensure_spec:
  assumes "docker_ok X V" "labels_plain X svc"
  shows "(\<And>i. i \<in> set is \<Longrightarrow> in_i64 i) \<Longrightarrow>
    io_spec (on_host V c (settled (sv_name svc) F (map_of m) I)) (ensure_replicas X S c svc is m)
      (\<lambda>m'. on_host V c (settled (sv_name svc) F (map_of m') (I \<union> set is)))
      (on_host V c (settled (sv_name svc) F Map.empty {}))"
proof (induction "is" arbitrary: m I)
  case Nil
  then show ?case by (auto intro: io_triple)
next
  case (Cons i "is")
  let ?n = "sv_name svc"
  have ih: "io_spec (on_host V c (settled ?n F (map_of m') (insert i I))) (ensure_replicas X S c svc is m')
      (\<lambda>m''. on_host V c (settled ?n F (map_of m'') (I \<union> set (i # is))))
      (on_host V c (settled ?n F Map.empty {}))" for m'
    using Cons.IH [of m' "insert i I"] Cons.prems by simp
  show ?case
  proof (cases "map_of m i")
    case (Some a)
    have "io_spec (on_host V c (settled ?n F (map_of m) I)) (ensure_replicas X S c svc is (AList.delete i m))
      (\<lambda>m''. on_host V c (settled ?n F (map_of m'') (I \<union> set (i # is))))
      (on_host V c (settled ?n F Map.empty {}))"
      by (rule io_spec_weaken [OF ih])
        (use Some in \<open>auto simp: on_host_def delete_conv' intro: settled_keep\<close>)
    with Some show ?thesis by simp
  next
    case None
    let ?E = "on_host V c (settled ?n F Map.empty {})"
    have "io_spec (on_host V c (settled ?n F (map_of m) I)) (replicaSpec X S svc i)
        (\<lambda>spec w. on_host V c (settled ?n F (map_of m) I) w \<and> (\<exists>auth. spec = replica_spec X svc i auth)) ?E"
      by (rule io_spec_weaken [OF replicaSpec_spec [OF assms(1), where P = "settled ?n F (map_of m) I"]])
        (auto simp: on_host_def intro: settled_weaken)
    moreover have "io_spec (\<lambda>w. on_host V c (settled ?n F (map_of m) I) w \<and> (\<exists>auth. spec = replica_spec X svc i auth))
        (Deploy X c spec) (\<lambda>_. on_host V c (settled ?n F (map_of m) (insert i I))) ?E" for spec
    proof (cases "\<exists>auth. spec = replica_spec X svc i auth")
      case True
      then obtain auth where "spec = replica_spec X svc i auth" by blast
      have "in_i64 i" using Cons.prems by simp
      note d = Deploy_spec [OF assms this, of c F "map_of m" I auth]
      show ?thesis unfolding \<open>spec = _\<close> by (rule io_spec_weaken [OF d]) simp_all
    qed (simp add: io_spec_def)
    ultimately show ?thesis
      using None ih [of m] by (auto intro!: io_spec_bind io_spec_seq io_spec_maperr)
  qed
qed

lemma leftovers_spec:
  assumes "docker_ok X V" "order_ok X"
  shows "io_spec (on_host V c (settled n F (map_of m) I)) (remove_leftovers X c m)
    (\<lambda>_. on_host V c (settled n F Map.empty I)) (on_host V c (settled n F Map.empty I))"
proof -
  let ?inv = "\<lambda>ks w. distinct ks \<and> on_host V c (settled n F (map_of m |` set ks) I) w"
  have body: "io_spec (?inv (k # ks)) (case map_of m k of None \<Rightarrow> io_ret () | Some i \<Rightarrow> quiet (ContainerRemove X c i))
      (\<lambda>_. ?inv ks) (on_host V c (settled n F Map.empty I))" for k ks
  proof (cases "k \<in> set ks")
    case True
    then show ?thesis by (simp add: io_spec_def)
  next
    case False
    then have r: "map_of m |` set ks = (map_of m |` set (k # ks))(k := None)"
      by (auto simp: restrict_map_def fun_eq_iff)
    show ?thesis
    proof (cases "map_of m k")
      case None
      then have "map_of m |` set ks = map_of m |` set (k # ks)" using r by (auto simp: restrict_map_def fun_eq_iff)
      with None show ?thesis by (auto intro: io_triple)
    next
      case (Some a)
      then have a: "(map_of m |` set (k # ks)) k = Some a" by simp
      have "io_spec (on_host V c (settled n F (map_of m |` set (k # ks)) I)) (ContainerRemove X c a)
          (\<lambda>_. on_host V c (settled n F (map_of m |` set ks) I)) (on_host V c (settled n F (map_of m |` set ks) I))"
        unfolding r by (rule remove_view [OF assms(1)])
          (use a in \<open>blast intro: settled_remove(1,2)\<close>)+
      note rem = quiet_spec [OF this]
      show ?thesis
      proof (cases "distinct ks")
        case True
        with False Some show ?thesis by (auto intro: io_spec_weaken [OF rem])
      qed (simp add: io_spec_def)
    qed
  qed
  have rest: "map_of m |` set (map fst m) = map_of m"
    by (auto simp: fun_eq_iff restrict_map_def dom_map_of_conv_image_fst [symmetric]) (metis not_None_eq)
  show ?thesis
    unfolding remove_leftovers_def
  proof (rule io_spec_bind [OF io_spec_gets])
    fix w
    assume "on_host V c (settled n F (map_of m) I) w"
    with assms(2) rest show "?inv (x_order X (w_ext w) (map fst m)) w"
      unfolding order_ok_def by (simp only:)
  next
    fix ks
    show "io_spec (?inv ks) (io_foreach (\<lambda>k. case map_of m k of None \<Rightarrow> io_ret ()
        | Some i \<Rightarrow> quiet (ContainerRemove X c i)) ks)
      (\<lambda>_. on_host V c (settled n F Map.empty I)) (on_host V c (settled n F Map.empty I))"
      by (rule io_spec_weaken [OF io_spec_foreach [where I = ?inv, OF body]]) auto
  qed
qed


section \<open>A reconciliation\<close>

lemma ClientFor_view [io_keep]: "docker_ok X V \<Longrightarrow> io_keeps (on_host V c P) (ClientFor X S i)"
proof -
  assume ok: "docker_ok X V"
  have "w_ext (snd (NewRemote X h t w)) = w_ext w" for h t w
    by (simp add: NewRemote_def newSSHClient_def connect_def new_client_def io_raise_def
        split: option.splits sum.splits)
  then have "io_keeps (on_host V c P) (NewRemote X h t)" for h t
    by (simp add: io_keeps_def on_host_def)
  with ok show ?thesis
    unfolding ClientFor_def cache_client_def by (intro io_keep) simp_all
qed

lemma set_indices: "set (indices n) = {0..<n}"
proof -
  have "i \<in> int ` {0..<nat n}" if "0 \<le> i" "i < n" for i
    using that by (intro image_eqI [where x = "nat i"]) auto
  then show ?thesis by (auto simp: indices_def)
qed

lemma reconcile_spec:
  assumes "docker_ok X V" "order_ok X" "labels_plain X svc" "in_i32 (sv_replicas svc)"
  shows "io_spec (on_host V c (settled (sv_name svc) F Map.empty {}))
    (io_bind (ListByLabel X c (LabelService @ ''='' @ sv_name svc) True) (\<lambda>existing.
     io_bind (scan_replicas X c existing []) (\<lambda>byIndex.
     io_bind (ensure_replicas X S c svc (indices (sv_replicas svc)) byIndex) (\<lambda>left.
       remove_leftovers X c left))))
    (\<lambda>_. on_host V c (settled (sv_name svc) F Map.empty {0..<sv_replicas svc}))
    (on_host V c (settled (sv_name svc) F Map.empty {}))"
proof -
  let ?n = "sv_name svc"
  have weak: "on_host V c (settled ?n F M I) w \<Longrightarrow> on_host V c (settled ?n F Map.empty {}) w" for M I w
    by (auto simp: on_host_def intro: settled_weaken)
  note ind = set_indices [of "sv_replicas svc"]
  have i64: "in_i64 i" if "i \<in> set (indices (sv_replicas svc))" for i
    using that assms(4) by (simp add: ind in_i32_def in_i64_def)
  let ?E = "on_host V c (settled ?n F Map.empty {})"
  let ?Q = "\<lambda>_. on_host V c (settled ?n F Map.empty {0..<sv_replicas svc})"
  let ?is = "indices (sv_replicas svc)"
  have left: "io_spec (on_host V c (settled ?n F (map_of m) ({} \<union> set ?is))) (remove_leftovers X c m) ?Q ?E" for m
    unfolding ind Un_empty_left
    by (rule io_spec_weaken [OF leftovers_spec [OF assms(1,2),
          where n = ?n and F = F and m = m and I = "{0..<sv_replicas svc}"]]) (auto intro: weak)
  have ens: "io_spec (on_host V c (settled ?n F (map_of m) {}))
      (io_bind (ensure_replicas X S c svc ?is m) (remove_leftovers X c)) ?Q ?E" for m
    by (rule io_spec_bind [OF ensure_spec [OF assms(1,3) i64] left])
  have "io_spec (on_host V c (\<lambda>vs. settled ?n F Map.empty {} vs \<and> listed ?n ss vs))
      (io_bind (scan_replicas X c ss []) (\<lambda>m. io_bind (ensure_replicas X S c svc ?is m) (remove_leftovers X c)))
      ?Q ?E" for ss
    by (rule io_spec_bind [OF _ ens]) (use scan_spec [OF assms(1), of c ?n F "[]" ss] in simp)
  then show ?thesis by (rule io_spec_bind [OF list_spec [OF assms(1)]])
qed

lemma reconcile_result:
  assumes "docker_ok X V" "order_ok X" "labels_plain X svc" "in_i32 (sv_replicas svc)"
    and "fst (ClientFor X S (sv_endpointID svc) w) = Inr c" "distinct (map cv_id (V (w_ext w) c))"
    and "reconcile X S svc w = (r, w')"
  shows "settled (sv_name svc) (foreign (sv_name svc) (V (w_ext w) c)) Map.empty
    (if r = Inr () then {0..<sv_replicas svc} else {}) (V (w_ext w') c)"
proof -
  let ?F = "foreign (sv_name svc) (V (w_ext w) c)"
  let ?ok = "on_host V c (settled (sv_name svc) ?F Map.empty {})"
  obtain w1 where w1: "ClientFor X S (sv_endpointID svc) w = (Inr c, w1)"
    using assms(5) by (cases "ClientFor X S (sv_endpointID svc) w") simp
  have "?ok w" using assms(6) by (simp add: on_host_def settled_def)
  with io_keepsD [OF ClientFor_view [OF assms(1)] _ w1] have ok: "?ok w1" .
  note spec = reconcile_spec [OF assms(1-4), of c ?F S]
  show ?thesis
  proof (cases r)
    case (Inl e)
    with io_spec_Inl [OF spec ok, of e w'] assms(7) w1 show ?thesis
      by (simp add: reconcile_def dockerFor_def io_bind_def on_host_def)
  next
    case (Inr u)
    with io_spec_Inr [OF spec ok, of u w'] assms(7) w1 show ?thesis
      by (simp add: reconcile_def dockerFor_def io_bind_def on_host_def)
  qed
qed

section \<open>Scaling\<close>

text \<open>Operations that only read the services.\<close>

definition services_are :: "(service list \<Rightarrow> bool) \<Rightarrow> 'e world \<Rightarrow> bool" where
  "services_are P w \<longleftrightarrow> P (db_services (w_db w))"

lemma services_are_blind [simp, intro]: "ext_blind (services_are P)"
  by (simp add: ext_blind_def services_are_def)

lemma services_are_sql:
  assumes "\<And>d. db_services (snd (q d)) = db_services d"
  shows "io_keeps (services_are P) (sql X q)"
proof -
  have "db_services (w_db (snd (sql X q w))) = db_services (w_db w)" for w
    by (rule sql_same) (simp_all add: assms)
  then show ?thesis by (simp add: io_keeps_def services_are_def)
qed

lemma services_are_reads [io_keep]:
  "io_keeps (services_are P) (sql X (ListRegistries ow))" "io_keeps (services_are P) (sql X ListEndpoints)"
  "io_keeps (services_are P) (sql X ListRoutes)" "io_keeps (services_are P) (sql X (ListServices ow))"
  "io_keeps (services_are P) (sql X (GetEndpoint i))" "io_keeps (services_are P) (sql X (GetService n))"
  by (auto intro!: services_are_sql simp: ListRegistries_def ListEndpoints_def ListRoutes_def
      ListServices_def GetEndpoint_def GetService_def split: option.splits)

lemma services_are_on_xds [io_keep]: "io_keeps (services_are P) (on_xds f)"
  by (simp add: io_keeps_def services_are_def)

lemma services_are_modify [io_keep]: "(\<And>w. w_db (f w) = w_db w) \<Longrightarrow> io_keeps (services_are P) (io_modify f)"
  by (simp add: io_keeps_def services_are_def io_defs)

lemma publish_parts_keep:
  assumes "io_keeps I (sql X ListEndpoints)" "io_keeps I (sql X ListRoutes)" "io_keeps I (sql X (ListServices ''''))"
    and "\<And>ups i. io_keeps I (on_xds (push_node X ups i))"
  shows "io_keeps I (SyncRoutes X S)"
  unfolding SyncRoutes_def Sync_def publish_def source_upstreams_def Upstreams_def Let_def option.case
  by (intro io_keep assms)

lemma reconcile_parts_keep:
  assumes "ext_blind I" "io_keeps I (ClientFor X S (sv_endpointID svc))" "io_keeps I (sql X (ListRegistries ''''))"
  shows "io_keeps I (reconcile X S svc)"
proof -
  have scan: "io_keeps I (scan_replicas X c ss m)" for c ss m
  proof (induction ss arbitrary: m)
    case (Cons s ss)
    then show ?case
      unfolding scan_replicas.simps by (intro io_keep docker_keep assms(1)) simp_all
  qed simp
  have ensure: "io_keeps I (ensure_replicas X S c svc is m)" for c "is" m
  proof (induction "is" arbitrary: m)
    case (Cons i "is")
    then show ?case
      unfolding ensure_replicas.simps replicaSpec_def
      by (intro io_keep docker_keep assms) simp_all
  qed simp
  have left: "io_keeps I (remove_leftovers X c m)" for c m
    unfolding remove_leftovers_def by (intro io_keep docker_keep assms(1))
  show ?thesis
    unfolding reconcile_def dockerFor_def
    by (intro io_keep docker_keep assms scan ensure left)
qed

lemma services_are_ClientFor [io_keep]: "io_keeps (services_are P) (ClientFor X S i)"
proof -
  have "io_keeps (services_are P) (NewRemote X h t)" for h t
    by (simp add: io_keeps_def services_are_def)
  then show ?thesis
    unfolding ClientFor_def cache_client_def by (intro io_keep) simp_all
qed

lemma services_are_sync [io_keep]: "io_keeps (services_are P) (SyncRoutes X S)"
  by (intro publish_parts_keep io_keep)

lemma services_are_reconcile [io_keep]: "io_keeps (services_are P) (reconcile X S svc)"
  by (intro reconcile_parts_keep io_keep services_are_blind)

lemma sync_view [io_keep]: "docker_ok X V \<Longrightarrow> io_keeps (on_host V c P) (SyncRoutes X S)"
  by (intro publish_parts_keep io_keep)

text \<open>The client of an environment is at hand: the local one, or a cached one.\<close>

definition client_known :: "server \<Rightarrow> 'e world \<Rightarrow> int \<Rightarrow> client \<Rightarrow> bool" where
  "client_known S w i c \<longleftrightarrow> (if i = LocalID then c = srv_local S else w_clients w i = Some c)"

lemma ClientFor_known: "client_known S w i c \<Longrightarrow> ClientFor X S i w = (Inr c, w)"
  by (simp add: client_known_def ClientFor_def io_defs split: if_splits)

lemma client_known_sql: "client_known S w i c \<Longrightarrow> sql X q w = (r, w') \<Longrightarrow> client_known S w' i c"
  using sql_frame(2) [of X q w] by (simp add: client_known_def)

lemma SetServiceReplicas_Inr:
  "SetServiceReplicas i k d = (Inr (), d') \<Longrightarrow> in_i32 k \<and>
     db_services d' = upd_rows (\<lambda>s. sv_id s = i) (\<lambda>s. s\<lparr>sv_replicas := k\<rparr>) (db_services d)"
  by (auto simp: SetServiceReplicas_def split: if_splits)

lemma Scale_steps:
  assumes "Scale X S n k w = (Inr (), w')"
  obtains svc w1 w2 w3 where "sql X (GetService n) w = (Inr svc, w1)"
    and "sql X (SetServiceReplicas (sv_id svc) (max 0 k)) w1 = (Inr (), w2)"
    and "reconcile X S (svc\<lparr>sv_replicas := max 0 k\<rparr>) w2 = (Inr (), w3)"
    and "SyncRoutes X S w3 = (Inr (), w')"
proof -
  have m: "(if k < 0 then 0 else k) = max 0 k" by simp
  from assms show ?thesis
    using that unfolding Scale_def Let_def m by (auto simp: io_inr)
qed

lemma GetService_row:
  assumes "db_ok (w_db w)" "svc \<in> set (db_services (w_db w))" "sv_name svc = n"
    and get: "sql X (GetService n) w = (Inr s, w1)"
  shows "s = svc \<and> db_services (w_db w1) = db_services (w_db w)"
proof (rule sql_Inr [OF get])
  fix d e now
  assume g: "GetService n ((w_db w)\<lparr>db_now := now\<rparr>) = (Inr s, d)" and "w1 = w\<lparr>w_db := d, w_ext := e\<rparr>"
  with assms(1) have "s \<in> set (db_services (w_db w))" "sv_name s = n" "db_services (w_db w1) = db_services (w_db w)"
    by (simp_all add: GetService_Inr)
  with assms(1-3) show ?thesis
    by (auto simp: db_ok_def services_ok_iff tbl_ok_def distinct_map dest: inj_onD)
qed

lemma SetServiceReplicas_row:
  assumes "sql X (SetServiceReplicas i k) w = (Inr (), w')"
  shows "in_i32 k \<and> db_services (w_db w') =
    upd_rows (\<lambda>r. sv_id r = i) (\<lambda>s. s\<lparr>sv_replicas := k\<rparr>) (db_services (w_db w))"
proof (rule sql_Inr [OF assms])
  fix d e now
  assume "SetServiceReplicas i k ((w_db w)\<lparr>db_now := now\<rparr>) = (Inr (), d)" and "w' = w\<lparr>w_db := d, w_ext := e\<rparr>"
  with SetServiceReplicas_Inr show ?thesis by fastforce
qed

section \<open>The sample daemon behaves like Docker\<close>

definition sc_view :: "sim_container \<Rightarrow> container_view" where
  "sc_view k = \<lparr>cv_id = sc_id k, cv_name = sc_name k, cv_labels = cc_labels (sc_config k),
     cv_running = sc_running k\<rparr>"

definition sim_view :: "sim view" where
  "sim_view s c = map sc_view (sm_containers s)"

lemma sc_view_simps [simp]:
  "cv_id (sc_view k) = sc_id k" "cv_name (sc_view k) = sc_name k"
  "cv_labels (sc_view k) = cc_labels (sc_config k)" "cv_running (sc_view k) = sc_running k"
  "sc_view (k\<lparr>sc_running := b\<rparr>) = (sc_view k)\<lparr>cv_running := b\<rparr>"
  by (simp_all add: sc_view_def)

lemma sim_refers: "refers (sim_view s c) x (sc_view k) = sim_is s x k"
  by (simp add: refers_def sim_is_def sim_view_def image_image list_ex_iff image_iff) metis

lemma sim_started:
  assumes "sim_run True x s = (r, s')"
  shows "sim_view s' c = started x (sim_view s c) \<or> (\<exists>e. r = Inl e \<and> sim_view s' c = sim_view s c)"
proof -
  have "map sc_view (upd_rows (sim_is s x) (\<lambda>k. k\<lparr>sc_running := True\<rparr>) ks) =
      upd_rows (refers (sim_view s c) x) (\<lambda>k. k\<lparr>cv_running := True\<rparr>) (map sc_view ks)" for ks
    by (induction ks) (simp_all add: sim_refers)
  with assms show ?thesis
    by (auto simp: sim_run_def started_def sim_view_def split: if_splits)
qed

lemma sim_removed:
  assumes "sim_remove x s = (r, s')"
  shows "sim_view s' c = removed x (sim_view s c) \<or> (\<exists>e. r = Inl e \<and> sim_view s' c = sim_view s c)"
proof -
  have "map sc_view (del_rows (sim_is s x) ks) = del_rows (refers (sim_view s c) x) (map sc_view ks)" for ks
    by (induction ks) (simp_all add: sim_refers del_rows_def)
  with assms show ?thesis
    by (auto simp: sim_remove_def removed_def sim_view_def split: if_splits)
qed

lemma sim_fresh: "k \<in> set ks \<Longrightarrow> sc_id k \<noteq> CHR ''c'' # concat (map sc_id ks)"
proof
  assume k: "k \<in> set ks" and eq: "sc_id k = CHR ''c'' # concat (map sc_id ks)"
  from k have "length (sc_id k) \<le> length (concat (map sc_id ks))"
    by (induction ks) auto
  with eq show False by (metis impossible_Cons)
qed

lemma sim_docker_ok: "docker_ok sim_ext sim_view"
proof -
  have "list_ok sim_ext sim_view"
    unfolding list_ok_def
  proof (intro allI impI)
    fix c all and k v :: string and e r e'
    assume a: "CHR ''='' \<notin> set k \<and> da_containerList (x_docker sim_ext) c all (k @ ''='' @ v) e = (r, e')"
    then have "sim_label (k @ ''='' @ v) q \<longleftrightarrow> cc_labels (sc_config q) k = Some v" for q
      by (simp add: sim_label_def indexByte_append)
    with a show "sim_view e' c = sim_view e c \<and> (\<forall>ss. r = Inr ss \<longrightarrow> (\<lambda>s. (su_id s, su_labels s)) ` set ss =
        (\<lambda>q. (cv_id q, cv_labels q)) ` {q \<in> set (sim_view e c). (all \<or> cv_running q) \<and> cv_labels q k = Some v})"
      by (force simp: sim_docker_def sim_list_def sim_view_def)
  qed
  moreover have "start_ok sim_ext sim_view"
    using sim_started by (simp add: start_ok_def sim_docker_def)
  moreover have "remove_ok sim_ext sim_view"
    using sim_removed by (simp add: remove_ok_def sim_docker_def)
  moreover have "create_ok sim_ext sim_view"
    by (auto simp: create_ok_def sim_docker_def sim_create_def sim_view_def Let_def image_iff
        dest: sim_fresh split: if_splits)
  ultimately show ?thesis
    by (simp add: docker_ok_def sim_docker_def io_ret_def)
qed

definition sim_service :: "int \<Rightarrow> service" where
  "sim_service n = \<lparr>sv_id = 1, sv_name = ''web'', sv_owner = ''ann'', sv_image = ''nginx'', sv_subdomain = '''',
     sv_containerPort = 80, sv_network = '''', sv_env = '''', sv_cpuMilli = 500, sv_memMB = 64,
     sv_replicas = n, sv_minReplicas = 1, sv_maxReplicas = 4, sv_autoscale = False, sv_targetCPUPct = 60,
     sv_gitRepo = '''', sv_gitBranch = '''', sv_gitDockerfile = '''', sv_webhookToken = ''t'',
     sv_lastImage = '''', sv_lastDeployAt = None, sv_advanced = '''', sv_endpointID = 0, sv_createdAt = 0\<rparr>"

lemma sim_reconcile: "fst (reconcile sim_ext sim_server (sim_service 2) (sim_world db_empty)) = Inr ()"
  by code_simp

lemma sim_service_simps [simp]:
  "sv_name (sim_service n) = ''web''" "sv_replicas (sim_service n) = n" "sv_id (sim_service n) = 1"
  "sv_endpointID (sim_service n) = 0" "sv_advanced (sim_service n) = ''''"
  "sv_containerPort (sim_service n) = 80" "sv_cpuMilli (sim_service n) = 500" "sv_memMB (sim_service n) = 64"
  "sv_owner (sim_service n) = ''ann''"
  by (simp_all add: sim_service_def)

lemma sim_labels_plain [simp]: "labels_plain sim_ext (sim_service n)"
  by (simp add: labels_plain_def option_labels_def advanced_zero_def)

lemma sim_client [simp]: "fst (ClientFor sim_ext sim_server 0 w) = Inr sim_local"
  by (simp add: ClientFor_def LocalID_def sim_server_def io_ret_def)

lemma sim_view_empty [simp]: "sim_view (w_ext (sim_world d)) c = []"
  by (simp add: sim_view_def sim_world_def sim_empty_def)

section \<open>Properties\<close>

text \<open>
  C5: a reconciliation that returned without an error has a container for every wanted
  replica.  For every outside that behaves like Docker, whatever containers existed before,
  and whatever the ignored calls (starting a stopped replica, pulling the image, removing
  surplus replicas) returned: for every \<^verbatim>\<open>i\<close> below the service's replica count a
  container of the service with replica number \<^verbatim>\<open>i\<close> is on the service's host.  The
  service's own options must not set the two labels that mark replicas.
\<close>

theorem reconcile_ensures_replicas:
  assumes "docker_ok X V" "order_ok X" "labels_plain X svc" "in_i32 (sv_replicas svc)"
    and "fst (ClientFor X S (sv_endpointID svc) w) = Inr c" "distinct (map cv_id (V (w_ext w) c))"
    and "reconcile X S svc w = (Inr (), w')" and "0 \<le> i" "i < sv_replicas svc"
  shows "has_replica (sv_name svc) i (V (w_ext w') c)"
  using reconcile_result [OF assms(1-7)] assms(8,9) by (auto simp: settled_def has_replica_def)

theorem reconcile_ensures_replicas_witness:
  "has_replica ''web'' 1 (sim_view (w_ext (snd (reconcile sim_ext sim_server (sim_service 2) (sim_world db_empty)))) sim_local)"
proof -
  obtain w' where w': "reconcile sim_ext sim_server (sim_service 2) (sim_world db_empty) = (Inr (), w')"
    using sim_reconcile by (cases "reconcile sim_ext sim_server (sim_service 2) (sim_world db_empty)") simp
  show ?thesis
    using reconcile_ensures_replicas [OF sim_docker_ok sim_order_ok sim_labels_plain _ _ _ w', of sim_local 1] w'
    by (simp add: in_i32_def)
qed

text \<open>
  C27: a reconciliation never touches a container that is not of the service.  For every outside that
  behaves like Docker: when the service's own options do not set the two labels that mark replicas
  and the client of its host can be had, then, whether the reconciliation returns or fails
  half-way, the containers of the host without the service's label are exactly those there were: none
  is added, removed or restarted.
\<close>

theorem reconcile_touches_only_own:
  assumes "docker_ok X V" "order_ok X" "labels_plain X svc" "in_i32 (sv_replicas svc)"
    and "fst (ClientFor X S (sv_endpointID svc) w) = Inr c" "distinct (map cv_id (V (w_ext w) c))"
  shows "foreign (sv_name svc) (V (w_ext (snd (reconcile X S svc w))) c) = foreign (sv_name svc) (V (w_ext w) c)"
proof -
  obtain r w' where "reconcile X S svc w = (r, w')" by fastforce
  with reconcile_result [OF assms this] show ?thesis by (simp add: settled_def)
qed

theorem reconcile_touches_only_own_witness:
  "map cv_name (foreign ''web'' (sim_view (w_ext (snd (reconcile sim_ext sim_server (sim_service 2)
     (snd (reconcile sim_ext sim_server ((sim_service 1)\<lparr>sv_name := ''db''\<rparr>) (sim_world db_empty)))))) sim_local)) = [''db-0'']"
proof -
  let ?w = "snd (reconcile sim_ext sim_server ((sim_service 1)\<lparr>sv_name := ''db''\<rparr>) (sim_world db_empty))"
  have "distinct (map cv_id (sim_view (w_ext ?w) sim_local))"
    "map cv_name (foreign ''web'' (sim_view (w_ext ?w) sim_local)) = [''db-0'']" by code_simp+
  then show ?thesis
    using reconcile_touches_only_own [OF sim_docker_ok sim_order_ok sim_labels_plain, of 2 sim_server ?w sim_local]
    by (simp add: in_i32_def)
qed

text \<open>
  C12: scaling reaches its target.  For every outside that behaves like Docker: when the service is
  stored, its own options do not set the two labels that mark replicas, and its host is the local one
  or one whose client is cached, then, once \<^verbatim>\<open>Scale\<close> has returned without an error, the row of the
  service stores the requested replica count, a negative one as zero, and the service's
  host has a container for each of these replicas.
\<close>

theorem scale_reaches_target:
  assumes "docker_ok X V" "order_ok X" "db_ok (w_db w)"
    and svc: "svc \<in> set (db_services (w_db w))" "sv_name svc = n" and "labels_plain X svc"
    and "client_known S w (sv_endpointID svc) c" "distinct (map cv_id (V (w_ext w) c))"
    and "Scale X S n k w = (Inr (), w')"
  shows "svc\<lparr>sv_replicas := max 0 k\<rparr> \<in> set (db_services (w_db w')) \<and>
    (\<forall>i. 0 \<le> i \<and> i < k \<longrightarrow> has_replica n i (V (w_ext w') c))"
proof -
  let ?svc = "svc\<lparr>sv_replicas := max 0 k\<rparr>"
  from Scale_steps [OF assms(9)] obtain s w1 w2 w3 where
    get: "sql X (GetService n) w = (Inr s, w1)" and
    set: "sql X (SetServiceReplicas (sv_id s) (max 0 k)) w1 = (Inr (), w2)" and
    rec: "reconcile X S (s\<lparr>sv_replicas := max 0 k\<rparr>) w2 = (Inr (), w3)" and
    syn: "SyncRoutes X S w3 = (Inr (), w')" by blast
  have v: "V (w_ext w1) c = V (w_ext w) c" "V (w_ext w2) c = V (w_ext w) c"
    using io_keepsD [OF sql_view [OF assms(1), of c "\<lambda>vs. vs = V (w_ext w) c"] _ get]
      io_keepsD [OF sql_view [OF assms(1), of c "\<lambda>vs. vs = V (w_ext w) c"] _ set]
    by (simp_all add: on_host_def)
  have s: "s = svc" and w1: "db_services (w_db w1) = db_services (w_db w)"
    using GetService_row [OF assms(3) svc get] by simp_all
  have k: "in_i32 (max 0 k)" and upd: "?svc \<in> set (db_services (w_db w2))"
    using SetServiceReplicas_row [OF set] svc(1) s w1 by (auto simp: set_upd_rows image_iff)
  have "client_known S w2 (sv_endpointID svc) c"
    using assms(7) get set by (blast intro: client_known_sql)
  then have c: "fst (ClientFor X S (sv_endpointID ?svc) w2) = Inr c"
    by (simp add: ClientFor_known)
  have lab: "labels_plain X ?svc"
    using assms(6) by (simp add: labels_plain_def option_labels_def split: if_splits)
  have "has_replica n i (V (w_ext w3) c)" if "0 \<le> i" "i < k" for i
    using reconcile_result [OF assms(1,2) lab _ c _ rec [unfolded s]] k v assms(8) svc(2) that
    by (auto simp: settled_def has_replica_def)
  moreover have "V (w_ext w') c = V (w_ext w3) c"
    using io_keepsD [OF sync_view [OF assms(1), of c "\<lambda>vs. vs = V (w_ext w3) c"] _ syn]
    by (simp add: on_host_def)
  moreover have "?svc \<in> set (db_services (w_db w'))"
    using io_keepsD [OF services_are_reconcile [of "\<lambda>ss. ?svc \<in> set ss"] _ rec]
      io_keepsD [OF services_are_sync [of "\<lambda>ss. ?svc \<in> set ss"] _ syn] upd
    by (simp add: services_are_def)
  ultimately show ?thesis by simp
qed

definition sim_services_db :: db where
  "sim_services_db = snd (CreateService (sim_service 1) db_empty)"

lemma sim_services_db_ok: "db_ok sim_services_db"
  unfolding sim_services_db_def by (rule io_keepsE [OF CreateService_keeps db_ok_empty])

theorem scale_reaches_target_witness:
  "(\<exists>svc \<in> set (db_services (w_db (snd (Scale sim_ext sim_server ''web'' 2 (sim_world sim_services_db))))).
     sv_name svc = ''web'' \<and> sv_replicas svc = 2) \<and>
   has_replica ''web'' 0 (sim_view (w_ext (snd (Scale sim_ext sim_server ''web'' 2 (sim_world sim_services_db)))) sim_local) \<and>
   has_replica ''web'' 1 (sim_view (w_ext (snd (Scale sim_ext sim_server ''web'' 2 (sim_world sim_services_db)))) sim_local)"
proof -
  let ?m = "Scale sim_ext sim_server ''web'' 2 (sim_world sim_services_db)"
  obtain svc where s: "db_services sim_services_db = [svc]" "svc = hd (db_services sim_services_db)"
  proof -
    have "db_services sim_services_db = [hd (db_services sim_services_db)]" by code_simp
    then show ?thesis using that by metis
  qed
  have svc: "sv_name svc = ''web''" "sv_endpointID svc = 0" "sv_advanced svc = ''{}''" unfolding s(2) by code_simp+
  have "fst ?m = Inr ()" by code_simp
  then obtain w' where w': "?m = (Inr (), w')" by (cases ?m) simp
  have "labels_plain sim_ext svc"
    using svc(3) by (simp add: labels_plain_def option_labels_def sim_ext_def advanced_zero_def)
  moreover have "svc \<in> set (db_services (w_db (sim_world sim_services_db)))" by (simp add: sim_world_def s(1))
  moreover have "client_known sim_server (sim_world sim_services_db) (sv_endpointID svc) sim_local"
    using svc(2) by (simp add: client_known_def LocalID_def sim_server_def)
  moreover have "db_ok (w_db (sim_world sim_services_db))" using sim_services_db_ok by (simp add: sim_world_def)
  ultimately have "svc\<lparr>sv_replicas := 2\<rparr> \<in> set (db_services (w_db w')) \<and>
      (\<forall>i. 0 \<le> i \<and> i < 2 \<longrightarrow> has_replica ''web'' i (sim_view (w_ext w') sim_local))"
    using scale_reaches_target [OF sim_docker_ok sim_order_ok _ _ svc(1) _ _ _ w', of sim_local] by simp
  with svc(1) show ?thesis
    unfolding w' snd_conv by (intro conjI bexI [of _ "svc\<lparr>sv_replicas := 2\<rparr>"]) simp_all
qed

end
