(* ===== verification/Scaling.thy ===== *)
theory Scaling
  imports Replicas
begin

text \<open>
  What a service contributes to the rest of the system: the limits and labels of its replicas,
  their published host ports, the upstreams the registry publishes for it, and the replica
  counts the autoscaler chooses.
\<close>

section \<open>Limits and labels of a replica\<close>

lemma service_fits_limits:
  assumes "service_fits svc"
  shows "i64 (sv_cpuMilli svc * 1000000) = sv_cpuMilli svc * 1000000"
    "i64 (sv_memMB svc * 2 ^ 20) = sv_memMB svc * 2 ^ 20"
  using assms by (auto simp: service_fits_def in_i32_def in_i64_def intro!: i64_id)

text \<open>
  A replica runs with exactly the resources its service was given.  The column ranges leave
  room for the conversions to nano-CPUs and bytes, so neither wraps around, and no option of
  the service can change a limit, the image or the environment.
\<close>

lemma replica_limits:
  assumes "service_fits svc" "deploy_config np (replica_spec X svc i auth) = Inr (cfg, host)"
  shows "ho_nanoCPUs host = sv_cpuMilli svc * 1000000 \<and> ho_memory host = sv_memMB svc * 2 ^ 20 \<and>
    cc_image cfg = sv_image svc \<and> cc_env cfg = service_env X svc"
  using deploy_config_frame [OF assms(2)] service_fits_limits [OF assms(1)]
  by (simp_all add: replica_spec_def)

text \<open>
  The owner of a replica's container is what its usage is counted under.  The container of
  a replica carries the label \<^verbatim>\<open>easydeploy.owner\<close> of the service's owner, except when the
  service's own options set that label: then the container belongs to whoever they name.
\<close>

lemma replica_owner_label:
  assumes "deploy_config np (replica_spec X svc i auth) = Inr (cfg, host)" "sv_owner svc \<noteq> ''''"
  shows "cc_labels cfg LabelOwner =
    (case map_of (rev (option_labels X svc)) LabelOwner of None \<Rightarrow> Some (sv_owner svc) | Some v \<Rightarrow> Some v)"
  using deploy_config_frame(1) [OF assms(1)] replica_spec_labels(3) [OF assms(2), of X i auth]
  by (simp add: add_labels_map_add map_add_def split: option.splits)

section \<open>Published host ports\<close>

text \<open>The host port an entry asks for: \<^const>\<open>None\<close> when Docker picks one.\<close>

definition host_port :: "port_map list \<Rightarrow> nat \<Rightarrow> int option" where
  "host_port ps x = goAtoi (trimSpace (pm_hostPort (ps ! x)))"

lemma trimSpace_goItoa [simp]: "trimSpace (goItoa n) = goItoa n"
proof -
  have "\<not> is_space c" if "c \<in> set (goItoa n)" for c
    using goItoa_chars [OF that] by (auto simp: is_digit_def is_space_def code_of_def)
  then show ?thesis
    unfolding trimSpace_def using hd_in_set last_in_set by (intro trimWith_id) blast
qed

lemma host_port_offset:
  assumes "x < length ps" "host_port ps x = Some a" "in_i64 (a + i)"
  shows "host_port (offsetHostPorts ps i) x = Some (a + i)"
  using assms by (auto simp: host_port_def offsetHostPorts_def offset_port_def i64_id goAtoi_goItoa)

lemma host_port_ephemeral:
  "x < length ps \<Longrightarrow> host_port ps x = None \<Longrightarrow> offsetHostPorts ps i ! x = ps ! x"
  by (auto simp: host_port_def offsetHostPorts_def offset_port_def)

text \<open>
  Which replicas can be started side by side.  Replica \<^verbatim>\<open>i\<close> publishes a fixed host
  port \<^verbatim>\<open>a\<close> as \<^verbatim>\<open>a + i\<close>, so an entry never collides with itself across replicas; two
  entries with the ports \<^verbatim>\<open>a\<close> and \<^verbatim>\<open>b\<close> collide on the replicas \<^verbatim>\<open>i\<close> and
  \<^verbatim>\<open>j\<close> exactly when \<^verbatim>\<open>a + i = b + j\<close>: neighbouring ports of one service do.
\<close>

lemma host_ports_collide_iff:
  assumes "x < length ps" "host_port ps x = Some a" "in_i64 (a + i)"
    and "y < length ps" "host_port ps y = Some b" "in_i64 (b + j)"
  shows "host_port (offsetHostPorts ps i) x = host_port (offsetHostPorts ps j) y \<longleftrightarrow> a + i = b + j"
  using assms by (simp add: host_port_offset)

section \<open>The autoscaler\<close>

lemma autoscaler_steps:
  assumes "lo \<le> hi"
  shows "lo \<le> desired_replicas hot cold n lo hi \<and> desired_replicas hot cold n lo hi \<le> hi \<and>
    (lo \<le> n \<and> n \<le> hi \<longrightarrow> \<bar>desired_replicas hot cold n lo hi - n\<bar> \<le> 1)"
  using assms by (auto simp: desired_replicas_def clamp_def)

text \<open>
  What a pass may do to a row: set the replica count, and only of an autoscaled service, to a value
  within the bounds of the service.
\<close>

definition rescaled :: "service \<Rightarrow> service \<Rightarrow> bool" where
  "rescaled s t \<longleftrightarrow> (\<exists>n. t = s\<lparr>sv_replicas := n\<rparr> \<and> (n = sv_replicas s \<or> sv_autoscale s \<and>
     (sv_minReplicas s \<le> sv_maxReplicas s \<longrightarrow> max 0 (sv_minReplicas s) \<le> n \<and> n \<le> max 0 (sv_maxReplicas s))))"

lemma rescaled_refl: "rescaled s s"
  unfolding rescaled_def by (intro exI [of _ "sv_replicas s"]) simp

lemma rescaled_keeps:
  assumes "rescaled s t"
  shows "sv_id t = sv_id s" "sv_name t = sv_name s" "sv_autoscale t = sv_autoscale s"
    "sv_minReplicas t = sv_minReplicas s" "sv_maxReplicas t = sv_maxReplicas s"
  using assms by (auto simp: rescaled_def)

lemma list_all2_member: "list_all2 P xs ys \<Longrightarrow> y \<in> set ys \<Longrightarrow> \<exists>x \<in> set xs. P x y"
  by (induction rule: list_all2_induct) auto

lemma rescaled_set:
  assumes "list_all2 rescaled R ss" and "\<And>s. s \<in> set R \<Longrightarrow> sv_id s = i \<Longrightarrow> rescaled s (s\<lparr>sv_replicas := k\<rparr>)"
  shows "list_all2 rescaled R (upd_rows (\<lambda>s. sv_id s = i) (\<lambda>s. s\<lparr>sv_replicas := k\<rparr>) ss)"
  using assms
proof (induction rule: list_all2_induct)
  case (Cons s R t ss)
  have "t\<lparr>sv_replicas := k\<rparr> = s\<lparr>sv_replicas := k\<rparr>" using Cons.hyps(1) by (auto simp: rescaled_def)
  with Cons rescaled_keeps(1) [OF Cons.hyps(1)] show ?case by (auto simp: upd_rows_def)
qed (simp add: upd_rows_def)

text \<open>A service as the pass read it: a stored one, but for its count.\<close>

definition read_from :: "service list \<Rightarrow> service \<Rightarrow> bool" where
  "read_from R svc \<longleftrightarrow> (\<exists>s \<in> set R. rescaled s svc)"

lemma GetService_found: "GetService n d = (Inr s, d') \<Longrightarrow> s \<in> set (db_services d) \<and> sv_name s = n \<and> d' = d"
  by (auto simp: GetService_def scanService_def find_Some_iff split: option.splits)

lemma Scale_rescales:
  fixes X :: "'e ext"
  assumes R: "distinct (map sv_id R)" "distinct (map sv_name R)" and "read_from R svc"
    and k: "sv_autoscale svc \<and> (sv_minReplicas svc \<le> sv_maxReplicas svc \<longrightarrow> sv_minReplicas svc \<le> k \<and> k \<le> sv_maxReplicas svc)"
  shows "io_keeps (services_are (list_all2 rescaled R)) (Scale X S (sv_name svc) k)"
proof -
  let ?I = "services_are (list_all2 rescaled R) :: 'e world \<Rightarrow> bool"
  from assms(3) obtain s where s: "s \<in> set R" "rescaled s svc" by (auto simp: read_from_def)
  have bound: "rescaled s (s\<lparr>sv_replicas := max 0 k\<rparr>)"
    using k rescaled_keeps [OF s(2)] by (auto simp: rescaled_def)
  have set: "io_keeps ?I (sql X (SetServiceReplicas (sv_id s) (max 0 k)))"
  proof (rule io_keepsI)
    fix w :: "'e world"
    assume I: "?I w"
    have "rescaled r (r\<lparr>sv_replicas := max 0 k\<rparr>)" if "r \<in> set R" "sv_id r = sv_id s" for r
      using that s(1) R(1) bound by (metis distinct_map inj_onD)
    with I have "list_all2 rescaled R (db_services (snd (SetServiceReplicas (sv_id s) (max 0 k) ((w_db w)\<lparr>db_now := n\<rparr>))))" for n
      using rescaled_set [of R "db_services (w_db w)" "sv_id s" "max 0 k"]
      by (simp add: services_are_def SetServiceReplicas_def)
    with I show "?I (snd (sql X (SetServiceReplicas (sv_id s) (max 0 k)) w))"
      using sql_db [of X "SetServiceReplicas (sv_id s) (max 0 k)" w] by (auto simp: services_are_def)
  qed
  have get: "io_spec ?I (sql X (GetService (sv_name svc))) (\<lambda>c w. sv_id c = sv_id s \<and> ?I w) ?I"
  proof (rule io_specI)
    fix w e t
    assume "?I w" "sql X (GetService (sv_name svc)) w = (Inl e, t)"
    with services_are_reads(6) show "?I t" by (rule io_keepsD)
  next
    fix w c t
    assume I: "?I w" and g: "sql X (GetService (sv_name svc)) w = (Inr c, t)"
    have "c \<in> set (db_services (w_db w)) \<and> sv_name c = sv_name svc"
      by (rule sql_Inr [OF g]) (auto dest: GetService_found)
    with I obtain r where "r \<in> set R" "rescaled r c" by (auto simp: services_are_def dest: list_all2_member)
    moreover have "r = s"
      using calculation s R(2) rescaled_keeps(2) [OF s(2)] rescaled_keeps(2) [OF calculation(2)]
        \<open>c \<in> set (db_services (w_db w)) \<and> sv_name c = sv_name svc\<close> by (metis distinct_map inj_onD)
    ultimately have "sv_id c = sv_id s" using rescaled_keeps(1) by blast
    with io_keepsD [OF services_are_reads(6) I g] show "sv_id c = sv_id s \<and> ?I t" by simp
  qed
  have m: "(if k < 0 then 0 else k) = max 0 k" by simp
  have rest: "io_keeps ?I (io_seq (sql X (SetServiceReplicas (sv_id c) (max 0 k)))
      (io_seq (reconcile X S (c\<lparr>sv_replicas := max 0 k\<rparr>)) (SyncRoutes X S)))" if "sv_id c = sv_id s" for c
    unfolding that by (intro io_keep set)
  have "io_spec ?I (Scale X S (sv_name svc) k) (\<lambda>_. ?I) ?I"
    unfolding Scale_def Let_def m
  proof (rule io_spec_bind [OF get])
    fix c
    show "io_spec (\<lambda>w. sv_id c = sv_id s \<and> ?I w) (io_seq (sql X (SetServiceReplicas (sv_id c) (max 0 k)))
        (io_seq (reconcile X S (c\<lparr>sv_replicas := max 0 k\<rparr>)) (SyncRoutes X S))) (\<lambda>_. ?I) ?I"
      by (rule io_specI) (use rest in \<open>auto dest: io_keepsD\<close>)
  qed
  then show ?thesis by (auto simp: io_keeps_def intro: io_spec_state)
qed

lemma scale_service_rescales:
  fixes X :: "'e ext"
  assumes "distinct (map sv_id R)" "distinct (map sv_name R)" "read_from R svc"
  shows "io_keeps (services_are (list_all2 rescaled R)) (scale_service X S svc)"
proof (cases "sv_autoscale svc")
  case True
  have d: "sv_minReplicas svc \<le> desired_replicas hot cold n (sv_minReplicas svc) (sv_maxReplicas svc) \<and>
      desired_replicas hot cold n (sv_minReplicas svc) (sv_maxReplicas svc) \<le> sv_maxReplicas svc"
    if "sv_minReplicas svc \<le> sv_maxReplicas svc" for hot cold n using autoscaler_steps [OF that] by blast
  have sample: "io_keeps (services_are P) (sample_replicas X c ss)" for P c ss
    by (induction ss) (auto simp: CPUPercent_def intro!: io_keep ext_blind_ext services_are_blind)
  show ?thesis
    unfolding scale_service_def dockerFor_def Let_def
    by (intro io_keep docker_keep sample services_are_blind Scale_rescales [OF assms]) (use True d in auto)
qed (simp add: scale_service_def)

text \<open>
  C34: the autoscaler stays within the bounds.  A pass over all services, whatever it measures and
  whichever of its calls fail, leaves every row of the services table as it was but for the replica
  count; and it changes that only for an autoscaled service, to a count between the service's
  minimum and maximum when these are in order (negative bounds count as zero).
\<close>

theorem autoscaler_stays_in_bounds:
  assumes "db_ok (w_db w)"
  shows "list_all2 rescaled (db_services (w_db w)) (db_services (w_db (snd (scaleOnce X S w))))"
proof -
  define R where "R = db_services (w_db w)"
  let ?I = "services_are (list_all2 rescaled R)"
  have R: "distinct (map sv_id R)" "distinct (map sv_name R)"
    using assms by (simp_all add: R_def db_ok_def services_ok_iff tbl_ok_def)
  have w: "?I w" by (simp add: services_are_def R_def list_all2_refl rescaled_refl)
  have "?I (snd (scaleOnce X S w))"
  proof (cases "sql X (ListServices '''') w")
    case (Pair r w1)
    from io_keepsD [OF services_are_reads(4) w Pair] have w1: "?I w1" .
    show ?thesis
    proof (cases r)
      case (Inl e)
      with Pair w1 show ?thesis by (simp add: scaleOnce_def io_bind_def quiet_state)
    next
      case (Inr svcs)
      have "set svcs \<subseteq> set R"
        by (rule sql_Inr [OF Pair [unfolded Inr]]) (auto simp: ListServices_def R_def)
      then have "io_keeps ?I (scale_service X S svc)" if "svc \<in> set svcs" for svc
        using that by (intro scale_service_rescales [OF R]) (auto simp: read_from_def intro: rescaled_refl)
      then have "io_keeps ?I (io_foreach (scale_service X S) svcs)" by (intro io_keep)
      with w1 show ?thesis using Pair Inr by (simp add: scaleOnce_def io_bind_def quiet_state io_keepsE)
    qed
  qed
  then show ?thesis by (simp add: services_are_def R_def)
qed

text \<open>A service with one replica, which asks for two to four, and its container.\<close>

definition sim_auto_world :: "sim world" where
  "sim_auto_world = snd (reconcile sim_ext sim_server (sim_service 1)
     (sim_world (snd (CreateService ((sim_service 1)\<lparr>sv_autoscale := True, sv_minReplicas := 2\<rparr>) db_empty))))"

theorem autoscaler_stays_in_bounds_witness:
  "map sv_replicas (db_services (w_db sim_auto_world)) = [1] \<and>
   map sv_replicas (db_services (w_db (snd (scaleOnce sim_ext sim_server sim_auto_world)))) = [2] \<and>
   list_all2 rescaled (db_services (w_db sim_auto_world)) (db_services (w_db (snd (scaleOnce sim_ext sim_server sim_auto_world))))"
proof -
  let ?d = "snd (CreateService ((sim_service 1)\<lparr>sv_autoscale := True, sv_minReplicas := 2\<rparr>) db_empty)"
  have "db_ok ?d" by (rule io_keepsE [OF CreateService_keeps db_ok_empty])
  then have "db_inv (sim_world ?d)" by (simp add: db_inv_def sim_world_def)
  then have "db_inv sim_auto_world"
    unfolding sim_auto_world_def by (rule io_keepsE [rotated]) (intro reconcile_parts_keep io_keep stmt_keeps ext_blind_db_inv)
  then have "db_ok (w_db sim_auto_world)" by (simp add: db_inv_def)
  moreover have "map sv_replicas (db_services (w_db sim_auto_world)) = [1]"
    "map sv_replicas (db_services (w_db (snd (scaleOnce sim_ext sim_server sim_auto_world)))) = [2]" by code_simp+
  ultimately show ?thesis using autoscaler_stays_in_bounds [of sim_auto_world sim_ext sim_server] by blast
qed

section \<open>The measured load\<close>

text \<open>Sums of whole and half percentages are exact in the format; others are rounded towards them.\<close>

lemma fl_half: "\<bar>n\<bar> \<le> 2 ^ 53 \<Longrightarrow> fl (of_int n / 2) = of_int n / 2"
  using fl_exact [of n "-1"] by (simp add: power_int_minus field_simps)

lemma fl_le_int: "x \<le> of_int n \<Longrightarrow> \<bar>n\<bar> \<le> 2 ^ 53 \<Longrightarrow> fl x \<le> of_int n"
  using fl_mono [of x "of_int n"] fl_int [of n] by simp

lemma fl_ge_half: "of_int n / 2 \<le> x \<Longrightarrow> \<bar>n\<bar> \<le> 2 ^ 53 \<Longrightarrow> of_int n / 2 \<le> fl x"
  using fl_mono [of "of_int n / 2" x] fl_half [of n] by simp

lemma add_samples_le:
  assumes "\<And>p. Some p \<in> set ps \<Longrightarrow> p \<le> of_int c" "0 \<le> c" "0 \<le> k" "(k + int (length ps)) * c \<le> 2 ^ 53"
    and "t \<le> of_int (k * c)"
  shows "add_samples t ps \<le> of_int ((k + int (length ps)) * c)"
  using assms
proof (induction t ps arbitrary: k rule: add_samples.induct)
  case (2 t ps)
  have "t \<le> of_int ((k + 1) * c)" using "2.prems"(2,5) by (simp add: distrib_right)
  with "2.IH" [of "k + 1"] "2.prems" show ?case by (simp add: ac_simps)
next
  case (3 t p ps)
  have "(k + 1) * c \<le> (k + int (length (Some p # ps))) * c" using "3.prems"(2) by (intro mult_right_mono) auto
  with "3.prems"(4) have "(k + 1) * c \<le> 2 ^ 53" by linarith
  moreover have "0 \<le> (k + 1) * c" using "3.prems"(2,3) by simp
  moreover have "t + p \<le> of_int ((k + 1) * c)"
    using "3.prems"(5) "3.prems"(1) [of p] by (simp add: distrib_right)
  ultimately have "fl (t + p) \<le> of_int ((k + 1) * c)" by (intro fl_le_int) simp_all
  with "3.IH" [of "k + 1"] "3.prems" show ?case by (simp add: ac_simps)
qed simp

lemma add_samples_ge:
  assumes "None \<notin> set ps" "\<And>p. Some p \<in> set ps \<Longrightarrow> of_int c / 2 \<le> p" "0 \<le> c" "0 \<le> k"
    and "(k + int (length ps)) * c \<le> 2 ^ 53" "of_int (k * c) / 2 \<le> t"
  shows "of_int ((k + int (length ps)) * c) / 2 \<le> add_samples t ps"
  using assms
proof (induction t ps arbitrary: k rule: add_samples.induct)
  case (3 t p ps)
  have "(k + 1) * c \<le> (k + int (length (Some p # ps))) * c" using "3.prems"(3) by (intro mult_right_mono) auto
  with "3.prems"(5) have "(k + 1) * c \<le> 2 ^ 53" by linarith
  moreover have "0 \<le> (k + 1) * c" using "3.prems"(3,4) by simp
  moreover have "of_int ((k + 1) * c) / 2 \<le> t + p"
    using "3.prems"(6) "3.prems"(2) [of p] by (simp add: distrib_right add_divide_distrib)
  ultimately have "of_int ((k + 1) * c) / 2 \<le> fl (t + p)" by (intro fl_ge_half) simp_all
  with "3.IH" [of "k + 1"] "3.prems" show ?case by (simp add: ac_simps)
qed simp_all

lemma mean_cpu_le:
  assumes "\<And>p. Some p \<in> set ps \<Longrightarrow> p \<le> of_int c" "0 \<le> c" "ps \<noteq> []" "int (length ps) * c \<le> 2 ^ 53"
    and "c \<le> 2 ^ 53" "int (length ps) \<le> 2 ^ 53"
  shows "mean_cpu ps \<le> of_int c"
proof -
  have n: "fl (of_int (int (length ps))) = of_nat (length ps)" using assms(6) fl_int [of "int (length ps)"] by simp
  have "add_samples 0 ps \<le> of_int (int (length ps) * c)" using add_samples_le [of ps c 0 0] assms by simp
  then have "add_samples 0 ps / of_nat (length ps) \<le> of_int c"
    using assms(3) by (simp add: pos_divide_le_eq mult.commute)
  then show ?thesis unfolding mean_cpu_def n using assms by (intro fl_le_int) simp_all
qed

lemma mean_cpu_ge:
  assumes "None \<notin> set ps" "\<And>p. Some p \<in> set ps \<Longrightarrow> of_int c / 2 \<le> p" "0 \<le> c" "ps \<noteq> []"
    and "int (length ps) * c \<le> 2 ^ 53" "c \<le> 2 ^ 53" "int (length ps) \<le> 2 ^ 53"
  shows "of_int c / 2 \<le> mean_cpu ps"
proof -
  have n: "fl (of_int (int (length ps))) = of_nat (length ps)" using assms(7) fl_int [of "int (length ps)"] by simp
  have "of_int (int (length ps) * c) / 2 \<le> add_samples 0 ps" using add_samples_ge [of ps c 0 0] assms by simp
  then have "of_int c / 2 \<le> add_samples 0 ps / of_nat (length ps)"
    using assms(4) by (simp add: pos_le_divide_eq mult.commute)
  then show ?thesis unfolding mean_cpu_def n using assms by (intro fl_ge_half) simp_all
qed

text \<open>
  C25: the autoscaler follows the load it measured.  With floating-point sums and means as the code
  computes them, a pass over a service with its replicas within the bounds adds a replica only when
  some replica was measured above the target, and removes one only when some replica was measured
  below half of the target or could not be measured (which counts as an idle replica).
\<close>

theorem autoscaler_follows_load:
  assumes "ps \<noteq> []" "length ps \<le> 2 ^ 21" "0 \<le> c" "in_i32 c" "lo \<le> int (length ps)" "int (length ps) \<le> hi"
  shows "let d = desired_replicas (cpu_above ps c) (cpu_below_half ps c) (int (length ps)) lo hi in
    (d > int (length ps) \<longrightarrow> (\<exists>p. Some p \<in> set ps \<and> of_int c < p)) \<and>
    (d < int (length ps) \<longrightarrow> None \<in> set ps \<or> (\<exists>p. Some p \<in> set ps \<and> p < of_int c / 2))"
proof -
  have c: "c \<le> 2 ^ 31" "c \<le> 2 ^ 53" using assms(4) by (simp_all add: in_i32_def)
  have l: "int (length ps) \<le> 2 ^ 21" using assms(2) by (metis of_nat_le_iff of_nat_numeral of_nat_power)
  then have "int (length ps) * c \<le> 2 ^ 21 * 2 ^ 31" using c assms(3) by (intro mult_mono) simp_all
  then have m: "int (length ps) * c \<le> 2 ^ 53" "int (length ps) \<le> 2 ^ 53" using l by simp_all
  have flc: "fl (of_int c) = of_int c" "fl (fl (of_int c) / 2) = of_int c / 2"
    using c assms(3) fl_int [of c] fl_half [of c] by simp_all
  have "\<exists>p. Some p \<in> set ps \<and> of_int c < p" if "cpu_above ps c"
    using that mean_cpu_le [of ps c] assms(1,3) c m flc unfolding cpu_above_def by (metis not_less)
  moreover have "None \<in> set ps \<or> (\<exists>p. Some p \<in> set ps \<and> p < of_int c / 2)" if "cpu_below_half ps c"
    using that mean_cpu_ge [of ps c] assms(1,3) c m flc unfolding cpu_below_half_def by (metis not_less)
  ultimately show ?thesis
    using assms(5,6) by (auto simp: Let_def desired_replicas_def clamp_def split: if_splits)
qed

theorem autoscaler_follows_load_witness:
  "desired_replicas (cpu_above [Some 90, Some 80] 50) (cpu_below_half [Some 90, Some 80] 50) 2 1 4 = 3 \<and>
     (\<exists>p. Some p \<in> set [Some 90, Some (80 :: rat)] \<and> 50 < p)"
proof -
  have "desired_replicas (cpu_above [Some 90, Some 80] 50) (cpu_below_half [Some 90, Some 80] 50) 2 1 4 = 3"
    by code_simp
  with autoscaler_follows_load [of "[Some 90, Some 80]" 50 1 4] show ?thesis
    by (simp add: in_i32_def Let_def)
qed

section \<open>Upstreams\<close>

text \<open>
  The interface between the route registry and its source of services: the registry relies on
  services having different names and at least one host.
\<close>

locale service_source =
  fixes ok :: "'d \<Rightarrow> bool" and ups :: "'d \<Rightarrow> service_upstream list"
  assumes names: "ok d \<Longrightarrow> distinct (map sp_service (ups d))"
    and hosts: "ok d \<Longrightarrow> u \<in> set (ups d) \<Longrightarrow> sp_hosts u \<noteq> []"
begin

lemma all_published: "ok d \<Longrightarrow> with_hosts (ups d) = ups d"
  using hosts by (simp add: with_hosts_def)

lemma keys_distinct:
  "ok d \<Longrightarrow> distinct (map rt_subdomain routes) \<Longrightarrow>
   distinct (map upstreamKey (byEnv (all_upstreams base eps (ups d) routes) i))"
  by (intro byEnv_keys_distinct names)

end

definition db_upstreams :: "db \<Rightarrow> service_upstream list" where
  "db_upstreams d = upstreams_of (order_by d sv_name (db_services d))"

lemma upstreams_of_names:
  "distinct (map sv_name svcs) \<Longrightarrow> distinct (map sp_service (upstreams_of svcs))"
  by (simp add: upstreams_of_def comp_def service_upstream_of_def distinct_map_filter)

interpretation src: service_source db_ok db_upstreams
proof unfold_locales
  fix d u
  assume "db_ok d"
  then have "distinct (map sv_name (db_services d))"
    by (simp add: db_ok_def services_ok_def tbl_ok_def)
  then show "distinct (map sp_service (db_upstreams d))"
    unfolding db_upstreams_def by (intro upstreams_of_names) simp
  assume "u \<in> set (db_upstreams d)"
  then show "sp_hosts u \<noteq> []"
    by (auto simp: db_upstreams_def upstreams_of_def service_upstream_of_def indices_def)
qed

lemma inputs_db:
  assumes "db_inv w" "inputs X (Some (Upstreams X)) w eps svcUps routes w'"
  shows "\<exists>d. db_ok d \<and> svcUps = db_upstreams d \<and> db_services d = db_services (w_db w) \<and>
    distinct (map rt_subdomain routes)"
proof -
  from assms(2) obtain w1 w2 svcs where r: "sql X ListEndpoints w = (Inr eps, w1)"
      "sql X (ListServices '''') w1 = (Inr svcs, w2)" "svcUps = upstreams_of svcs"
      "sql X ListRoutes w2 = (Inr routes, w')"
    by (auto simp: inputs_def source_upstreams_def Upstreams_def io_inr)
  have i1: "db_inv w1" using io_keepsD [OF db_inv_sql [OF ListEndpoints_keeps] assms(1) r(1)] .
  have i2: "db_inv w2" using io_keepsD [OF db_inv_sql [OF ListServices_keeps] i1 r(2)] .
  have s: "db_services (w_db w1) = db_services (w_db w)"
    using io_keepsD [OF services_are_reads(2) [of "\<lambda>ss. ss = db_services (w_db w)"] _ r(1)]
    by (simp add: services_are_def)
  have "\<exists>now. svcs = order_by ((w_db w1)\<lparr>db_now := now\<rparr>) sv_name (db_services (w_db w1))"
  proof (rule sql_Inr [OF r(2)])
    fix d e now
    assume "ListServices '''' ((w_db w1)\<lparr>db_now := now\<rparr>) = (Inr svcs, d)"
    then show ?thesis by (intro exI [of _ now]) (auto simp: ListServices_def)
  qed
  then obtain now where
    svcs: "svcs = order_by ((w_db w1)\<lparr>db_now := now\<rparr>) sv_name (db_services (w_db w1))" by blast
  let ?d = "(w_db w1)\<lparr>db_now := now\<rparr>"
  have "db_ok ?d" using i1 by (simp add: db_inv_def)
  moreover have "svcUps = db_upstreams ?d" using r(3) svcs by (simp add: db_upstreams_def)
  moreover have "db_services ?d = db_services (w_db w)" using s by simp
  moreover have "distinct (map rt_subdomain routes)"
  proof (rule sql_Inr [OF r(4)])
    fix d e now
    assume "ListRoutes ((w_db w2)\<lparr>db_now := now\<rparr>) = (Inr routes, d)"
    then have "routes = order_by ((w_db w2)\<lparr>db_now := now\<rparr>) rt_subdomain (db_routes (w_db w2))" by simp
    moreover have "distinct (map rt_subdomain (db_routes (w_db w2)))"
      using i2 by (simp add: db_inv_def db_ok_def routes_ok_def tbl_ok_def)
    ultimately show ?thesis by simp
  qed
  ultimately show ?thesis by blast
qed


lemma sim_world_db [simp]: "w_db (sim_world d) = d"
  by (simp add: sim_world_def)


text \<open>
  What the server publishes never has two clusters or two virtual hosts of one name.  From
  a database with its integrity, whatever the services and manual routes are, the upstreams
  \<^verbatim>\<open>publish\<close> collects give every node a snapshot whose cluster names, and whose
  virtual host names, are all different.
\<close>

lemma published_names_distinct:
  assumes "db_inv w" "inputs X (Some (Upstreams X)) w eps svcUps routes w'"
  shows "let ups = all_upstreams base eps svcUps routes in
    distinct (map cl_name (sn_clusters (mkSnapshot v (byEnv ups i) base))) \<and>
    distinct (map vh_name (rc_virtualHosts (makeRouteConfig (byEnv ups i) base)))"
proof -
  from inputs_db [OF assms] obtain d where d: "db_ok d" "svcUps = db_upstreams d"
    "distinct (map rt_subdomain routes)" by blast
  show ?thesis
    unfolding d(2) Let_def
    by (intro conjI snapshot_clusters_distinct snapshot_vhosts_distinct src.keys_distinct d byEnv_no_default)
qed



end
