(* ===== verification/Volumes.thy ===== *)
theory Volumes
  imports DockerClient Sample
begin

text \<open>
  File operations on volumes, \<^verbatim>\<open>docker/volumes.go\<close>: the confinement of user paths,
  the helper container kept per volume, and the operations that run through it.
\<close>

section \<open>Paths\<close>

text \<open>\<^verbatim>\<open>path.Clean\<close> of a rooted path, component by component.\<close>

fun clean_parts :: "string list \<Rightarrow> string list \<Rightarrow> string list" where
  "clean_parts acc [] = rev acc"
| "clean_parts acc (p # ps) =
     (if p = '''' \<or> p = ''.'' then clean_parts acc ps
      else if p = ''..'' then clean_parts (tl acc) ps
      else clean_parts (p # acc) ps)"

definition clean_rooted :: "string \<Rightarrow> string" where
  "clean_rooted s = CHR ''/'' # joinWith ''/'' (clean_parts [] (splitChar CHR ''/'' s))"

text \<open>\<^verbatim>\<open>path.Base\<close>.\<close>

definition path_base :: "string \<Rightarrow> string" where
  "path_base s =
     (if s = '''' then ''.''
      else let t = rev (dropWhile (\<lambda>c. c = CHR ''/'') (rev s))
           in if t = '''' then ''/'' else last (splitChar CHR ''/'' t))"

definition volHelperImage :: string where "volHelperImage = ''alpine:latest''"
definition volMount :: string where "volMount = ''/mnt''"

definition safePath :: "string \<Rightarrow> string" where
  "safePath sub =
     (let clean = clean_rooted (trimSpace sub)
      in if clean = ''/'' then volMount else volMount @ clean)"

definition sanitize_char :: "char \<Rightarrow> char" where
  "sanitize_char r = (if is_lower r \<or> is_upper r \<or> is_digit r \<or> r = CHR ''-'' \<or> r = CHR ''_'' \<or> r = CHR ''.''
     then r else CHR ''-'')"

definition sanitizeName :: "string \<Rightarrow> string" where
  "sanitizeName s = map sanitize_char s"

section \<open>Volumes\<close>

definition CreateVolume :: "'e ext \<Rightarrow> client \<Rightarrow> string \<Rightarrow> string \<Rightarrow> (string \<rightharpoonup> string) \<Rightarrow> ('e, volume) op" where
  "CreateVolume X c name driver labels =
     ext (da_volumeCreate (x_docker X) c name (if driver = '''' then ''local'' else driver) labels)"

definition InspectVolume :: "'e ext \<Rightarrow> client \<Rightarrow> string \<Rightarrow> ('e, volume) op" where
  "InspectVolume X c name = ext (da_volumeInspect (x_docker X) c name)"

definition ListVolumes :: "'e ext \<Rightarrow> client \<Rightarrow> ('e, volume list) op" where
  "ListVolumes X c = ext (da_volumeList (x_docker X) c)"

definition usage_map :: "(string \<times> usage_data option) list \<Rightarrow> (string \<rightharpoonup> usage_data)" where
  "usage_map us = fold (\<lambda>(n, u) m. case u of None \<Rightarrow> m | Some d \<Rightarrow> m(n \<mapsto> d)) us Map.empty"

definition VolumeUsage :: "'e ext \<Rightarrow> client \<Rightarrow> ('e, string \<rightharpoonup> usage_data) op" where
  "VolumeUsage X c = io_bind (ext (da_diskUsage (x_docker X) c)) (\<lambda>us. io_ret (usage_map us))"

section \<open>The helper container of a volume\<close>

definition get_helper :: "client \<Rightarrow> string \<Rightarrow> ('e, string option) op" where
  "get_helper c name = io_gets (\<lambda>w. w_helpers w (cli_ref c) name)"

definition put_helper :: "client \<Rightarrow> string \<Rightarrow> string option \<Rightarrow> ('e, unit) op" where
  "put_helper c name i =
     io_modify (\<lambda>w. w\<lparr>w_helpers := (w_helpers w)(cli_ref c := (w_helpers w (cli_ref c))(name := i))\<rparr>)"

definition helper_name :: "string \<Rightarrow> string" where
  "helper_name name = ''easydeploy-volhelper-'' @ sanitizeName name"

definition helper_config :: container_config where
  "helper_config = config_zero\<lparr>cc_image := volHelperImage, cc_cmd := [''sleep'', ''infinity''],
     cc_labels := [''easydeploy.volhelper'' \<mapsto> ''true'']\<rparr>"

definition helper_host :: "string \<Rightarrow> host_config" where
  "helper_host name = host_config_zero\<lparr>ho_networkMode := ''none'',
     ho_mounts := [\<lparr>mo_type = TypeVolume, mo_source = name, mo_target = volMount, mo_readOnly = False\<rparr>]\<rparr>"

text \<open>The creation is tried again after a pull when the image was missing.\<close>

definition create_helper :: "'e ext \<Rightarrow> client \<Rightarrow> string \<Rightarrow> ('e, string) op" where
  "create_helper X c name =
     io_bind (io_try (ContainerCreate X c helper_config (helper_host name) [] (helper_name name))) (\<lambda>r. case r of
         Inr i \<Rightarrow> io_ret i
       | Inl e \<Rightarrow>
           if x_notFound X e
           then io_seq (quiet (PullImage X c volHelperImage))
                  (ContainerCreate X c helper_config (helper_host name) [] (helper_name name))
           else io_raise e)"

definition new_helper :: "'e ext \<Rightarrow> client \<Rightarrow> string \<Rightarrow> ('e, string) op" where
  "new_helper X c name =
     io_bind (io_maperr (Wrap ''create volume helper'') (create_helper X c name)) (\<lambda>i.
     io_seq (io_maperr (Wrap ''start volume helper'') (ContainerStart X c i))
       (io_seq (put_helper c name (Some i)) (io_ret i)))"

text \<open>A helper of an earlier server process is taken over, a dead one is removed.\<close>

definition adopt_helper :: "'e ext \<Rightarrow> client \<Rightarrow> string \<Rightarrow> ('e, string) op" where
  "adopt_helper X c name =
     io_bind (io_try (Inspect X c (helper_name name))) (\<lambda>r. case r of
         Inl _ \<Rightarrow> new_helper X c name
       | Inr info \<Rightarrow>
           if in_running info = Some True
           then io_seq (put_helper c name (Some (in_id info))) (io_ret (in_id info))
           else io_seq (quiet (ContainerRemove X c (in_id info))) (new_helper X c name))"

definition volumeHelper :: "'e ext \<Rightarrow> client \<Rightarrow> string \<Rightarrow> ('e, string) op" where
  "volumeHelper X c name =
     io_bind (get_helper c name) (\<lambda>h. case h of
         None \<Rightarrow> adopt_helper X c name
       | Some i \<Rightarrow>
           io_bind (io_try (Inspect X c i)) (\<lambda>r. case r of
               Inr info \<Rightarrow>
                 if in_running info = Some True then io_ret i
                 else io_seq (put_helper c name None) (adopt_helper X c name)
             | Inl _ \<Rightarrow> io_seq (put_helper c name None) (adopt_helper X c name)))"

definition releaseHelper :: "'e ext \<Rightarrow> client \<Rightarrow> string \<Rightarrow> ('e, unit) op" where
  "releaseHelper X c name =
     io_bind (get_helper c name) (\<lambda>h.
     io_seq (put_helper c name None)
       (quiet (ContainerRemove X c (case h of None \<Rightarrow> helper_name name
          | Some i \<Rightarrow> if i = '''' then helper_name name else i))))"

definition RemoveVolume :: "'e ext \<Rightarrow> client \<Rightarrow> string \<Rightarrow> bool \<Rightarrow> ('e, unit) op" where
  "RemoveVolume X c name force =
     io_seq (releaseHelper X c name) (ext (da_volumeRemove (x_docker X) c name force))"

definition CleanupVolumeHelpers :: "'e ext \<Rightarrow> client \<Rightarrow> ('e, unit) op" where
  "CleanupVolumeHelpers X c =
     io_bind (io_try (ListByLabel X c ''easydeploy.volhelper=true'' True)) (\<lambda>r. case r of
         Inl _ \<Rightarrow> io_ret ()
       | Inr ss \<Rightarrow> io_foreach (\<lambda>s. quiet (ContainerRemove X c (su_id s))) ss)"

section \<open>File operations\<close>

text \<open>An error of the inspection of the exit code counts as exit code 0.\<close>

definition execCapture :: "'e ext \<Rightarrow> client \<Rightarrow> string \<Rightarrow> string list \<Rightarrow> ('e, string \<times> string \<times> int) op" where
  "execCapture X c i cmd =
     io_bind (ext (da_execCreate (x_docker X) c i cmd)) (\<lambda>ex.
     io_bind (ext (da_execAttach (x_docker X) c ex)) (\<lambda>(out, err).
     io_bind (io_try (ext (da_execExitCode (x_docker X) c ex))) (\<lambda>r.
       io_ret (out, err, case r of Inl _ \<Rightarrow> 0 | Inr n \<Rightarrow> n))))"

record vol_file =
  vf_name :: string
  vf_dir :: bool
  vf_size :: int

definition parse_line :: "string \<Rightarrow> vol_file option" where
  "parse_line line0 =
     (let line = trimSpace line0 in
      if line = '''' then None
      else case splitN 3 CHR ''|'' line of
          [d, n, name] \<Rightarrow> Some \<lparr>vf_name = name, vf_dir = (d = ''d''), vf_size = parseInt_value n\<rparr>
        | _ \<Rightarrow> None)"

definition parseVolListing :: "string \<Rightarrow> vol_file list" where
  "parseVolListing out = List.map_filter parse_line (splitChar CHR 0x0A out)"

definition browse_script :: "string \<Rightarrow> string" where
  "browse_script target =
     ''cd '' @ go_quote target @ '' 2>/dev/null || exit 0; for e in * .[!.]* ..?*; do [ -e '' @
     go_quote ''$e'' @ '' ] || continue; if [ -d '' @ go_quote ''$e'' @ '' ]; then echo '' @ go_quote ''d|0|$e'' @
     ''; else echo '' @ [CHR 0x22] @ ''f|$(wc -c < '' @ go_quote ''$e'' @ '' 2>/dev/null || echo 0)|$e'' @ [CHR 0x22] @
     ''; fi; done''"

definition BrowseVolume :: "'e ext \<Rightarrow> client \<Rightarrow> string \<Rightarrow> string \<Rightarrow> ('e, vol_file list) op" where
  "BrowseVolume X c name sub =
     io_bind (volumeHelper X c name) (\<lambda>i.
     io_bind (execCapture X c i [''sh'', ''-c'', browse_script (safePath sub)]) (\<lambda>(out, _, _).
       io_ret (parseVolListing out)))"

definition MkdirVolume :: "'e ext \<Rightarrow> client \<Rightarrow> string \<Rightarrow> string \<Rightarrow> ('e, unit) op" where
  "MkdirVolume X c name sub =
     io_bind (volumeHelper X c name) (\<lambda>i.
     io_bind (execCapture X c i [''mkdir'', ''-p'', safePath sub]) (\<lambda>(_, err, code).
       io_guard (code = 0) (Err (''mkdir failed: '' @ trimSpace err))))"

definition DeleteInVolume :: "'e ext \<Rightarrow> client \<Rightarrow> string \<Rightarrow> string \<Rightarrow> ('e, unit) op" where
  "DeleteInVolume X c name sub =
     (if safePath sub = volMount then io_raise (Err ''refusing to delete volume root'')
      else io_bind (volumeHelper X c name) (\<lambda>i.
           io_bind (execCapture X c i [''rm'', ''-rf'', safePath sub]) (\<lambda>(_, err, code).
             io_guard (code = 0) (Err (''delete failed: '' @ trimSpace err)))))"

text \<open>
  The reader is what reading it to the end gives; at most \<^verbatim>\<open>size\<close> bytes are taken.  The
  tar stream sent to the daemon has one entry.
\<close>

definition UploadToVolume :: "'e ext \<Rightarrow> client \<Rightarrow> string \<Rightarrow> string \<Rightarrow> string \<Rightarrow> (goerr + string) \<Rightarrow> int
    \<Rightarrow> ('e, unit) op" where
  "UploadToVolume X c name dir filename0 r fileSize =
     io_bind (volumeHelper X c name) (\<lambda>i.
       let filename = path_base filename0 in
       if filename = '''' \<or> filename = ''.'' \<or> filename = ''/'' then io_raise (Err ''invalid filename'')
       else case r of
           Inl e \<Rightarrow> io_raise e
         | Inr content \<Rightarrow>
             ext (da_copyTo (x_docker X) c i (safePath dir) filename (take (nat fileSize) content)))"

record vol_download =
  vd_name :: string
  vd_size :: int
  vd_body :: string

text \<open>The loop over the tar stream: its first regular file.\<close>

fun first_file :: "tar_entry list \<Rightarrow> goerr option \<Rightarrow> goerr + vol_download" where
  "first_file [] e = Inl (case e of None \<Rightarrow> Err ''not a file'' | Some err \<Rightarrow> err)"
| "first_file (t # ts) e =
     (if te_regular t
      then Inr \<lparr>vd_name = path_base (te_name t), vd_size = te_size t, vd_body = te_body t\<rparr>
      else first_file ts e)"

definition DownloadFromVolume :: "'e ext \<Rightarrow> client \<Rightarrow> string \<Rightarrow> string \<Rightarrow> ('e, vol_download) op" where
  "DownloadFromVolume X c name file =
     io_bind (volumeHelper X c name) (\<lambda>i.
     io_bind (ext (da_copyFrom (x_docker X) c i (safePath file))) (\<lambda>(ts, e).
       case first_file ts e of Inl err \<Rightarrow> io_raise err | Inr d \<Rightarrow> io_ret d))"

section \<open>Cleaned paths\<close>

definition plain_part :: "string \<Rightarrow> bool" where
  "plain_part p \<longleftrightarrow> p \<noteq> '''' \<and> p \<noteq> ''.'' \<and> p \<noteq> ''..'' \<and> CHR ''/'' \<notin> set p"

lemma clean_parts_plain:
  "(\<And>p. p \<in> set acc \<Longrightarrow> plain_part p) \<Longrightarrow> (\<And>p. p \<in> set ps \<Longrightarrow> CHR ''/'' \<notin> set p) \<Longrightarrow>
   q \<in> set (clean_parts acc ps) \<Longrightarrow> plain_part q"
proof (induction acc ps rule: clean_parts.induct)
  case (2 acc p ps)
  show ?case
  proof (cases "p = '''' \<or> p = ''.''")
    case True
    with 2 show ?thesis by auto
  next
    case False
    note nd = this
    show ?thesis
    proof (cases "p = ''..''")
      case True
      have "set (tl acc) \<subseteq> set acc" by (cases acc) auto
      with True 2 show ?thesis by auto
    next
      case False
      with nd 2 show ?thesis by (auto simp: plain_part_def)
    qed
  qed
qed simp

lemma clean_parts_id: "(\<And>p. p \<in> set ps \<Longrightarrow> plain_part p) \<Longrightarrow> clean_parts acc ps = rev acc @ ps"
  by (induction ps arbitrary: acc) (auto simp: plain_part_def)

definition path_parts :: "string \<Rightarrow> string list" where
  "path_parts sub = clean_parts [] (splitChar CHR ''/'' (trimSpace sub))"

lemma path_parts_plain: "p \<in> set (path_parts sub) \<Longrightarrow> plain_part p"
  unfolding path_parts_def by (erule clean_parts_plain [rotated 2]) (auto dest: splitChar_parts)

lemma joinWith_eq_Nil: "joinWith sep ps = [] \<longleftrightarrow> ps = [] \<or> ps = [[]] \<or> sep = [] \<and> (\<forall>p \<in> set ps. p = [])"
  by (induction sep ps rule: joinWith.induct) auto

lemma safePath_parts:
  "safePath sub = (if path_parts sub = [] then volMount else volMount @ ''/'' @ joinWith ''/'' (path_parts sub))"
proof -
  have "joinWith ''/'' (path_parts sub) = [] \<longleftrightarrow> path_parts sub = []"
    using path_parts_plain [of "[]" sub] by (auto simp: joinWith_eq_Nil plain_part_def)
  then show ?thesis by (simp add: safePath_def clean_rooted_def Let_def flip: path_parts_def)
qed

lemma clean_rooted_idem: "clean_rooted (clean_rooted s) = clean_rooted s"
proof -
  let ?ps = "clean_parts [] (splitChar CHR ''/'' s)"
  have plain: "plain_part p" if "p \<in> set ?ps" for p
    using that by (rule clean_parts_plain [rotated 2]) (auto dest: splitChar_parts)
  have "clean_parts [] (splitChar CHR ''/'' (CHR ''/'' # joinWith ''/'' ?ps)) = ?ps"
  proof (cases "?ps = []")
    case False
    with plain have "splitChar CHR ''/'' (joinWith ''/'' ?ps) = ?ps"
      by (intro splitChar_joinWith) (auto simp: plain_part_def)
    then show ?thesis by (simp add: clean_parts_id plain)
  qed simp
  then show ?thesis by (simp add: clean_rooted_def)
qed

section \<open>The helper cache\<close>

definition helpers_are :: "((int \<Rightarrow> string \<rightharpoonup> string) \<Rightarrow> bool) \<Rightarrow> 'e world \<Rightarrow> bool" where
  "helpers_are P w \<longleftrightarrow> P (w_helpers w)"

lemma helpers_are_blind [simp, intro]: "ext_blind (helpers_are P)"
  by (simp add: ext_blind_def helpers_are_def)

definition set_helper :: "client \<Rightarrow> string \<Rightarrow> string option \<Rightarrow> (int \<Rightarrow> string \<rightharpoonup> string) \<Rightarrow> (int \<Rightarrow> string \<rightharpoonup> string)" where
  "set_helper c name i h = h(cli_ref c := (h (cli_ref c))(name := i))"

lemma set_helper_again [simp]: "set_helper c name i (set_helper c name j h) = set_helper c name i h"
  by (simp add: set_helper_def)

abbreviation helpers_at :: "(int \<Rightarrow> string \<rightharpoonup> string) \<Rightarrow> 'e world \<Rightarrow> bool" where
  "helpers_at h \<equiv> helpers_are (\<lambda>x. x = h)"

lemma put_helper_spec:
  "io_spec (helpers_at h) (put_helper c name i) (\<lambda>_. helpers_at (set_helper c name i h)) E"
  by (simp add: io_spec_def put_helper_def io_modify_def helpers_are_def set_helper_def)

lemma call_spec: "io_keeps (helpers_at h) m \<Longrightarrow> io_spec (helpers_at h) m (\<lambda>_. helpers_at h) (helpers_at h)"
  by (rule io_spec_keeps)

lemma create_helper_keeps [docker_keep]: "ext_blind I \<Longrightarrow> io_keeps I (create_helper X c name)"
  unfolding create_helper_def by (intro io_keep docker_keep | assumption)+

lemma new_helper_spec:
  "io_spec (helpers_at h) (new_helper X c name) (\<lambda>i. helpers_at (set_helper c name (Some i) h)) (helpers_at h)"
  unfolding new_helper_def
  by (rule io_spec_bind [OF io_spec_maperr [OF call_spec]],
      intro docker_keep helpers_are_blind,
      rule io_spec_seq [OF io_spec_maperr [OF call_spec]],
      intro docker_keep helpers_are_blind,
      rule io_spec_seq [OF put_helper_spec], rule io_spec_ret)

lemma adopt_helper_spec:
  "io_spec (helpers_at h) (adopt_helper X c name) (\<lambda>i. helpers_at (set_helper c name (Some i) h)) (helpers_at h)"
proof -
  have "io_spec (helpers_at h)
      (if in_running info = Some True then io_seq (put_helper c name (Some (in_id info))) (io_ret (in_id info))
       else io_seq (quiet (ContainerRemove X c (in_id info))) (new_helper X c name))
      (\<lambda>i. helpers_at (set_helper c name (Some i) h)) (helpers_at h)" for info
  proof (cases "in_running info = Some True")
    case True
    then show ?thesis by (simp add: io_spec_seq [OF put_helper_spec] io_spec_ret)
  next
    case False
    have "io_spec (helpers_at h) (quiet (ContainerRemove X c (in_id info))) (\<lambda>_. helpers_at h) (helpers_at h)"
      by (intro io_spec_keeps io_keep docker_keep helpers_are_blind)
    from io_spec_seq [OF this new_helper_spec] False show ?thesis by simp
  qed
  note step = this
  have "io_spec (helpers_at h) (io_try (Inspect X c (helper_name name))) (\<lambda>_. helpers_at h) (helpers_at h)"
    by (intro io_spec_keeps io_keep docker_keep helpers_are_blind)
  then show ?thesis
    unfolding adopt_helper_def
    by (rule io_spec_bind) (rule io_spec_case_sum new_helper_spec step)+
qed

lemma volumeHelper_spec:
  "io_spec (helpers_at h) (volumeHelper X c name) (\<lambda>i. helpers_at (set_helper c name (Some i) h))
    (\<lambda>w. helpers_at h w \<or> helpers_at (set_helper c name None h) w)"
proof -
  let ?E = "\<lambda>w. helpers_at h w \<or> helpers_at (set_helper c name None h) w"
  let ?Q = "\<lambda>i. helpers_at (set_helper c name (Some i) h)"
  have adopt: "io_spec (helpers_at h) (adopt_helper X c name) ?Q ?E"
    by (rule io_spec_weaken [OF adopt_helper_spec]) auto
  have again: "io_spec (helpers_at h) (io_seq (put_helper c name None) (adopt_helper X c name)) ?Q ?E"
    by (rule io_spec_seq [OF put_helper_spec],
        rule io_spec_weaken [OF adopt_helper_spec [where h = "set_helper c name None h"]]) auto
  have insp: "io_spec (helpers_at h) (io_try (Inspect X c i)) (\<lambda>_. helpers_at h) ?E" for i
    by (rule io_spec_weaken [OF io_spec_keeps [where I = "helpers_at h"]])
      (auto intro: io_keep docker_keep)
  have ret: "io_spec (helpers_at h) (io_ret i) ?Q ?E" if "h (cli_ref c) name = Some i" for i
    using that by (intro io_spec_ret) (auto simp: helpers_are_def set_helper_def fun_eq_iff)
  show ?thesis
    unfolding volumeHelper_def get_helper_def
  proof (rule io_spec_bind [where R = "\<lambda>x w. helpers_at h w \<and> h (cli_ref c) name = x"])
    show "io_spec (helpers_at h) (io_gets (\<lambda>w. w_helpers w (cli_ref c) name))
        (\<lambda>x w. helpers_at h w \<and> h (cli_ref c) name = x) ?E"
      by (rule io_spec_gets) (simp add: helpers_are_def)
    fix x
    show "io_spec (\<lambda>w. helpers_at h w \<and> h (cli_ref c) name = x) (case x of
        None \<Rightarrow> adopt_helper X c name
      | Some i \<Rightarrow>
          io_bind (io_try (Inspect X c i)) (\<lambda>r. case r of
              Inl _ \<Rightarrow> io_seq (put_helper c name None) (adopt_helper X c name)
            | Inr info \<Rightarrow>
                if in_running info = Some True then io_ret i
                else io_seq (put_helper c name None) (adopt_helper X c name))) ?Q ?E"
      by (rule io_spec_premise, rule io_spec_case_option, rule adopt, rule io_spec_bind [OF insp])
        (rule io_spec_case_sum io_spec_if again ret | simp)+
  qed
qed

section \<open>Properties\<close>

text \<open>
  C22: a user's path never leaves the volume.  Whatever text is given, the path the operations
  use is the mount point itself, or the mount point followed by a list of components none of
  which is empty, contains a slash or is one of the two dot names; in particular no
  \<^verbatim>\<open>..\<close> survives.  Cleaning is stable.
\<close>

theorem path_confined_to_volume:
  "(safePath sub = volMount \<or>
    (\<exists>ps. ps \<noteq> [] \<and> list_all plain_part ps \<and> safePath sub = volMount @ ''/'' @ joinWith ''/'' ps)) \<and>
   clean_rooted (clean_rooted sub) = clean_rooted sub"
  using path_parts_plain [of _ sub] by (auto simp: safePath_parts clean_rooted_idem list_all_iff)

text \<open>
  Deleting never removes the whole volume.  A path that denotes the root is refused before
  anything is called; for every other one the only command run is \<^verbatim>\<open>rm -rf\<close> of a path
  strictly below the mount point.
\<close>

lemma delete_spares_root:
  "(path_parts sub = [] \<longrightarrow> DeleteInVolume X c name sub w = (Inl (Err ''refusing to delete volume root''), w)) \<and>
   (path_parts sub \<noteq> [] \<longrightarrow> list_all plain_part (path_parts sub) \<and>
      DeleteInVolume X c name sub w =
        io_bind (volumeHelper X c name) (\<lambda>i.
        io_bind (execCapture X c i [''rm'', ''-rf'', volMount @ ''/'' @ joinWith ''/'' (path_parts sub)])
          (\<lambda>(_, err, code). io_guard (code = 0) (Err (''delete failed: '' @ trimSpace err)))) w)"
  using path_parts_plain [of _ sub]
  by (simp add: DeleteInVolume_def safePath_parts io_raise_def list_all_iff)

text \<open>
  The helper cache says what it should.  A successful lookup returns the container that is
  then cached for this client and this volume; whatever happens, the entries of other volumes
  and other clients stay as they were, and a failed lookup leaves the entry or clears it.
\<close>

lemma volume_helper_cached:
  "case volumeHelper X c name w of
     (Inr i, w') \<Rightarrow> w_helpers w' = set_helper c name (Some i) (w_helpers w)
   | (Inl e, w') \<Rightarrow> w_helpers w' = w_helpers w \<or> w_helpers w' = set_helper c name None (w_helpers w)"
proof -
  have "helpers_at (w_helpers w) w" by (simp add: helpers_are_def)
  with volumeHelper_spec [of "w_helpers w" X c name] show ?thesis
    unfolding io_spec_def helpers_are_def by simp
qed

definition volume_name :: "string \<Rightarrow> bool" where
  "volume_name s \<longleftrightarrow> list_all (\<lambda>r. is_lower r \<or> is_upper r \<or> is_digit r \<or> r = CHR ''-'' \<or> r = CHR ''_'' \<or> r = CHR ''.'') s"

text \<open>
  Different volumes have different helper containers.  Docker's volume names consist of
  letters, digits, \<^verbatim>\<open>_\<close>, \<^verbatim>\<open>.\<close> and \<^verbatim>\<open>-\<close>; on these names the sanitized
  name is the name itself, so no two of them share a helper.
\<close>

lemma helper_names_distinct:
  assumes "volume_name s" "volume_name t"
  shows "helper_name s = helper_name t \<longleftrightarrow> s = t"
proof -
  have "sanitizeName s = s" if "volume_name s" for s
    using that unfolding sanitizeName_def volume_name_def list_all_iff
    by (intro map_idI) (simp add: sanitize_char_def)
  with assms show ?thesis by (simp add: helper_name_def)
qed

definition render_file :: "vol_file \<Rightarrow> string" where
  "render_file f = (if vf_dir f then ''d|0|'' else ''f|'' @ goItoa (vf_size f) @ ''|'') @ vf_name f"

definition listing :: "vol_file list \<Rightarrow> string" where
  "listing fs = concat (map (\<lambda>f. render_file f @ [CHR 0x0A]) fs)"

definition printable_entry :: "vol_file \<Rightarrow> bool" where
  "printable_entry f \<longleftrightarrow> vf_name f \<noteq> [] \<and> CHR 0x0A \<notin> set (vf_name f) \<and> \<not> is_space (last (vf_name f)) \<and>
     in_i64 (vf_size f) \<and> (vf_dir f \<longrightarrow> vf_size f = 0)"

lemma goItoa_no_sep:
  "CHR ''|'' \<notin> set (goItoa n)" "CHR 0x0A \<notin> set (goItoa n)"
  using goItoa_chars [of "CHR ''|''" n] goItoa_chars [of "CHR 0x0A" n]
  by (auto simp: is_digit_def code_of_def)

lemma parse_render: "printable_entry f \<Longrightarrow> parse_line (render_file f) = Some f"
proof -
  assume f: "printable_entry f"
  have t: "trimSpace (render_file f) = render_file f"
    using f unfolding trimSpace_def
    by (intro trimWith_id) (auto simp: render_file_def printable_entry_def is_space_def code_of_def)
  have "splitN 3 CHR ''|'' (render_file f) =
      (if vf_dir f then [''d'', ''0'', vf_name f] else [''f'', goItoa (vf_size f), vf_name f])"
    using goItoa_no_sep(1) [of "vf_size f"]
    by (simp add: render_file_def numeral_3_eq_3 indexByte_append)
  moreover have "parseInt_value ''0'' = 0" by code_simp
  moreover have "render_file f \<noteq> []" by (simp add: render_file_def)
  ultimately show ?thesis
    using f unfolding parse_line_def t Let_def
    by (cases "vf_dir f") (simp_all add: parseInt_value_goItoa printable_entry_def)
qed

lemma render_no_newline: "printable_entry f \<Longrightarrow> CHR 0x0A \<notin> set (render_file f)"
  using goItoa_no_sep(2) [of "vf_size f"] by (auto simp: render_file_def printable_entry_def)

text \<open>
  C40: the listing of a directory is read back as it was printed.  For entries whose names are
  not empty, hold no line break and do not end in white space, and whose sizes fit 64 bits, the
  parser returns from the script's output exactly the entries, separators inside names included.
\<close>

theorem listing_roundtrip:
  assumes "list_all printable_entry fs"
  shows "parseVolListing (listing fs) = fs"
  using assms
proof (induction fs)
  case Nil
  then show ?case by (simp add: parseVolListing_def listing_def parse_line_def trimSpace_def List.map_filter_simps)
next
  case (Cons f fs)
  then have "splitChar CHR 0x0A (listing (f # fs)) = render_file f # splitChar CHR 0x0A (listing fs)"
    by (simp add: listing_def splitChar_append_sep render_no_newline)
  with Cons show ?case
    by (simp add: parseVolListing_def List.map_filter_simps parse_render)
qed

theorem listing_roundtrip_witness:
  "parseVolListing (listing [\<lparr>vf_name = ''a|b'', vf_dir = False, vf_size = 7\<rparr>, \<lparr>vf_name = ''sub'', vf_dir = True, vf_size = 0\<rparr>]) =
     [\<lparr>vf_name = ''a|b'', vf_dir = False, vf_size = 7\<rparr>, \<lparr>vf_name = ''sub'', vf_dir = True, vf_size = 0\<rparr>]"
  by (rule listing_roundtrip) (simp add: printable_entry_def in_i64_def is_space_def code_of_def)

lemma path_base_no_slash: "path_base s \<noteq> ''/'' \<Longrightarrow> CHR ''/'' \<notin> set (path_base s)"
  unfolding path_base_def Let_def
  by (simp add: splitChar_parts [OF last_in_set] split: if_splits)

text \<open>
  An upload writes one name in the chosen directory.  A file name that is accepted is a
  single path component: not empty, without a slash and not \<^verbatim>\<open>.\<close>.  The other dot name is
  not rejected: \<^verbatim>\<open>..\<close> passes the check.
\<close>

lemma upload_name_is_component:
  assumes "UploadToVolume X c name dir filename r n w = (Inr u, w')"
  shows "path_base filename \<noteq> [] \<and> CHR ''/'' \<notin> set (path_base filename) \<and>
    (plain_part (path_base filename) \<or> path_base filename = ''..'')"
proof -
  from assms have "path_base filename \<notin> {'''', ''.'', ''/''}"
    by (auto simp: UploadToVolume_def io_inr Let_def split: if_splits)
  with path_base_no_slash [of filename] show ?thesis by (auto simp: plain_part_def)
qed


end
