(* ===== verification/Http.thy ===== *)
theory Http
  imports Scaling Volumes
begin

text \<open>
  What every HTTP handler of \<^verbatim>\<open>internal/api\<close> is made of: the request, the status it
  answers with, the environment it addresses, and the middleware that restricts members to
  their environments and to what they own (\<^verbatim>\<open>server.go\<close>, \<^verbatim>\<open>errors.go\<close>, the first part
  of \<^verbatim>\<open>handlers_users.go\<close>).

  A handler is a computation that ends with a status and the value it encodes as JSON, or with
  the status and the error it reports.  A request body is given by what the JSON decoder makes
  of it.
\<close>

section \<open>Requests\<close>

text \<open>\<^verbatim>\<open>auth.Principal\<close>, and the zero value a request without a session carries.\<close>

record principal =
  pr_userID :: int
  pr_username :: string
  pr_role :: string

definition no_principal :: principal where
  "no_principal = \<lparr>pr_userID = 0, pr_username = '''', pr_role = ''''\<rparr>"

definition IsAdmin :: "principal \<Rightarrow> bool" where
  "IsAdmin p \<longleftrightarrow> pr_role p = RoleAdmin"

text \<open>The headers, the query, the parameters of the path, and the principal in the context.\<close>

record request =
  rq_header :: "string \<Rightarrow> string"
  rq_query :: "string \<Rightarrow> string"
  rq_param :: "string \<Rightarrow> string"
  rq_principal :: principal

type_synonym ('e, 'a) web = "(int \<times> goerr, 'e world, 'a) io"
type_synonym ('e, 'a) handler = "request \<Rightarrow> ('e, int \<times> 'a) web"

definition Current :: "request \<Rightarrow> principal" where
  "Current r = rq_principal r"

definition ownerScope :: "request \<Rightarrow> string" where
  "ownerScope r = (let p = Current r in if IsAdmin p then '''' else pr_username p)"

definition endpointID :: "request \<Rightarrow> int" where
  "endpointID r =
     (let h = rq_header r ''X-Endpoint-Id'';
          v = (if h = '''' then rq_query r ''endpoint'' else h)
      in if v = '''' \<or> v = ''local'' then LocalID else parseInt_value v)"

definition endpointIDParam :: "request \<Rightarrow> int" where
  "endpointIDParam r = parseInt_value (rq_param r ''id'')"

section \<open>Answers\<close>

definition writeJSON :: "int \<Rightarrow> 'a \<Rightarrow> ('e, int \<times> 'a) web" where
  "writeJSON status v = io_ret (status, v)"

definition writeErr :: "int \<Rightarrow> goerr \<Rightarrow> ('e, 'a) web" where
  "writeErr status err = io_raise (status, err)"

text \<open>\<^verbatim>\<open>if err != nil { writeErr(w, status, err); return }\<close>.\<close>

definition or_status :: "int \<Rightarrow> ('e, 'a) op \<Rightarrow> ('e, 'a) web" where
  "or_status status m = io_maperr (\<lambda>e. (status, e)) m"

text \<open>The decoded body, and \<^verbatim>\<open>strconv.ParseInt (chi.URLParam (r, "id"), 10, 64)\<close>.\<close>

definition decoded :: "goerr + 'b \<Rightarrow> ('e, 'b) web" where
  "decoded body = or_status 400 (io_of_sum body)"

definition id_param :: "request \<Rightarrow> ('e, int) web" where
  "id_param r = (case goAtoi (rq_param r ''id'') of
       None \<Rightarrow> writeErr 400 (Ext ''strconv.ParseInt: invalid syntax'')
     | Some i \<Rightarrow> io_ret i)"

definition errNotFound :: goerr where "errNotFound = Err ''not found''"
definition errCannotDeleteLocal :: goerr where
  "errCannotDeleteLocal = Err ''the local environment cannot be deleted''"
definition errNoEndpointAccess :: goerr where
  "errNoEndpointAccess = Err ''you do not have access to this environment''"

text \<open>\<^verbatim>\<open>err.Error()\<close> of a value that may be nil.\<close>

definition errString :: "goerr option \<Rightarrow> string" where
  "errString err = (case err of None \<Rightarrow> '''' | Some e \<Rightarrow> errorString e)"

definition statusForOwnershipErr :: "goerr \<Rightarrow> int" where
  "statusForOwnershipErr err =
     (if err_is err ErrForbidden then 403 else if err_is err ErrNotFound then 404 else 502)"

section \<open>Environments\<close>

definition clientFor :: "'e ext \<Rightarrow> server \<Rightarrow> request \<Rightarrow> ('e, client) op" where
  "clientFor X S r = ClientFor X S (endpointID r)"

definition dockerOr502 :: "'e ext \<Rightarrow> server \<Rightarrow> request \<Rightarrow> ('e, client) web" where
  "dockerOr502 X S r = or_status 502 (clientFor X S r)"

definition requireEndpointAccess :: "'e ext \<Rightarrow> ('e, 'a) handler \<Rightarrow> ('e, 'a) handler" where
  "requireEndpointAccess X next_h r =
     (let i = endpointID r in
      if i = LocalID then next_h r
      else let p = Current r in
      if IsAdmin p then next_h r
      else io_bind (or_status 500 (sql X (UserHasEndpoint (pr_userID p) i))) (\<lambda>ok.
        if \<not> ok then writeErr 403 errNoEndpointAccess else next_h r))"

section \<open>Owners\<close>

definition requireContainerOwner :: "'e ext \<Rightarrow> server \<Rightarrow> ('e, 'a) handler \<Rightarrow> ('e, 'a) handler" where
  "requireContainerOwner X S next_h r =
     (let p = Current r in
      if IsAdmin p then next_h r
      else io_bind (or_status 502 (clientFor X S r)) (\<lambda>cli.
        io_bind (or_status 502 (Inspect X cli (rq_param r ''id''))) (\<lambda>info.
          let owner = config_label info LabelOwner in
          if owner \<noteq> pr_username p then writeErr 403 (Err ''you do not own this container'')
          else next_h r)))"

definition requireVolumeOwner :: "'e ext \<Rightarrow> server \<Rightarrow> ('e, 'a) handler \<Rightarrow> ('e, 'a) handler" where
  "requireVolumeOwner X S next_h r =
     (let p = Current r in
      if IsAdmin p then next_h r
      else io_bind (or_status 502 (clientFor X S r)) (\<lambda>cli.
        io_bind (or_status 502 (InspectVolume X cli (rq_param r ''name''))) (\<lambda>v.
          if mget (vo_labels v) LabelOwner \<noteq> pr_username p then writeErr 403 (Err ''you do not own this volume'')
          else next_h r)))"

definition requireNetworkOwner :: "'e ext \<Rightarrow> server \<Rightarrow> ('e, 'a) handler \<Rightarrow> ('e, 'a) handler" where
  "requireNetworkOwner X S next_h r =
     (let p = Current r in
      if IsAdmin p then next_h r
      else io_bind (or_status 502 (clientFor X S r)) (\<lambda>cli.
        io_bind (or_status 502 (InspectNetwork X cli (rq_param r ''id''))) (\<lambda>info.
          if mget (ne_labels info) LabelOwner \<noteq> pr_username p then writeErr 403 (Err ''you do not own this network'')
          else next_h r)))"

definition requireRegistryOwner :: "'e ext \<Rightarrow> ('e, 'a) handler \<Rightarrow> ('e, 'a) handler" where
  "requireRegistryOwner X next_h r =
     (let p = Current r in
      if IsAdmin p then next_h r
      else io_bind (id_param r) (\<lambda>i.
        io_bind (or_status 404 (RegistryOwner X i)) (\<lambda>owner.
          if owner \<noteq> pr_username p then writeErr 403 (Err ''you do not own this registry'')
          else next_h r)))"


section \<open>Rules for handlers\<close>

lemmas web_defs = writeJSON_def writeErr_def or_status_def decoded_def dockerOr502_def

lemma writeJSON_Inr [simp]: "writeJSON s v w = (Inr y, w') \<longleftrightarrow> y = (s, v) \<and> w' = w"
  by (simp add: web_defs)

lemma writeErr_Inr [simp]: "writeErr s e w = (Inr y, w') \<longleftrightarrow> False"
  by (simp add: web_defs)

lemma or_status_Inr [simp]: "or_status s m w = (Inr y, w') \<longleftrightarrow> m w = (Inr y, w')"
  by (simp add: web_defs)

lemma decoded_Inr [simp]: "decoded b w = (Inr y, w') \<longleftrightarrow> b = Inr y \<and> w' = w"
  by (simp add: web_defs)

lemma id_param_Inr [simp]: "id_param r w = (Inr i, w') \<longleftrightarrow> goAtoi (rq_param r ''id'') = Some i \<and> w' = w"
  by (auto simp: id_param_def split: option.splits)

lemma dockerOr502_Inr [simp]: "dockerOr502 X S r w = (Inr c, w') \<longleftrightarrow> clientFor X S r w = (Inr c, w')"
  by (simp add: web_defs)

lemma io_keeps_writeJSON [io_keep, simp]: "io_keeps I (writeJSON s v)"
  by (simp add: web_defs)

lemma io_keeps_writeErr [io_keep, simp]: "io_keeps I (writeErr s e)"
  by (simp add: web_defs)

lemma io_keeps_or_status [io_keep]: "io_keeps I m \<Longrightarrow> io_keeps I (or_status s m)"
  by (simp add: web_defs io_keeps_maperr)

lemma io_keeps_decoded [io_keep, simp]: "io_keeps I (decoded b)"
  by (simp add: web_defs io_keeps_maperr io_keeps_io_of_sum)

lemma io_keeps_id_param [io_keep, simp]: "io_keeps I (id_param r)"
  by (simp add: id_param_def split: option.split)

section \<open>The contract of the ownership guards\<close>

text \<open>
  A guard lets administrators through; for a member it looks the owner of the addressed
  resource up and lets the request through only when that is the member.
\<close>

locale owner_guard =
  fixes guard :: "('e, 'a) handler \<Rightarrow> ('e, 'a) handler"
    and owner :: "request \<Rightarrow> ('e, string) web"
    and refusal :: goerr
  assumes guard_admin: "IsAdmin (Current r) \<Longrightarrow> guard h r = h r"
    and guard_member: "\<not> IsAdmin (Current r) \<Longrightarrow>
      guard h r = io_bind (owner r) (\<lambda>ow. if ow \<noteq> pr_username (Current r) then writeErr 403 refusal else h r)"
begin

lemma guard_passes:
  assumes "\<not> IsAdmin (Current r)" "guard h r w = (Inr x, w')"
  shows "\<exists>w1. owner r w = (Inr (pr_username (Current r)), w1) \<and> h r w1 = (Inr x, w')"
  using assms by (auto simp: guard_member io_inr split: if_splits)

lemma guard_refuses:
  assumes "\<not> IsAdmin (Current r)" "owner r w = (Inr ow, w1)" "ow \<noteq> pr_username (Current r)"
  shows "guard h r w = (Inl (403, refusal), w1)"
  using assms by (simp add: guard_member io_bind_def writeErr_def io_raise_def)

lemma guard_keeps: "io_keeps I (owner r) \<Longrightarrow> io_keeps I (h r) \<Longrightarrow> io_keeps I (guard h r)"
  by (cases "IsAdmin (Current r)") (simp_all add: guard_admin guard_member io_keep)

end

definition container_owner :: "'e ext \<Rightarrow> server \<Rightarrow> request \<Rightarrow> ('e, string) web" where
  "container_owner X S r =
     io_bind (or_status 502 (clientFor X S r)) (\<lambda>cli.
     io_bind (or_status 502 (Inspect X cli (rq_param r ''id''))) (\<lambda>info. io_ret (config_label info LabelOwner)))"

definition volume_owner :: "'e ext \<Rightarrow> server \<Rightarrow> request \<Rightarrow> ('e, string) web" where
  "volume_owner X S r =
     io_bind (or_status 502 (clientFor X S r)) (\<lambda>cli.
     io_bind (or_status 502 (InspectVolume X cli (rq_param r ''name''))) (\<lambda>v. io_ret (mget (vo_labels v) LabelOwner)))"

definition network_owner :: "'e ext \<Rightarrow> server \<Rightarrow> request \<Rightarrow> ('e, string) web" where
  "network_owner X S r =
     io_bind (or_status 502 (clientFor X S r)) (\<lambda>cli.
     io_bind (or_status 502 (InspectNetwork X cli (rq_param r ''id''))) (\<lambda>n. io_ret (mget (ne_labels n) LabelOwner)))"

definition registry_owner :: "'e ext \<Rightarrow> request \<Rightarrow> ('e, string) web" where
  "registry_owner X r = io_bind (id_param r) (\<lambda>i. or_status 404 (RegistryOwner X i))"

interpretation ctr: owner_guard "requireContainerOwner X S" "container_owner X S" "Err ''you do not own this container''"
  for X S
  by unfold_locales (simp_all add: requireContainerOwner_def container_owner_def Let_def io_bind_assoc)

interpretation vol: owner_guard "requireVolumeOwner X S" "volume_owner X S" "Err ''you do not own this volume''"
  for X S
  by unfold_locales (simp_all add: requireVolumeOwner_def volume_owner_def Let_def io_bind_assoc)

interpretation net: owner_guard "requireNetworkOwner X S" "network_owner X S" "Err ''you do not own this network''"
  for X S
  by unfold_locales (simp_all add: requireNetworkOwner_def network_owner_def Let_def io_bind_assoc)

interpretation reg: owner_guard "requireRegistryOwner X" "registry_owner X" "Err ''you do not own this registry''"
  for X
  by unfold_locales (simp_all add: requireRegistryOwner_def registry_owner_def Let_def io_bind_assoc)

end
