(* ===== verification/Auth.thy ===== *)
theory Auth
  imports Http
begin

text \<open>
  \<^verbatim>\<open>internal/auth/auth.go\<close>: passwords, session tokens and the middleware that turns a token
  into the principal of a request.  bcrypt and the token library are outside; what the manager
  needs of the store is the interface \<^verbatim>\<open>Users\<close>, here a locale.
\<close>

section \<open>The manager\<close>

text \<open>The signing key: the configured secret, or 32 random bytes in hexadecimal.\<close>

definition hex_byte :: "char \<Rightarrow> string" where
  "hex_byte c = [hex_char (code_of c div 16), hex_char (code_of c mod 16)]"

definition hexEncode :: "string \<Rightarrow> string" where
  "hexEncode bs = concat (map hex_byte bs)"

definition NewAuth :: "'e ext \<Rightarrow> string \<Rightarrow> ('e, string) op" where
  "NewAuth X jwtSecret =
     (if length jwtSecret = 0 then io_bind (ext (x_rand X 32)) (\<lambda>buf. io_ret (hexEncode buf))
      else io_ret jwtSecret)"

definition session_ttl :: int where "session_ttl = 24 * 60 * 60"

definition HashPassword :: "'e ext \<Rightarrow> string \<Rightarrow> ('e, string) op" where
  "HashPassword X password = ext (x_bcrypt X password)"

definition login_claims :: "user \<Rightarrow> int \<Rightarrow> claims" where
  "login_claims u now = \<lparr>cm_subject = us_username u, cm_issuedAt = now, cm_expiresAt = now + session_ttl,
     cm_userID = us_id u, cm_role = us_role u\<rparr>"

text \<open>
  \<^verbatim>\<open>users\<close> is \<^verbatim>\<open>m.users.GetUserByUsername\<close>.  The dummy comparison for an unknown
  account only takes time.
\<close>

definition login_with :: "(string \<Rightarrow> ('e, user) op) \<Rightarrow> 'e ext \<Rightarrow> string \<Rightarrow> string \<Rightarrow> string
    \<Rightarrow> ('e, string \<times> user) op" where
  "login_with users X secret username password =
     io_bind (io_try (users username)) (\<lambda>r. case r of
         Inl _ \<Rightarrow> io_raise (Err ''invalid credentials'')
       | Inr user \<Rightarrow>
           if \<not> x_bcryptOk X (us_passwordHash user) password then io_raise (Err ''invalid credentials'')
           else io_bind (ext (x_clock X)) (\<lambda>now.
             io_bind (io_of_sum (x_jwtSign X secret (login_claims user now))) (\<lambda>token.
               io_ret (token, user))))"

definition Login :: "'e ext \<Rightarrow> server \<Rightarrow> string \<Rightarrow> string \<Rightarrow> ('e, string \<times> user) op" where
  "Login X S = login_with (\<lambda>n. sql X (GetUserByUsername n)) X (srv_jwtKey S)"

text \<open>The key function: only HMAC tokens get the key.\<close>

definition key_for :: "server \<Rightarrow> signing_method \<Rightarrow> goerr + string" where
  "key_for S m = (case m of SigningMethodHMAC \<Rightarrow> Inr (srv_jwtKey S)
     | OtherMethod _ \<Rightarrow> Inl (Err ''unexpected signing method''))"

definition verify :: "'e ext \<Rightarrow> server \<Rightarrow> string \<Rightarrow> ('e, principal) op" where
  "verify X S tokenStr =
     io_bind (ext (x_jwtParse X tokenStr (key_for S))) (\<lambda>c.
       io_ret \<lparr>pr_userID = cm_userID c, pr_username = cm_subject c, pr_role = cm_role c\<rparr>)"

definition bearer :: "string \<Rightarrow> string" where
  "bearer header =
     (if header = '''' then ''''
      else let parts = splitN 2 CHR '' '' header in
        if length parts = 2 \<and> equalFold (parts ! 0) ''Bearer'' then trimSpace (parts ! 1) else '''')"

definition request_token :: "request \<Rightarrow> string" where
  "request_token r =
     (let t = bearer (rq_header r ''Authorization'') in if t = '''' then rq_query r ''token'' else t)"

definition Middleware :: "'e ext \<Rightarrow> server \<Rightarrow> ('e, 'a) handler \<Rightarrow> ('e, 'a) handler" where
  "Middleware X S next_h r =
     (let tokenStr = request_token r in
      if tokenStr = '''' then writeErr 401 (Err ''missing token'')
      else io_bind (io_try (verify X S tokenStr)) (\<lambda>v. case v of
          Inl _ \<Rightarrow> writeErr 401 (Err ''invalid token'')
        | Inr p \<Rightarrow> next_h (r\<lparr>rq_principal := p\<rparr>)))"

definition RequireAdmin :: "('e, 'a) handler \<Rightarrow> ('e, 'a) handler" where
  "RequireAdmin next_h r =
     (if \<not> IsAdmin (Current r) then writeErr 403 (Err ''admin role required'') else next_h r)"

section \<open>The accounts the manager relies on\<close>

locale users_store =
  fixes ok :: "'e world \<Rightarrow> bool" and users :: "string \<Rightarrow> ('e, user) op" and account :: "'e world \<Rightarrow> user \<Rightarrow> bool"
  assumes lookup: "ok w \<Longrightarrow> users n w = (Inr u, w') \<Longrightarrow> account w u \<and> us_username u = n"
    and lookup_keeps: "io_keeps ok (users n)"
begin

lemma login_account:
  assumes "ok w" "login_with users X secret username password w = (Inr (token, u), w')"
  shows "account w u \<and> us_username u = username \<and> x_bcryptOk X (us_passwordHash u) password \<and>
    (\<exists>now e e'. x_clock X e = (Inr now, e') \<and> x_jwtSign X secret (login_claims u now) = Inr token)"
proof (cases "fst (users username w)")
  case (Inl e)
  with assms(2) show ?thesis
    by (cases "users username w") (auto simp: login_with_def io_inr)
next
  case (Inr v)
  with assms(2) obtain w1 now w2 where "users username w = (Inr v, w1)" "v = u"
    and "x_bcryptOk X (us_passwordHash u) password" "x_jwtSign X secret (login_claims u now) = Inr token"
    and "ext (x_clock X) w1 = (Inr now, w2)"
    by (cases "users username w") (auto simp: login_with_def io_inr split: if_splits)
  with lookup [OF assms(1)] show ?thesis by (blast elim: ext_Inr)
qed

end

lemma GetUserByUsername_Inr:
  "GetUserByUsername n d = (Inr u, d') \<Longrightarrow> d' = d \<and> u \<in> set (db_users d) \<and> us_username u = n"
  by (auto simp: GetUserByUsername_def scanUser_def split: option.splits dest!: find_SomeD)

interpretation accounts: users_store db_inv "\<lambda>n. sql X (GetUserByUsername n)"
  "\<lambda>w u. u \<in> set (db_users (w_db w))" for X
proof unfold_locales
  fix w :: "'a world" and n u w'
  assume "sql X (GetUserByUsername n) w = (Inr u, w')"
  then obtain d e now where "GetUserByUsername n ((w_db w)\<lparr>db_now := now\<rparr>) = (Inr u, d)" by (rule sql_Inr)
  from GetUserByUsername_Inr [OF this] show "u \<in> set (db_users (w_db w)) \<and> us_username u = n" by simp
qed (intro db_inv_sql stmt_keeps)

section \<open>Sessions\<close>

text \<open>
  What the token library documents: a signed token is parsed back, with its claims, by whoever
  holds the key, until it expires.
\<close>

definition jwt_ok :: "'e ext \<Rightarrow> bool" where
  "jwt_ok X \<longleftrightarrow> (\<forall>key c token kf e now e'.
     x_jwtSign X key c = Inr token \<and> kf SigningMethodHMAC = Inr key \<and>
     x_clock X e = (Inr now, e') \<and> now < cm_expiresAt c \<longrightarrow> fst (x_jwtParse X token kf e) = Inr c)"

definition user_principal :: "user \<Rightarrow> principal" where
  "user_principal u = \<lparr>pr_userID = us_id u, pr_username = us_username u, pr_role = us_role u\<rparr>"

lemma verify_login:
  assumes "jwt_ok X" "x_jwtSign X (srv_jwtKey S) (login_claims u issued) = Inr token"
    and "x_clock X (w_ext w) = (Inr now, e)" "now < issued + session_ttl"
  shows "\<exists>w'. verify X S token w = (Inr (user_principal u), w')"
proof -
  have "fst (x_jwtParse X token (key_for S) (w_ext w)) = Inr (login_claims u issued)"
    using assms unfolding jwt_ok_def by (force simp: key_for_def login_claims_def)
  then show ?thesis
    by (cases "x_jwtParse X token (key_for S) (w_ext w)")
      (simp add: verify_def ext_def io_bind_def io_ret_def user_principal_def login_claims_def)
qed

lemma verify_keeps [io_keep]: "ext_blind I \<Longrightarrow> io_keeps I (verify X S t)"
  unfolding verify_def by (intro io_keep ext_blind_ext)

lemma Middleware_keeps:
  assumes "ext_blind I" "\<And>p. io_keeps I (h (r\<lparr>rq_principal := p\<rparr>))"
  shows "io_keeps I (Middleware X S h r)"
  unfolding Middleware_def Let_def by (intro io_keep assms)

lemma RequireAdmin_keeps: "io_keeps I (h r) \<Longrightarrow> io_keeps I (RequireAdmin h r)"
  by (simp add: RequireAdmin_def)

lemma bearer_token:
  assumes "equalFold scheme ''Bearer''" "CHR '' '' \<notin> set scheme" "trimSpace t = t"
  shows "bearer (scheme @ CHR '' '' # t) = t"
  using assms by (simp add: bearer_def numeral_2_eq_2 indexByte_append)

section \<open>Properties\<close>

text \<open>Two accounts, and a token library that signs the session of the first.\<close>

definition sim_user :: "int \<Rightarrow> string \<Rightarrow> string \<Rightarrow> user" where
  "sim_user i name role = \<lparr>us_id = i, us_username = name, us_passwordHash = ''hash:pw'', us_role = role,
     us_cpuQuotaMilli = 1000, us_memQuotaMB = 1024, us_diskQuotaMB = 100, us_createdAt = 0\<rparr>"

definition sim_users_db :: db where
  "sim_users_db = db_empty\<lparr>db_users := [sim_user 1 ''ann'' RoleAdmin, sim_user 2 ''bob'' RoleMember],
     db_seq := (\<lambda>_. 0)(TUsers := 2)\<rparr>"

lemma sim_users_db_ok [simp]: "db_ok sim_users_db"
  by (simp add: db_ok_def db_ok_defs sim_users_db_def db_empty_def sim_user_def tbl_ok_def in_i32_def)

definition jwt_ext :: "sim ext" where
  "jwt_ext = sim_ext\<lparr>
     x_jwtSign := (\<lambda>k c. if k = ''k'' \<and> c = login_claims (sim_user 1 ''ann'' RoleAdmin) 0
        then Inr ''tok'' else Inl (Ext ''cannot sign'')),
     x_jwtParse := (\<lambda>t kf. if t = ''tok'' \<and> kf SigningMethodHMAC = Inr ''k''
        then io_ret (login_claims (sim_user 1 ''ann'' RoleAdmin) 0) else io_raise (Ext ''invalid''))\<rparr>"

lemma jwt_ext_ok: "jwt_ok jwt_ext"
  by (auto simp: jwt_ok_def jwt_ext_def io_ret_def split: if_splits)

definition sim_request :: "(string \<Rightarrow> string) \<Rightarrow> request" where
  "sim_request h = \<lparr>rq_header = h, rq_query = (\<lambda>_. ''''), rq_param = (\<lambda>_. ''''), rq_principal = no_principal\<rparr>"

text \<open>
  C21: a session is the account that opened it.  After a successful login the stored account of
  that name has the given password, and, until the token expires, a request that carries the
  token in its \<^verbatim>\<open>Authorization\<close> header reaches the handler with the id, the name and the
  role the account had when it logged in.  (The time of issue is what the clock said at some
  moment of the login.)
\<close>

theorem session_is_account:
  assumes jwt: "jwt_ok X" and db: "db_inv w"
    and login: "Login X S username password w = (Inr (token, u), w1)" and t: "token \<noteq> ''''" "trimSpace token = token"
    and header: "rq_header r ''Authorization'' = ''Bearer '' @ token"
  shows "u \<in> set (db_users (w_db w)) \<and> us_username u = username \<and> x_bcryptOk X (us_passwordHash u) password \<and>
    (\<exists>issued e e'. x_clock X e = (Inr issued, e') \<and>
       (\<forall>w2 now e. x_clock X (w_ext w2) = (Inr now, e) \<and> now < issued + session_ttl \<longrightarrow>
          (\<exists>w3. Middleware X S h r w2 = h (r\<lparr>rq_principal := user_principal u\<rparr>) w3)))"
proof -
  from accounts.login_account [OF db login [unfolded Login_def]]
  obtain issued e0 e1 where a: "u \<in> set (db_users (w_db w))" "us_username u = username"
      "x_bcryptOk X (us_passwordHash u) password" "x_clock X e0 = (Inr issued, e1)"
    and s: "x_jwtSign X (srv_jwtKey S) (login_claims u issued) = Inr token" by blast
  have "equalFold ''Bearer'' ''Bearer''" by (simp add: equalFold_def)
  then have "request_token r = token"
    using bearer_token [of "''Bearer''" token] t header by (simp add: request_token_def)
  then have "\<exists>w3. Middleware X S h r w2 = h (r\<lparr>rq_principal := user_principal u\<rparr>) w3"
    if "x_clock X (w_ext w2) = (Inr now, e)" "now < issued + session_ttl" for w2 now e
    using verify_login [OF jwt s that] t by (auto simp: Middleware_def io_bind_def io_try_def)
  with a show ?thesis by blast
qed


theorem session_is_account_witness:
  "\<exists>u w1. Login jwt_ext sim_server ''ann'' ''pw'' (sim_world sim_users_db) = (Inr (''tok'', u), w1) \<and>
     us_username u = ''ann'' \<and>
     (\<exists>w3. Middleware jwt_ext sim_server (\<lambda>r. writeJSON 200 (rq_principal r))
        (sim_request (\<lambda>_. ''Bearer tok'')) w1 = writeJSON 200 (user_principal u) w3)"
proof -
  let ?m = "Login jwt_ext sim_server ''ann'' ''pw''"
  have "map_sum id fst (fst (?m (sim_world sim_users_db))) = Inr ''tok''" by code_simp
  then obtain u w1 where m: "?m (sim_world sim_users_db) = (Inr (''tok'', u), w1)"
    by (cases "?m (sim_world sim_users_db)"; cases "fst (?m (sim_world sim_users_db))") auto
  have t: "trimSpace ''tok'' = ''tok''" by code_simp
  have h: "rq_header (sim_request (\<lambda>_. ''Bearer tok'')) ''Authorization'' = ''Bearer '' @ ''tok''"
    by (simp add: sim_request_def)
  have c: "x_clock jwt_ext e = (Inr 0, e)" for e by (simp add: jwt_ext_def sim_ext_def io_ret_def)
  have "db_inv (sim_world sim_users_db)" by (simp add: db_inv_def)
  from session_is_account [OF jwt_ext_ok this m _ t h, of "\<lambda>r. writeJSON 200 (rq_principal r)"] m c
  show ?thesis by (auto simp: session_ttl_def)
qed

end
