(* ===== verification/ApiUsers.thy ===== *)
theory ApiUsers
  imports Auth
begin

text \<open>
  \<^verbatim>\<open>internal/api/handlers_users.go\<close> after its guards: the current user, accounts, resource
  requests, and the quota check of a container edit.
\<close>

definition nanoPerMilliCPU :: int where "nanoPerMilliCPU = 1000000"
definition bytesPerMB :: int where "bytesPerMB = 2 ^ 20"

section \<open>The current user\<close>

record me_view =
  me_username :: string
  me_role :: string
  me_cpuQuotaMilli :: int
  me_memQuotaMB :: int
  me_diskQuotaMB :: int
  me_cpuUsedMilli :: int
  me_memUsedMB :: int
  me_diskUsedMB :: int

text \<open>The quota that applies on an environment; a failed lookup of a grant counts as none.\<close>

definition me_quota :: "'e ext \<Rightarrow> user \<Rightarrow> int \<Rightarrow> ('e, int \<times> int \<times> int) web" where
  "me_quota X user env =
     (if env = 0 then io_ret (us_cpuQuotaMilli user, us_memQuotaMB user, us_diskQuotaMB user)
      else io_bind (io_try (sql X (GetUserEndpointQuota (us_id user) env))) (\<lambda>g. io_ret (case g of
          Inr (Some q) \<Rightarrow> (eg_cpuQuotaMilli q, eg_memQuotaMB q, eg_diskQuotaMB q)
        | _ \<Rightarrow> (0, 0, 0))))"

definition me_usage :: "'e ext \<Rightarrow> server \<Rightarrow> request \<Rightarrow> user \<Rightarrow> ('e, int \<times> int) web" where
  "me_usage X S r user =
     io_bind (io_try (clientFor X S r)) (\<lambda>c. case c of
         Inl _ \<Rightarrow> io_ret (0, 0)
       | Inr cli \<Rightarrow> io_bind (io_try (OwnerUsage X cli (us_username user)))
           (\<lambda>u. io_ret (case u of Inl _ \<Rightarrow> (0, 0) | Inr used \<Rightarrow> used)))"

definition handleMe :: "'e ext \<Rightarrow> server \<Rightarrow> ('e, me_view) handler" where
  "handleMe X S r =
     (let p = Current r; env = endpointID r in
      io_bind (or_status 401 (sql X (GetUserByID (pr_userID p)))) (\<lambda>user.
      io_bind (me_quota X user env) (\<lambda>(cpuQ, memQ, diskQ).
      io_bind (me_usage X S r user) (\<lambda>(usedNano, usedMem).
      io_bind (io_try (sql X (OwnerDiskUsageMB env (us_username user) ''''))) (\<lambda>disk.
        writeJSON 200 \<lparr>me_username = us_username user, me_role = us_role user,
          me_cpuQuotaMilli = cpuQ, me_memQuotaMB = memQ, me_diskQuotaMB = diskQ,
          me_cpuUsedMilli = go_div usedNano nanoPerMilliCPU, me_memUsedMB = go_div usedMem bytesPerMB,
          me_diskUsedMB = (case disk of Inl _ \<Rightarrow> 0 | Inr n \<Rightarrow> n)\<rparr>)))))"

section \<open>Accounts\<close>

definition handleListUsers :: "'e ext \<Rightarrow> ('e, user list) handler" where
  "handleListUsers X r = io_bind (or_status 500 (sql X ListUsers)) (\<lambda>us. writeJSON 200 us)"

record create_user_body =
  cu_username :: string
  cu_password :: string
  cu_role :: string
  cu_cpuQuotaMilli :: int
  cu_memQuotaMB :: int
  cu_diskQuotaMB :: int

definition handleCreateUser :: "'e ext \<Rightarrow> goerr + create_user_body \<Rightarrow> ('e, user) handler" where
  "handleCreateUser X body r =
     io_bind (decoded body) (\<lambda>b.
       if cu_username b = '''' \<or> cu_password b = ''''
       then writeErr 400 (Err ''username and password are required'')
       else let role = (if cu_role b \<noteq> RoleAdmin then RoleMember else cu_role b) in
       io_bind (or_status 500 (HashPassword X (cu_password b))) (\<lambda>hash.
       io_bind (or_status 400 (sql X (CreateUser
           \<lparr>us_id = 0, us_username = cu_username b, us_passwordHash = hash, us_role = role,
            us_cpuQuotaMilli = cu_cpuQuotaMilli b, us_memQuotaMB = cu_memQuotaMB b,
            us_diskQuotaMB = cu_diskQuotaMB b, us_createdAt = 0\<rparr>))) (\<lambda>user.
         writeJSON 201 user)))"

record quota_body =
  qb_cpuQuotaMilli :: int
  qb_memQuotaMB :: int
  qb_diskQuotaMB :: int

definition handleUpdateUserQuota :: "'e ext \<Rightarrow> goerr + quota_body \<Rightarrow> ('e, string) handler" where
  "handleUpdateUserQuota X body r =
     io_bind (id_param r) (\<lambda>i.
     io_bind (decoded body) (\<lambda>b.
     io_seq (or_status 500 (sql X (UpdateUserQuota i (qb_cpuQuotaMilli b) (qb_memQuotaMB b) (qb_diskQuotaMB b))))
       (writeJSON 200 ''updated'')))"

text \<open>
  The check that a demotion does not remove the last administrator: an error of either lookup
  skips it.
\<close>

definition demotes_last_admin :: "'e ext \<Rightarrow> int \<Rightarrow> ('e, bool) web" where
  "demotes_last_admin X i =
     io_bind (io_try (sql X (GetUserByID i))) (\<lambda>u. case u of
         Inl _ \<Rightarrow> io_ret False
       | Inr u \<Rightarrow>
           if us_role u = RoleAdmin
           then io_bind (io_try (sql X CountAdmins)) (\<lambda>n. io_ret (case n of Inl _ \<Rightarrow> False | Inr n \<Rightarrow> n \<le> 1))
           else io_ret False)"

definition handleSetUserRole :: "'e ext \<Rightarrow> goerr + string \<Rightarrow> ('e, string) handler" where
  "handleSetUserRole X body r =
     io_bind (id_param r) (\<lambda>i.
     io_bind (decoded body) (\<lambda>role.
       if role \<noteq> RoleAdmin \<and> role \<noteq> RoleMember then writeErr 400 (Err ''role must be admin or member'')
       else io_bind (if role = RoleMember then demotes_last_admin X i else io_ret False) (\<lambda>blocked.
         if blocked then writeErr 400 (Err ''cannot demote the last admin'')
         else io_seq (or_status 500 (sql X (SetUserRole i role))) (writeJSON 200 ''updated''))))"

definition handleResetPassword :: "'e ext \<Rightarrow> goerr + string \<Rightarrow> ('e, string) handler" where
  "handleResetPassword X body r =
     io_bind (id_param r) (\<lambda>i.
     io_bind (decoded body) (\<lambda>password.
       if length password < 6 then writeErr 400 (Err ''password must be at least 6 characters'')
       else io_bind (or_status 500 (HashPassword X password)) (\<lambda>hash.
         io_seq (or_status 500 (sql X (SetUserPassword i hash))) (writeJSON 200 ''updated''))))"

definition handleDeleteUser :: "'e ext \<Rightarrow> ('e, string) handler" where
  "handleDeleteUser X r =
     io_bind (id_param r) (\<lambda>i.
       if i = pr_userID (Current r) then writeErr 400 (Err ''cannot delete your own account'')
       else io_seq (or_status 500 (sql X (DeleteUser i))) (writeJSON 200 ''deleted''))"

section \<open>Resource requests\<close>

record request_body =
  rb_endpointID :: int
  rb_cpuMilli :: int
  rb_memMB :: int
  rb_diskMB :: int
  rb_note :: string

text \<open>A member may only ask for the local host or an environment that was granted.\<close>

definition request_allowed :: "'e ext \<Rightarrow> principal \<Rightarrow> int \<Rightarrow> ('e, unit) web" where
  "request_allowed X p env =
     (if env \<noteq> 0 \<and> \<not> IsAdmin p
      then io_bind (or_status 500 (sql X (UserHasEndpoint (pr_userID p) env))) (\<lambda>ok.
        if \<not> ok then writeErr 403 (Err ''you don't have access to that environment'') else io_ret ())
      else io_ret ())"

definition handleCreateRequest :: "'e ext \<Rightarrow> goerr + request_body \<Rightarrow> ('e, resource_request) handler" where
  "handleCreateRequest X body r =
     (let p = Current r in
      io_bind (decoded body) (\<lambda>b.
        if rb_cpuMilli b \<le> 0 \<and> rb_memMB b \<le> 0 \<and> rb_diskMB b \<le> 0
        then writeErr 400 (Err ''request at least one of CPU, memory, or storage'')
        else io_seq (request_allowed X p (rb_endpointID b))
         (io_bind (or_status 500 (sql X (CreateRequest
            \<lparr>rr_id = 0, rr_userID = pr_userID p, rr_username = pr_username p, rr_endpointID = rb_endpointID b,
             rr_cpuMilli = rb_cpuMilli b, rr_memMB = rb_memMB b, rr_diskMB = rb_diskMB b, rr_note = rb_note b,
             rr_status = '''', rr_reviewedBy = '''', rr_reviewNote = '''', rr_createdAt = 0,
             rr_reviewedAt = None\<rparr>))) (\<lambda>created. writeJSON 201 created))))"

definition handleListRequests :: "'e ext \<Rightarrow> ('e, resource_request list) handler" where
  "handleListRequests X r =
     (let p = Current r; forUser = (if IsAdmin p then 0 else pr_userID p) in
      io_bind (or_status 500 (sql X (ListRequests (rq_query r ''status'') forUser))) (\<lambda>l. writeJSON 200 l))"

record review_body =
  vb_approve :: bool
  vb_grantCPUMilli :: int
  vb_grantMemMB :: int
  vb_grantDiskMB :: int
  vb_note :: string

datatype review_reply = Rejected | Approved int int int

definition pick :: "int \<Rightarrow> int \<Rightarrow> int \<Rightarrow> int" where
  "pick override requested current =
     (if override > 0 then override else if requested > 0 then requested else current)"

text \<open>What the user has now on the environment of the request, zero when it cannot be read.\<close>

definition current_quota :: "'e ext \<Rightarrow> resource_request \<Rightarrow> ('e, int \<times> int \<times> int) web" where
  "current_quota X rr =
     (if rr_endpointID rr = 0
      then io_bind (io_try (sql X (GetUserByID (rr_userID rr)))) (\<lambda>u. io_ret (case u of
          Inl _ \<Rightarrow> (0, 0, 0) | Inr u \<Rightarrow> (us_cpuQuotaMilli u, us_memQuotaMB u, us_diskQuotaMB u)))
      else io_bind (io_try (sql X (GetUserEndpointQuota (rr_userID rr) (rr_endpointID rr)))) (\<lambda>g. io_ret (case g of
          Inr (Some q) \<Rightarrow> (eg_cpuQuotaMilli q, eg_memQuotaMB q, eg_diskQuotaMB q) | _ \<Rightarrow> (0, 0, 0))))"

definition write_grant :: "resource_request \<Rightarrow> int \<Rightarrow> int \<Rightarrow> int \<Rightarrow> unit stmt" where
  "write_grant rr cpu mem disk =
     (if rr_endpointID rr = 0 then UpdateUserQuota (rr_userID rr) cpu mem disk
      else GrantUserEndpointQuota (rr_userID rr) (rr_endpointID rr) cpu mem disk)"

definition handleReviewRequest :: "'e ext \<Rightarrow> goerr + review_body \<Rightarrow> ('e, review_reply) handler" where
  "handleReviewRequest X body r =
     io_bind (id_param r) (\<lambda>i.
     io_bind (decoded body) (\<lambda>b.
     io_bind (or_status 404 (sql X (GetRequest i))) (\<lambda>rr.
       let reviewer = pr_username (Current r) in
       if \<not> vb_approve b
       then io_seq (or_status 500 (sql X (ReviewRequest i StatusRejected reviewer (vb_note b)))) (writeJSON 200 Rejected)
       else io_bind (current_quota X rr) (\<lambda>(curCPU, curMem, curDisk).
         let cpu = pick (vb_grantCPUMilli b) (rr_cpuMilli rr) curCPU;
             mem = pick (vb_grantMemMB b) (rr_memMB rr) curMem;
             disk = pick (vb_grantDiskMB b) (rr_diskMB rr) curDisk in
         io_seq (or_status 500 (sql X (write_grant rr cpu mem disk)))
         (io_seq (or_status 500 (sql X (ReviewRequest i StatusApproved reviewer (vb_note b))))
           (writeJSON 200 (Approved cpu mem disk)))))))"

section \<open>Quota of a container edit\<close>

text \<open>The container that is being replaced is taken out of the usage, which is never negative.\<close>

definition without_container :: "'e ext \<Rightarrow> server \<Rightarrow> string \<Rightarrow> int \<times> int \<Rightarrow> ('e, int \<times> int) op" where
  "without_container X S excludeID used =
     (case used of (usedNano, usedMem) \<Rightarrow>
        if excludeID = '''' then io_ret (max 0 usedNano, max 0 usedMem)
        else io_bind (io_try (Inspect X (srv_local S) excludeID)) (\<lambda>info.
          case (case info of Inl _ \<Rightarrow> None | Inr k \<Rightarrow> in_host k) of
            None \<Rightarrow> io_ret (max 0 usedNano, max 0 usedMem)
          | Some h \<Rightarrow> io_ret (max 0 (i64 (usedNano - ho_nanoCPUs h)), max 0 (i64 (usedMem - ho_memory h)))))"

definition within_quota :: "int \<Rightarrow> int \<Rightarrow> int \<Rightarrow> int \<Rightarrow> int \<Rightarrow> int \<Rightarrow> bool" where
  "within_quota usedNano usedMem cpu mem quotaCPU quotaMem \<longleftrightarrow>
     i64 (go_div usedNano nanoPerMilliCPU + cpu) \<le> quotaCPU \<and> i64 (go_div usedMem bytesPerMB + mem) \<le> quotaMem"

definition resolveResources :: "'e ext \<Rightarrow> server \<Rightarrow> principal \<Rightarrow> string \<Rightarrow> int \<Rightarrow> int
    \<Rightarrow> ('e, string \<times> int \<times> int) op" where
  "resolveResources X S p excludeID reqCPUMilli reqMemMB =
     io_bind (sql X (GetUserByID (pr_userID p))) (\<lambda>user.
       let nanoCPUs = i64 (reqCPUMilli * nanoPerMilliCPU); memBytes = i64 (reqMemMB * bytesPerMB) in
       if us_role user = RoleAdmin then io_ret (us_username user, nanoCPUs, memBytes)
       else if us_cpuQuotaMilli user \<le> 0 \<or> us_memQuotaMB user \<le> 0
         then io_raise (Err ''no resource quota granted yet'')
       else if reqCPUMilli \<le> 0 \<or> reqMemMB \<le> 0
         then io_raise (Err ''cpu (millicores) and memory (MB) are required'')
       else io_bind (OwnerUsage X (srv_local S) (us_username user)) (\<lambda>used.
         io_bind (without_container X S excludeID used) (\<lambda>(usedNano, usedMem).
           if \<not> within_quota usedNano usedMem reqCPUMilli reqMemMB (us_cpuQuotaMilli user) (us_memQuotaMB user)
           then io_raise (Err ''exceeds quota'')
           else io_ret (us_username user, nanoCPUs, memBytes))))"

end
