(* ===== verification/ApiServices.thy ===== *)
theory ApiServices
  imports ApiUsers
begin

text \<open>
  \<^verbatim>\<open>internal/api/handlers_services.go\<close>: the handlers of the replica-managed services, the
  ownership check and the quota check they share, and the public webhook.  A build that the code
  starts in the background runs as an ordinary call whose outcome is ignored.
\<close>

section \<open>Requests and views\<close>

record service_body =
  sb_name :: string
  sb_image :: string
  sb_subdomain :: string
  sb_containerPort :: int
  sb_network :: string
  sb_env :: "string list"
  sb_cpuMilli :: int
  sb_memMB :: int
  sb_replicas :: int
  sb_minReplicas :: int
  sb_maxReplicas :: int
  sb_autoscale :: bool
  sb_targetCPUPct :: int
  sb_gitRepo :: string
  sb_gitBranch :: string
  sb_gitDockerfile :: string
  sb_advanced :: advanced_spec

record service_view =
  sw_service :: service
  sw_domains :: "string list"
  sw_advanced :: advanced_spec

definition serviceView :: "'e ext \<Rightarrow> server \<Rightarrow> service \<Rightarrow> ('e, service_view) web" where
  "serviceView X S svc =
     io_bind (io_try (ServiceDomains X S (sv_name svc) (sv_subdomain svc) (sv_endpointID svc))) (\<lambda>ds.
       io_ret \<lparr>sw_service = svc, sw_domains = (case ds of Inl _ \<Rightarrow> [] | Inr l \<Rightarrow> l),
         sw_advanced = (if sv_advanced svc \<noteq> '''' then x_advParse X (sv_advanced svc) else advanced_zero)\<rparr>)"

text \<open>The answer \<^verbatim>\<open>writeJSON (w, status, s.serviceView (r, svc))\<close>.\<close>

definition reply_view :: "'e ext \<Rightarrow> server \<Rightarrow> int \<Rightarrow> service \<Rightarrow> ('e, int \<times> service_view) web" where
  "reply_view X S status svc = io_bind (serviceView X S svc) (writeJSON status)"

definition clampMin :: "int \<Rightarrow> int \<Rightarrow> int" where
  "clampMin v lo = (if v < lo then lo else v)"

text \<open>The counts and the git settings that create and update fill in.\<close>

definition service_defaults :: "service_body \<Rightarrow> service_body" where
  "service_defaults b0 =
     (let n = clampMin (sb_replicas b0) 1;
          lo = clampMin (sb_minReplicas b0) 1;
          hi = clampMin (sb_maxReplicas b0) n
      in b0\<lparr>sb_replicas := n, sb_minReplicas := lo, sb_maxReplicas := (if hi < lo then lo else hi),
         sb_targetCPUPct := (if sb_targetCPUPct b0 \<le> 0 then 70 else sb_targetCPUPct b0),
         sb_gitBranch := (if sb_gitBranch b0 = '''' then ''main'' else sb_gitBranch b0),
         sb_gitDockerfile := (if sb_gitDockerfile b0 = '''' then ''Dockerfile'' else sb_gitDockerfile b0)\<rparr>)"

definition effReplicas :: "service_body \<Rightarrow> int" where
  "effReplicas b = (if sb_autoscale b \<and> sb_maxReplicas b > sb_replicas b then sb_maxReplicas b else sb_replicas b)"

text \<open>The stored form of a request; what it does not name is zero.\<close>

definition service_of :: "'e ext \<Rightarrow> service_body \<Rightarrow> service" where
  "service_of X b =
     \<lparr>sv_id = 0, sv_name = '''', sv_owner = '''', sv_image = sb_image b, sv_subdomain = sb_subdomain b,
      sv_containerPort = sb_containerPort b,
      sv_network = (if sb_network b = '''' then EdgeNetwork else sb_network b),
      sv_env = x_envJSON X (sb_env b), sv_cpuMilli = sb_cpuMilli b, sv_memMB = sb_memMB b,
      sv_replicas = sb_replicas b, sv_minReplicas = sb_minReplicas b, sv_maxReplicas = sb_maxReplicas b,
      sv_autoscale = sb_autoscale b, sv_targetCPUPct = sb_targetCPUPct b, sv_gitRepo = sb_gitRepo b,
      sv_gitBranch = sb_gitBranch b, sv_gitDockerfile = sb_gitDockerfile b, sv_webhookToken = '''',
      sv_lastImage = '''', sv_lastDeployAt = None, sv_advanced = x_advJSON X (sb_advanced b),
      sv_endpointID = 0, sv_createdAt = 0\<rparr>"

text \<open>\<^verbatim>\<open>newToken\<close>: an error of the random source is ignored, the buffer stays zero.\<close>

definition newToken :: "'e ext \<Rightarrow> ('e, string) web" where
  "newToken X = io_bind (io_try (ext (x_rand X 20))) (\<lambda>r.
     io_ret (hexEncode (case r of Inl _ \<Rightarrow> replicate 20 (char_of (0 :: nat)) | Inr bs \<Rightarrow> bs)))"

text \<open>\<^verbatim>\<open>^[a-z0-9]([a-z0-9-]*[a-z0-9])?$\<close>.\<close>

definition subdomainRe :: "string \<Rightarrow> bool" where
  "subdomainRe s = (case s of [] \<Rightarrow> False
     | c # cs \<Rightarrow> slug_char c \<and>
         (cs = [] \<or> list_all (\<lambda>d. slug_char d \<or> d = CHR ''-'') (butlast cs) \<and> slug_char (last cs)))"

section \<open>Ownership and quota\<close>

definition ownedService :: "'e ext \<Rightarrow> request \<Rightarrow> ('e, service) op" where
  "ownedService X r =
     io_bind (ServiceGet X (rq_param r ''name'')) (\<lambda>svc.
       let p = Current r in
       if \<not> IsAdmin p \<and> sv_owner svc \<noteq> pr_username p then io_raise ErrForbidden else io_ret svc)"

text \<open>\<^verbatim>\<open>writeErr (w, statusForOwnershipErr (err), err)\<close>.\<close>

definition owned :: "'e ext \<Rightarrow> request \<Rightarrow> ('e, service) web" where
  "owned X r = io_maperr (\<lambda>e. (statusForOwnershipErr e, e)) (ownedService X r)"

definition env_quota :: "'e ext \<Rightarrow> user \<Rightarrow> int \<Rightarrow> ('e, int \<times> int) op" where
  "env_quota X user env =
     (if env \<noteq> 0
      then io_bind (sql X (GetUserEndpointQuota (us_id user) env)) (\<lambda>g. case g of
          None \<Rightarrow> io_raise (Err ''no access to this environment'')
        | Some q \<Rightarrow> io_ret (eg_cpuQuotaMilli q, eg_memQuotaMB q))
      else io_ret (us_cpuQuotaMilli user, us_memQuotaMB user))"

definition enforceServiceQuota :: "'e ext \<Rightarrow> server \<Rightarrow> request \<Rightarrow> int \<Rightarrow> int \<Rightarrow> int \<Rightarrow> string
    \<Rightarrow> ('e, string) op" where
  "enforceServiceQuota X S r replicas cpuMilli memMB excludeService =
     io_bind (sql X (GetUserByID (pr_userID (Current r)))) (\<lambda>user.
       if us_role user = RoleAdmin then io_ret (us_username user)
       else io_bind (env_quota X user (endpointID r)) (\<lambda>(quotaCPU, quotaMem).
         if quotaCPU \<le> 0 \<or> quotaMem \<le> 0
         then io_raise (Err ''no resource quota granted yet on this environment'')
         else if cpuMilli \<le> 0 \<or> memMB \<le> 0
         then io_raise (Err ''cpu (millicores) and memory (MB) per replica are required'')
         else io_bind (clientFor X S r) (\<lambda>cli.
           io_bind (OwnerUsageExcludingService X cli (us_username user) excludeService) (\<lambda>(usedNano, usedMem).
             if \<not> within_quota usedNano usedMem (i64 (replicas * cpuMilli)) (i64 (replicas * memMB)) quotaCPU quotaMem
             then io_raise (Err ''exceeds quota'')
             else io_ret (us_username user)))))"

section \<open>Handlers\<close>

fun service_views :: "'e ext \<Rightarrow> server \<Rightarrow> int \<Rightarrow> service list \<Rightarrow> ('e, service_view list) web" where
  "service_views X S env [] = io_ret []"
| "service_views X S env (svc # svcs) =
     (if sv_endpointID svc = env
      then io_bind (serviceView X S svc) (\<lambda>v. io_bind (service_views X S env svcs) (\<lambda>vs. io_ret (v # vs)))
      else service_views X S env svcs)"

definition handleListServices :: "'e ext \<Rightarrow> server \<Rightarrow> ('e, service_view list) handler" where
  "handleListServices X S r =
     (let p = Current r; owner = (if \<not> IsAdmin p then pr_username p else '''') in
      io_bind (or_status 500 (ServiceList X owner)) (\<lambda>l.
      io_bind (service_views X S (endpointID r) l) (\<lambda>scoped. writeJSON 200 scoped)))"

definition handleSetServiceSubdomain :: "'e ext \<Rightarrow> server \<Rightarrow> goerr + string \<Rightarrow> ('e, service_view) handler" where
  "handleSetServiceSubdomain X S body r =
     io_bind (owned X r) (\<lambda>svc.
     io_bind (decoded body) (\<lambda>subdomain.
       let sub = toLower (trimSpace subdomain) in
       if sub \<noteq> '''' \<and> \<not> subdomainRe sub
       then writeErr 400 (Err ''subdomain must be a single DNS label (a-z, 0-9, hyphen)'')
       else io_seq (or_status 502 (SetSubdomain X S (sv_name svc) sub))
         (reply_view X S 200 (svc\<lparr>sv_subdomain := sub\<rparr>))))"

definition handleGetService :: "'e ext \<Rightarrow> server \<Rightarrow> ('e, service_view) handler" where
  "handleGetService X S r = io_bind (owned X r) (reply_view X S 200)"

definition handleCreateService :: "'e ext \<Rightarrow> server \<Rightarrow> goerr + service_body \<Rightarrow> ('e, service_view) handler" where
  "handleCreateService X S body r =
     io_bind (decoded body) (\<lambda>b0.
       if sb_name b0 = '''' \<or> sb_image b0 = '''' then writeErr 400 (Err ''name and image are required'')
       else let b = service_defaults b0 in
       io_bind (or_status 403 (enforceServiceQuota X S r (effReplicas b) (sb_cpuMilli b) (sb_memMB b) '''')) (\<lambda>owner.
       io_bind (newToken X) (\<lambda>token.
       io_bind (or_status 400 (ServiceCreate X S ((service_of X b)\<lparr>sv_name := sb_name b, sv_owner := owner,
           sv_webhookToken := token, sv_endpointID := endpointID r\<rparr>))) (\<lambda>svc.
         reply_view X S 201 svc))))"

definition handleUpdateService :: "'e ext \<Rightarrow> server \<Rightarrow> goerr + service_body \<Rightarrow> ('e, service_view) handler" where
  "handleUpdateService X S body r =
     io_bind (owned X r) (\<lambda>cur.
     io_bind (decoded body) (\<lambda>b0.
       if sb_image b0 = '''' then writeErr 400 (Err ''image is required'')
       else let b = service_defaults b0 in
       io_bind (or_status 403 (enforceServiceQuota X S r (effReplicas b) (sb_cpuMilli b) (sb_memMB b) (sv_name cur))) (\<lambda>_.
       io_bind (or_status 502 (ServiceUpdate X S (sv_name cur) (service_of X b))) (\<lambda>updated.
         reply_view X S 200 updated))))"

definition handleScaleService :: "'e ext \<Rightarrow> server \<Rightarrow> goerr + int \<Rightarrow> ('e, int) handler" where
  "handleScaleService X S body r =
     io_seq (owned X r)
     (io_bind (decoded body) (\<lambda>replicas.
       io_seq (or_status 502 (Scale X S (rq_param r ''name'') replicas)) (writeJSON 200 replicas)))"

definition handleRedeployService :: "'e ext \<Rightarrow> server \<Rightarrow> string \<Rightarrow> ('e, string) handler" where
  "handleRedeployService X S img r =
     io_bind (owned X r) (\<lambda>svc.
       if sv_gitRepo svc \<noteq> '''' \<and> img = ''''
       then io_seq (quiet (BuildAndRedeploy X S svc)) (writeJSON 202 ''building'')
       else io_seq (or_status 502 (Redeploy X S (sv_name svc) img)) (writeJSON 200 ''redeployed''))"

definition handleDeleteService :: "'e ext \<Rightarrow> server \<Rightarrow> ('e, string) handler" where
  "handleDeleteService X S r =
     io_seq (owned X r)
     (io_seq (or_status 502 (ServiceDelete X S (rq_param r ''name''))) (writeJSON 200 ''deleted''))"

definition handleWebhook :: "'e ext \<Rightarrow> server \<Rightarrow> ('e, string) handler" where
  "handleWebhook X S r =
     io_bind (io_maperr (\<lambda>_. (404, Err ''unknown webhook'')) (sql X (GetServiceByToken (rq_param r ''token'')))) (\<lambda>svc.
       io_seq (quiet (BuildAndRedeploy X S svc)) (writeJSON 202 (sv_name svc)))"

end
