(* ===== verification/ApiManage.thy ===== *)
theory ApiManage
  imports ApiServices
begin

text \<open>
  \<^verbatim>\<open>internal/api/handlers_manage.go\<close>: login, editing and updating a container, images,
  networks, volumes with their storage quota, and registries.
\<close>

section \<open>Login\<close>

record login_body =
  lb_username :: string
  lb_password :: string

definition handleLogin :: "'e ext \<Rightarrow> server \<Rightarrow> goerr + login_body \<Rightarrow> ('e, string \<times> string \<times> string) handler" where
  "handleLogin X S body r =
     io_bind (decoded body) (\<lambda>b.
     io_bind (or_status 401 (Login X S (lb_username b) (lb_password b))) (\<lambda>(token, user).
       writeJSON 200 (token, us_username user, us_role user)))"

section \<open>Containers\<close>

record deploy_body =
  dr_name :: string
  dr_image :: string
  dr_env :: "string list"
  dr_subdomain :: string
  dr_containerPort :: int
  dr_publish :: "(string \<times> string) list"
  dr_network :: string
  dr_cpuMilli :: int
  dr_memMB :: int

definition deploy_of :: "deploy_body \<Rightarrow> string \<Rightarrow> string \<Rightarrow> int \<Rightarrow> int \<Rightarrow> deploy_spec" where
  "deploy_of b regAuth owner nanoCPUs memBytes =
     \<lparr>ds_name = dr_name b, ds_image = dr_image b, ds_env = dr_env b, ds_subdomain = dr_subdomain b,
      ds_containerPort = dr_containerPort b, ds_publish = dr_publish b, ds_network = dr_network b,
      ds_registryAuth = regAuth, ds_owner = owner, ds_nanoCPUs = nanoCPUs, ds_memoryBytes = memBytes,
      ds_extraLabels = [], ds_advanced = advanced_zero\<rparr>"

definition old_subdomain :: "'e ext \<Rightarrow> client \<Rightarrow> string \<Rightarrow> ('e, string) web" where
  "old_subdomain X cli i =
     io_bind (io_try (Inspect X cli i)) (\<lambda>info. io_ret (case info of
         Inl _ \<Rightarrow> '''' | Inr k \<Rightarrow> config_label k LabelSubdomain))"

text \<open>The route of an edited container, on the local host only.\<close>

definition edit_route :: "'e ext \<Rightarrow> server \<Rightarrow> string \<Rightarrow> string \<Rightarrow> deploy_body \<Rightarrow> ('e, unit) web" where
  "edit_route X S oldSubdomain newID b =
     io_seq (if oldSubdomain \<noteq> '''' \<and> oldSubdomain \<noteq> dr_subdomain b
             then quiet (RouteDelete X S (Some (Upstreams X)) oldSubdomain) else io_ret ())
       (if dr_subdomain b \<noteq> '''' \<and> dr_containerPort b > 0
        then quiet (Upsert X S (Some (Upstreams X))
          \<lparr>rt_id = 0, rt_subdomain = dr_subdomain b, rt_containerID = newID, rt_targetHost = dr_name b,
           rt_targetPort = dr_containerPort b, rt_endpointID = 0, rt_createdAt = 0\<rparr>)
        else io_ret ())"

definition handleEditContainer :: "'e ext \<Rightarrow> server \<Rightarrow> goerr + deploy_body \<Rightarrow> ('e, string) handler" where
  "handleEditContainer X S body r =
     io_bind (decoded body) (\<lambda>b.
       let i = rq_param r ''id'' in
       io_bind (or_status 502 (clientFor X S r)) (\<lambda>cli.
       io_bind (old_subdomain X cli i) (\<lambda>oldSubdomain.
       io_bind (or_status 403 (resolveResources X S (Current r) i (dr_cpuMilli b) (dr_memMB b))) (\<lambda>(owner, nanoCPUs, memBytes).
       io_bind (or_status 502 (auth_or_none X S (dr_image b))) (\<lambda>regAuth.
       io_bind (or_status 502 (EditContainer X cli i (deploy_of b regAuth owner nanoCPUs memBytes))) (\<lambda>newID.
         io_seq (if endpointID r = 0 then edit_route X S oldSubdomain newID b else io_ret ())
           (writeJSON 200 newID)))))))"

definition current_image :: "'e ext \<Rightarrow> client \<Rightarrow> string \<Rightarrow> ('e, string) web" where
  "current_image X cli i =
     io_bind (io_try (Inspect X cli i)) (\<lambda>info. io_ret (case info of
         Inl _ \<Rightarrow> '''' | Inr k \<Rightarrow> (case in_config k of None \<Rightarrow> '''' | Some cfg \<Rightarrow> cc_image cfg)))"

definition handleUpdateContainer :: "'e ext \<Rightarrow> server \<Rightarrow> string \<Rightarrow> ('e, string) handler" where
  "handleUpdateContainer X S newImage r =
     io_bind (or_status 502 (clientFor X S r)) (\<lambda>cli.
       let i = rq_param r ''id'' in
       io_bind (if newImage = '''' then current_image X cli i else io_ret newImage) (\<lambda>img.
       io_bind (or_status 502 (auth_or_none X S img)) (\<lambda>regAuth.
       io_bind (or_status 502 (Recreate X cli i newImage regAuth)) (\<lambda>newID. writeJSON 200 newID))))"

definition handleRemoveImage :: "'e ext \<Rightarrow> server \<Rightarrow> ('e, string) handler" where
  "handleRemoveImage X S r =
     io_bind (dockerOr502 X S r) (\<lambda>cli.
     io_seq (or_status 502 (RemoveImage X cli (rq_param r ''id'') (rq_query r ''force'' = ''true'')))
       (writeJSON 200 ''removed''))"

section \<open>Networks\<close>

text \<open>The creator owns the network, unless the creator is an administrator.\<close>

definition network_labels :: "request \<Rightarrow> (string \<rightharpoonup> string)" where
  "network_labels r =
     (let labels = [LabelManaged \<mapsto> ''true''] in
      if ownerScope r \<noteq> '''' then labels(LabelOwner \<mapsto> ownerScope r) else labels)"

definition handleCreateNetwork :: "'e ext \<Rightarrow> server \<Rightarrow> goerr + (string \<times> string) \<Rightarrow> ('e, string) handler" where
  "handleCreateNetwork X S body r =
     io_bind (dockerOr502 X S r) (\<lambda>cli.
     io_bind (decoded body) (\<lambda>(name, driver).
     io_bind (or_status 502 (CreateNetwork X cli name driver (network_labels r))) (\<lambda>i. writeJSON 201 i)))"

definition handleInspectNetwork :: "'e ext \<Rightarrow> server \<Rightarrow> ('e, network) handler" where
  "handleInspectNetwork X S r =
     io_bind (dockerOr502 X S r) (\<lambda>cli.
     io_bind (or_status 502 (InspectNetwork X cli (rq_param r ''id''))) (\<lambda>info. writeJSON 200 info))"

definition handleRemoveNetwork :: "'e ext \<Rightarrow> server \<Rightarrow> ('e, string) handler" where
  "handleRemoveNetwork X S r =
     io_bind (dockerOr502 X S r) (\<lambda>cli.
     io_seq (or_status 502 (RemoveNetwork X cli (rq_param r ''id''))) (writeJSON 200 ''removed''))"

definition handleConnectNetwork :: "'e ext \<Rightarrow> server \<Rightarrow> goerr + string \<Rightarrow> ('e, string) handler" where
  "handleConnectNetwork X S body r =
     io_bind (dockerOr502 X S r) (\<lambda>cli.
     io_bind (decoded body) (\<lambda>containerID.
     io_seq (or_status 502 (ConnectNetwork X cli (rq_param r ''id'') containerID)) (writeJSON 200 ''connected'')))"

definition handleDisconnectNetwork :: "'e ext \<Rightarrow> server \<Rightarrow> goerr + string \<Rightarrow> ('e, string) handler" where
  "handleDisconnectNetwork X S body r =
     io_bind (dockerOr502 X S r) (\<lambda>cli.
     io_bind (decoded body) (\<lambda>containerID.
     io_seq (or_status 502 (DisconnectNetwork X cli (rq_param r ''id'') containerID)) (writeJSON 200 ''disconnected'')))"

section \<open>Volumes\<close>

definition disk_quota :: "'e ext \<Rightarrow> user \<Rightarrow> int \<Rightarrow> ('e, int) op" where
  "disk_quota X user env =
     (if env \<noteq> 0
      then io_bind (sql X (GetUserEndpointQuota (us_id user) env)) (\<lambda>g. case g of
          None \<Rightarrow> io_raise (Err ''no access to this environment'') | Some q \<Rightarrow> io_ret (eg_diskQuotaMB q))
      else io_ret (us_diskQuotaMB user))"

definition enforceVolumeQuota :: "'e ext \<Rightarrow> request \<Rightarrow> int \<Rightarrow> string \<Rightarrow> ('e, string) op" where
  "enforceVolumeQuota X r sizeMB excludeName =
     (let p = Current r; env = endpointID r in
      if IsAdmin p then io_ret (pr_username p)
      else io_bind (sql X (GetUserByID (pr_userID p))) (\<lambda>user.
        io_bind (disk_quota X user env) (\<lambda>quota.
          if quota \<le> 0 then io_raise (Err ''no storage quota granted yet on this environment'')
          else if sizeMB \<le> 0 then io_raise (Err ''volume size (MB) is required'')
          else io_bind (sql X (OwnerDiskUsageMB env (us_username user) excludeName)) (\<lambda>used.
            if i64 (used + sizeMB) > quota then io_raise (Err ''exceeds storage quota'')
            else io_ret (us_username user)))))"

record volume_body =
  wb_name :: string
  wb_driver :: string
  wb_labels :: "string \<rightharpoonup> string"
  wb_sizeMB :: int

definition handleCreateVolume :: "'e ext \<Rightarrow> server \<Rightarrow> goerr + volume_body \<Rightarrow> ('e, volume) handler" where
  "handleCreateVolume X S body r =
     io_bind (dockerOr502 X S r) (\<lambda>cli.
     io_bind (decoded body) (\<lambda>b.
       let owner = ownerScope r in
       io_seq (if owner \<noteq> '''' then io_seq (or_status 403 (enforceVolumeQuota X r (wb_sizeMB b) '''')) (io_ret ()) else io_ret ())
       (io_bind (or_status 502 (CreateVolume X cli (wb_name b) (wb_driver b)
           (if owner \<noteq> '''' then (wb_labels b)(LabelOwner \<mapsto> owner) else wb_labels b))) (\<lambda>v.
         io_seq (or_status 500 (sql X (SetVolumeSize (endpointID r) (vo_name v) owner (wb_sizeMB b))))
           (writeJSON 201 v)))))"

definition handleResizeVolume :: "'e ext \<Rightarrow> goerr + int \<Rightarrow> ('e, int) handler" where
  "handleResizeVolume X body r =
     (let name = rq_param r ''name''; owner = ownerScope r in
      io_bind (decoded body) (\<lambda>sizeMB.
        io_seq (if owner \<noteq> '''' then io_seq (or_status 403 (enforceVolumeQuota X r sizeMB name)) (io_ret ()) else io_ret ())
        (io_seq (or_status 500 (sql X (SetVolumeSize (endpointID r) name owner sizeMB)))
          (writeJSON 200 sizeMB))))"

definition handleInspectVolume :: "'e ext \<Rightarrow> server \<Rightarrow> ('e, volume) handler" where
  "handleInspectVolume X S r =
     io_bind (dockerOr502 X S r) (\<lambda>cli.
     io_bind (or_status 502 (InspectVolume X cli (rq_param r ''name''))) (\<lambda>v. writeJSON 200 v))"

definition handleRemoveVolume :: "'e ext \<Rightarrow> server \<Rightarrow> ('e, string) handler" where
  "handleRemoveVolume X S r =
     io_bind (dockerOr502 X S r) (\<lambda>cli.
       let name = rq_param r ''name'' in
       io_seq (or_status 502 (RemoveVolume X cli name (rq_query r ''force'' = ''true'')))
       (io_seq (quiet (sql X (DeleteVolumeSize (endpointID r) name))) (writeJSON 200 ''removed'')))"

definition handleBrowseVolume :: "'e ext \<Rightarrow> server \<Rightarrow> ('e, vol_file list) handler" where
  "handleBrowseVolume X S r =
     io_bind (dockerOr502 X S r) (\<lambda>cli.
     io_bind (or_status 502 (BrowseVolume X cli (rq_param r ''name'') (rq_query r ''path''))) (\<lambda>files.
       writeJSON 200 files))"

definition handleMkdirVolume :: "'e ext \<Rightarrow> server \<Rightarrow> goerr + string \<Rightarrow> ('e, string) handler" where
  "handleMkdirVolume X S body r =
     io_bind (dockerOr502 X S r) (\<lambda>cli.
     io_bind (decoded body) (\<lambda>path.
     io_seq (or_status 502 (MkdirVolume X cli (rq_param r ''name'') path)) (writeJSON 200 ''created'')))"

definition handleDeleteVolumeFile :: "'e ext \<Rightarrow> server \<Rightarrow> ('e, string) handler" where
  "handleDeleteVolumeFile X S r =
     io_bind (dockerOr502 X S r) (\<lambda>cli.
     io_seq (or_status 502 (DeleteInVolume X cli (rq_param r ''name'') (rq_query r ''path''))) (writeJSON 200 ''deleted''))"

text \<open>
  The form file: an error of the form parser, a missing field, or the file's name, what reading
  it gives, and its size.
\<close>

definition handleUploadVolume :: "'e ext \<Rightarrow> server \<Rightarrow> goerr + (string \<times> (goerr + string) \<times> int) option
    \<Rightarrow> ('e, string) handler" where
  "handleUploadVolume X S form r =
     io_bind (dockerOr502 X S r) (\<lambda>cli.
     io_bind (decoded form) (\<lambda>file. case file of
         None \<Rightarrow> writeErr 400 (Err ''missing 'file' field'')
       | Some (filename, content, size_n) \<Rightarrow>
           io_seq (or_status 502 (UploadToVolume X cli (rq_param r ''name'') (rq_query r ''path'') filename content size_n))
             (writeJSON 200 filename)))"

definition handleDownloadVolume :: "'e ext \<Rightarrow> server \<Rightarrow> ('e, vol_download) handler" where
  "handleDownloadVolume X S r =
     io_bind (dockerOr502 X S r) (\<lambda>cli.
     io_bind (or_status 502 (DownloadFromVolume X cli (rq_param r ''name'') (rq_query r ''path''))) (\<lambda>dl.
       writeJSON 200 dl))"

section \<open>Registries\<close>

definition handleListRegistries :: "'e ext \<Rightarrow> ('e, registry list) handler" where
  "handleListRegistries X r = io_bind (or_status 500 (RegistryList X (ownerScope r))) (\<lambda>l. writeJSON 200 l)"

record registry_body =
  gb_name :: string
  gb_url :: string
  gb_username :: string
  gb_password :: string

definition handleCreateRegistry :: "'e ext \<Rightarrow> server \<Rightarrow> goerr + registry_body \<Rightarrow> ('e, registry) handler" where
  "handleCreateRegistry X S body r =
     io_bind (decoded body) (\<lambda>b.
     io_bind (or_status 400 (RegistryCreate X S (gb_name b) (gb_url b) (gb_username b) (gb_password b) (ownerScope r))) (\<lambda>reg.
       writeJSON 201 reg))"

definition handleTestRegistry :: "'e ext \<Rightarrow> goerr + registry_body \<Rightarrow> ('e, string) handler" where
  "handleTestRegistry X body r =
     io_bind (decoded body) (\<lambda>b.
     io_seq (or_status 502 (TestLogin X (gb_url b) (gb_username b) (gb_password b))) (writeJSON 200 ''ok''))"

definition handleDeleteRegistry :: "'e ext \<Rightarrow> ('e, string) handler" where
  "handleDeleteRegistry X r =
     io_bind (id_param r) (\<lambda>i. io_seq (or_status 500 (RegistryDelete X i)) (writeJSON 200 ''deleted''))"

definition handleRegistryCatalog :: "'e ext \<Rightarrow> server \<Rightarrow> ('e, string list) handler" where
  "handleRegistryCatalog X S r =
     io_bind (id_param r) (\<lambda>i. io_bind (or_status 502 (Catalog X S i)) (\<lambda>repos. writeJSON 200 repos))"

definition handleRegistryTags :: "'e ext \<Rightarrow> server \<Rightarrow> ('e, string list) handler" where
  "handleRegistryTags X S r =
     io_bind (id_param r) (\<lambda>i.
       let repo = rq_query r ''repo'' in
       if repo = '''' then writeErr 400 errNotFound
       else io_bind (or_status 502 (Tags X S i repo)) (\<lambda>tags. writeJSON 200 tags))"

end
