(* ===== verification/Tunnel.thy ===== *)
theory Tunnel
  imports Http
begin

text \<open>
  \<^verbatim>\<open>internal/tunnel/tunnel.go\<close>: the public address of the host, and the SSH reverse tunnels.
  The first part has the operations as they run alone; the second interleaves several calls of
  \<^verbatim>\<open>Start\<close> and \<^verbatim>\<open>Stop\<close> in a step relation, because \<^verbatim>\<open>Start\<close> checks the table of
  running tunnels and writes it in two separate critical sections.
\<close>

section \<open>The public address\<close>

definition ip_services :: "string list" where
  "ip_services = [''http://api.ipify.org'', ''http://icanhazip.com'', ''http://ifconfig.me/ip'',
     ''https://icanhazip.com'', ''https://ipinfo.io/ip'']"

definition fetchIP :: "'e ext \<Rightarrow> string \<Rightarrow> ('e, string) op" where
  "fetchIP X url =
     (case x_newRequest X url of
        Some e \<Rightarrow> io_raise e
      | None \<Rightarrow> io_bind (ext (x_httpGet X url None)) (\<lambda>resp.
          let ip = trimSpace (take 128 (hr_body resp)) in
          if \<not> x_parseIP X ip then io_raise (Err (url @ '' returned non-IP response: '' @ go_quote ip))
          else io_ret ip))"

fun ip_loop :: "'e ext \<Rightarrow> string list \<Rightarrow> goerr option \<Rightarrow> ('e, string) op" where
  "ip_loop X [] lastErr =
     io_raise (Wrap ''all public IP services failed; last error''
       (case lastErr of None \<Rightarrow> Err ''no public IP service configured'' | Some e \<Rightarrow> e))"
| "ip_loop X (url # urls) lastErr =
     (if url = '''' then ip_loop X urls lastErr
      else io_bind (io_try (fetchIP X url)) (\<lambda>r. case r of
          Inl err \<Rightarrow> ip_loop X urls (Some err)
        | Inr ip \<Rightarrow> io_ret ip))"

definition PublicIP :: "'e ext \<Rightarrow> string \<Rightarrow> ('e, string) op" where
  "PublicIP X srv = ip_loop X (srv # ip_services) None"

section \<open>The tunnels\<close>

text \<open>\<^verbatim>\<open>NewManager\<close>: the key path, or the one in the environment.\<close>

definition NewTunnels :: "(string \<rightharpoonup> string) \<Rightarrow> string \<Rightarrow> string" where
  "NewTunnels getenv keyPath = (if keyPath = '''' then mget getenv ''EASYDEPLOY_SSH_KEY'' else keyPath)"

definition loadSigner :: "'e ext \<Rightarrow> server \<Rightarrow> ('e, string) op" where
  "loadSigner X S =
     (if srv_sshKeyPath S = '''' then io_raise (Err ''no SSH key configured (set EASYDEPLOY_SSH_KEY)'')
      else io_bind (io_maperr (Wrap ''read ssh key'') (ext (x_readFile X (srv_sshKeyPath S)))) (\<lambda>key.
        io_maperr (Wrap ''parse ssh key'') (io_of_sum (x_parseKey X key))))"

definition remote_bind :: "tunnel \<Rightarrow> string" where
  "remote_bind t = ''0.0.0.0:'' @ goItoa (tn_remotePort t)"

text \<open>The connection and its remote listener; on failure the connection is closed.\<close>

definition open_tunnel :: "'e ext \<Rightarrow> tunnel \<Rightarrow> string \<Rightarrow> ('e, int) op" where
  "open_tunnel X t signer =
     (let addr = tn_sshHost t @ '':'' @ goItoa (tn_sshPort t) in
      io_bind (io_maperr (Wrap (''ssh dial '' @ addr)) (ext (x_sshDial X addr (tn_sshUser t) signer))) (\<lambda>conn.
      io_bind (io_try (ext (x_sshListen X conn (remote_bind t)))) (\<lambda>r. case r of
          Inl err \<Rightarrow> io_seq (quiet (ext (x_sshClose X conn))) (io_raise (Wrap (''remote listen '' @ remote_bind t) err))
        | Inr _ \<Rightarrow> io_ret conn)))"

definition TunnelStart :: "'e ext \<Rightarrow> server \<Rightarrow> tunnel \<Rightarrow> ('e, unit) op" where
  "TunnelStart X S t =
     (if tn_kind t \<noteq> TunnelSSH then io_raise (Err (''only ssh tunnels can be started (got '' @ go_quote (tn_kind t) @ '')''))
      else io_bind (io_gets (\<lambda>w. w_running w (tn_id t))) (\<lambda>run.
        if run \<noteq> None then io_raise (Err (''tunnel '' @ goItoa (tn_id t) @ '' already running''))
        else io_bind (loadSigner X S) (\<lambda>signer.
          io_bind (open_tunnel X t signer) (\<lambda>conn.
            io_modify (\<lambda>w. w\<lparr>w_running := (w_running w)(tn_id t \<mapsto> conn)\<rparr>)))))"

text \<open>Cancelling the tunnel's context makes its goroutine close the listener and the connection.\<close>

definition TunnelStop :: "'e ext \<Rightarrow> int \<Rightarrow> ('e, unit) op" where
  "TunnelStop X i =
     io_bind (io_gets (\<lambda>w. w_running w i)) (\<lambda>run. case run of
         None \<Rightarrow> io_ret ()
       | Some conn \<Rightarrow> io_seq (quiet (ext (x_sshClose X conn)))
           (io_modify (\<lambda>w. w\<lparr>w_running := (w_running w)(i := None)\<rparr>)))"

definition IsRunning :: "int \<Rightarrow> ('e, bool) op" where
  "IsRunning i = io_gets (\<lambda>w. w_running w i \<noteq> None)"

section \<open>Interleaved calls\<close>

text \<open>
  A call of \<^verbatim>\<open>Start\<close> has passed its check, or has its connection too.  \<^verbatim>\<open>ts_open\<close> are the
  connections that serve a tunnel; \<^verbatim>\<open>excl\<close> says that callers never start a tunnel while
  another start of it is under way.
\<close>

datatype phase = Checked int | Dialed int nat

record tunnels =
  ts_running :: "int \<rightharpoonup> nat"
  ts_open :: "nat set"
  ts_calls :: "nat \<rightharpoonup> phase"
  ts_fresh :: nat

fun phase_tunnel :: "phase \<Rightarrow> int" where
  "phase_tunnel (Checked i) = i"
| "phase_tunnel (Dialed i n) = i"

definition starting :: "tunnels \<Rightarrow> int \<Rightarrow> bool" where
  "starting s i \<longleftrightarrow> (\<exists>c p. ts_calls s c = Some p \<and> phase_tunnel p = i)"

inductive tstep :: "bool \<Rightarrow> tunnels \<Rightarrow> tunnels \<Rightarrow> bool" for excl where
  check: "ts_running s i = None \<Longrightarrow> ts_calls s c = None \<Longrightarrow> \<not> (excl \<and> starting s i) \<Longrightarrow>
    tstep excl s (s\<lparr>ts_calls := (ts_calls s)(c \<mapsto> Checked i)\<rparr>)"
| give_up: "ts_calls s c = Some (Checked i) \<Longrightarrow> tstep excl s (s\<lparr>ts_calls := (ts_calls s)(c := None)\<rparr>)"
| dial: "ts_calls s c = Some (Checked i) \<Longrightarrow>
    tstep excl s (s\<lparr>ts_calls := (ts_calls s)(c \<mapsto> Dialed i (ts_fresh s)),
      ts_open := insert (ts_fresh s) (ts_open s), ts_fresh := Suc (ts_fresh s)\<rparr>)"
| register: "ts_calls s c = Some (Dialed i n) \<Longrightarrow>
    tstep excl s (s\<lparr>ts_calls := (ts_calls s)(c := None), ts_running := (ts_running s)(i \<mapsto> n)\<rparr>)"
| stop: "ts_running s i = Some n \<Longrightarrow>
    tstep excl s (s\<lparr>ts_running := (ts_running s)(i := None), ts_open := ts_open s - {n}\<rparr>)"

inductive_cases tstepE [elim]: "tstep excl s t"

definition tunnels_start :: tunnels where
  "tunnels_start = \<lparr>ts_running = Map.empty, ts_open = {}, ts_calls = Map.empty, ts_fresh = 0\<rparr>"

text \<open>Who holds a connection: the table's entry of a tunnel, or a call that has not registered it.\<close>

fun holder :: "tunnels \<Rightarrow> int + nat \<Rightarrow> nat option" where
  "holder s (Inl i) = ts_running s i"
| "holder s (Inr c) = (case ts_calls s c of Some (Dialed i n) \<Rightarrow> Some n | _ \<Rightarrow> None)"

text \<open>A connection nobody can stop any more.\<close>

definition orphans :: "tunnels \<Rightarrow> nat set" where
  "orphans s = ts_open s - ran (holder s)"

text \<open>What is held is open, is held once, and connections are fresh.\<close>

definition tunnels_inv :: "tunnels \<Rightarrow> bool" where
  "tunnels_inv s \<longleftrightarrow> ran (holder s) \<subseteq> ts_open s \<and> (\<forall>n \<in> ts_open s. n < ts_fresh s) \<and>
     (\<forall>x y n. holder s x = Some n \<longrightarrow> holder s y = Some n \<longrightarrow> x = y)"

text \<open>No call is under way for a running tunnel, nor two for one tunnel.\<close>

definition single_starts :: "tunnels \<Rightarrow> bool" where
  "single_starts s \<longleftrightarrow>
     (\<forall>c p. ts_calls s c = Some p \<longrightarrow> ts_running s (phase_tunnel p) = None) \<and>
     (\<forall>c d p q. ts_calls s c = Some p \<longrightarrow> ts_calls s d = Some q \<longrightarrow> phase_tunnel p = phase_tunnel q \<longrightarrow> c = d)"

lemma holder_check:
  "ts_calls s c = None \<Longrightarrow> holder (s\<lparr>ts_calls := (ts_calls s)(c \<mapsto> Checked i)\<rparr>) = holder s"
proof
  fix h
  assume "ts_calls s c = None"
  then show "holder (s\<lparr>ts_calls := (ts_calls s)(c \<mapsto> Checked i)\<rparr>) h = holder s h" by (cases h) auto
qed

lemma holder_give_up:
  "ts_calls s c = Some (Checked i) \<Longrightarrow> holder (s\<lparr>ts_calls := (ts_calls s)(c := None)\<rparr>) = holder s"
proof
  fix h
  assume "ts_calls s c = Some (Checked i)"
  then show "holder (s\<lparr>ts_calls := (ts_calls s)(c := None)\<rparr>) h = holder s h" by (cases h) auto
qed

lemma holder_dial:
  "holder (s\<lparr>ts_calls := (ts_calls s)(c \<mapsto> Dialed i n), ts_open := A, ts_fresh := k\<rparr>) = (holder s)(Inr c \<mapsto> n)"
proof
  fix h
  show "holder (s\<lparr>ts_calls := (ts_calls s)(c \<mapsto> Dialed i n), ts_open := A, ts_fresh := k\<rparr>) h =
    ((holder s)(Inr c \<mapsto> n)) h" by (cases h) auto
qed

lemma holder_register:
  "holder (s\<lparr>ts_calls := (ts_calls s)(c := None), ts_running := (ts_running s)(i \<mapsto> n)\<rparr>) =
   (holder s)(Inr c := None, Inl i \<mapsto> n)"
proof
  fix h
  show "holder (s\<lparr>ts_calls := (ts_calls s)(c := None), ts_running := (ts_running s)(i \<mapsto> n)\<rparr>) h =
    ((holder s)(Inr c := None, Inl i \<mapsto> n)) h" by (cases h) auto
qed

lemma holder_stop:
  "holder (s\<lparr>ts_running := (ts_running s)(i := None), ts_open := A\<rparr>) = (holder s)(Inl i := None)"
proof
  fix h
  show "holder (s\<lparr>ts_running := (ts_running s)(i := None), ts_open := A\<rparr>) h = ((holder s)(Inl i := None)) h"
    by (cases h) auto
qed

lemmas holder_steps = holder_check holder_give_up holder_dial holder_register holder_stop

text \<open>The changes on the map of holders alone.\<close>

definition held_once :: "(int + nat \<rightharpoonup> nat) \<Rightarrow> nat set \<Rightarrow> bool" where
  "held_once m A \<longleftrightarrow> ran m \<subseteq> A \<and> (\<forall>x y n. m x = Some n \<longrightarrow> m y = Some n \<longrightarrow> x = y)"

lemma owned_new:
  assumes "held_once m A" "k \<notin> A"
  shows "held_once (m(x \<mapsto> k)) (insert k A)"
proof -
  from assms have "m y \<noteq> Some k" for y by (auto simp: held_once_def dest: ranI)
  with assms(1) show ?thesis by (auto simp: held_once_def ran_def)
qed

lemma owned_move:
  assumes "held_once m A" "m x = Some n"
  shows "held_once (m(x := None, y \<mapsto> n)) A"
proof -
  from assms have "m z \<noteq> Some n" if "z \<noteq> x" for z using that by (auto simp: held_once_def)
  with assms show ?thesis by (auto simp: held_once_def ran_def)
qed

lemma owned_drop:
  assumes "held_once m A" "m x = Some n"
  shows "held_once (m(x := None)) (A - {n})" "ran (m(x := None)) = ran m - {n}"
proof -
  from assms have n: "m z \<noteq> Some n" if "z \<noteq> x" for z using that by (auto simp: held_once_def)
  with assms show "held_once (m(x := None)) (A - {n})" by (auto simp: held_once_def ran_def)
  from n assms(2) show "ran (m(x := None)) = ran m - {n}"
    by (auto simp: ran_def split: if_splits) (metis option.inject)
qed

lemma ran_move:
  assumes "m x = Some n" "m y = None"
  shows "ran (m(x := None, y \<mapsto> n)) = ran m"
proof (intro set_eqI iffI)
  fix v
  assume "v \<in> ran (m(x := None, y \<mapsto> n))"
  with assms show "v \<in> ran m" by (auto simp: ran_def split: if_splits)
next
  fix v
  assume "v \<in> ran m"
  then obtain a where a: "m a = Some v" by (auto simp: ran_def)
  with assms have "(m(x := None, y \<mapsto> n)) (if a = x then y else a) = Some v" by auto
  then show "v \<in> ran (m(x := None, y \<mapsto> n))" by (rule ranI)
qed

lemma tunnels_inv_iff: "tunnels_inv s \<longleftrightarrow> held_once (holder s) (ts_open s) \<and> (\<forall>n \<in> ts_open s. n < ts_fresh s)"
  unfolding tunnels_inv_def held_once_def by blast

lemma tunnels_inv_step: "tstep excl s t \<Longrightarrow> tunnels_inv s \<Longrightarrow> tunnels_inv t"
proof (induction rule: tstep.induct)
  case (dial s c i)
  then have "ts_fresh s \<notin> ts_open s" by (auto simp: tunnels_inv_def)
  with dial show ?case by (auto simp: tunnels_inv_iff holder_steps owned_new less_Suc_eq)
next
  case (register s c i n)
  then have "holder s (Inr c) = Some n" by simp
  with register show ?case by (simp add: tunnels_inv_iff holder_steps owned_move)
next
  case (stop s i n)
  then have "holder s (Inl i) = Some n" by simp
  with stop show ?case by (simp add: tunnels_inv_iff holder_steps owned_drop)
qed (simp_all add: tunnels_inv_iff holder_steps)

lemma single_starts_step: "tstep True s t \<Longrightarrow> single_starts s \<Longrightarrow> single_starts t"
proof (induction rule: tstep.induct)
  case (check s i c)
  then have "phase_tunnel p \<noteq> i" if "ts_calls s d = Some p" for d p
    using that by (auto simp: starting_def)
  with check show ?case by (auto simp: single_starts_def)
next
  case (dial s c i)
  then have "ts_running s i = None" "\<And>d p. ts_calls s d = Some p \<Longrightarrow> phase_tunnel p = i \<Longrightarrow> d = c"
    by (force simp: single_starts_def)+
  with dial show ?case by (auto simp: single_starts_def)
next
  case (register s c i n)
  then have "\<And>d p. ts_calls s d = Some p \<Longrightarrow> phase_tunnel p = i \<Longrightarrow> d = c"
    by (force simp: single_starts_def)
  with register show ?case by (auto simp: single_starts_def)
qed (auto simp: single_starts_def)

lemma no_orphans_step:
  "tstep excl s t \<Longrightarrow> tunnels_inv s \<Longrightarrow> single_starts s \<Longrightarrow> orphans s = {} \<Longrightarrow> orphans t = {}"
proof (induction rule: tstep.induct)
  case (register s c i n)
  then have "ts_running s (phase_tunnel (Dialed i n)) = None" unfolding single_starts_def by blast
  moreover have "holder s (Inr c) = Some n" using register by simp
  ultimately have "ran ((holder s)(Inr c := None, Inl i \<mapsto> n)) = ran (holder s)" by (intro ran_move) simp_all
  with register show ?case unfolding orphans_def holder_register by simp
next
  case (stop s i n)
  then have "holder s (Inl i) = Some n" by simp
  with stop owned_drop(2) [of "holder s" "ts_open s" "Inl i" n] show ?case
    by (auto simp: orphans_def holder_steps tunnels_inv_iff)
next
  case (dial s c i)
  have "ran ((holder s)(Inr c \<mapsto> ts_fresh s)) = insert (ts_fresh s) (ran (holder s))"
    using dial by (intro ran_map_upd) simp
  with dial show ?case by (auto simp: orphans_def holder_steps)
qed (simp_all add: orphans_def holder_steps)


lemma start_inv: "tunnels_inv tunnels_start" "single_starts tunnels_start" "orphans tunnels_start = {}"
proof -
  have h: "holder tunnels_start h = None" for h by (cases h) (auto simp: tunnels_start_def)
  then have "ran (holder tunnels_start) = {}" by (auto simp: ran_def)
  with h show "tunnels_inv tunnels_start" by (auto simp: tunnels_inv_def tunnels_start_def)
  show "single_starts tunnels_start" "orphans tunnels_start = {}"
    by (auto simp: single_starts_def orphans_def tunnels_start_def)
qed

lemma reachable_inv: "(tstep excl)\<^sup>*\<^sup>* tunnels_start s \<Longrightarrow> tunnels_inv s"
  by (induction rule: rtranclp_induct) (auto simp: start_inv intro: tunnels_inv_step)

lemma reachable_single: "(tstep True)\<^sup>*\<^sup>* tunnels_start s \<Longrightarrow> single_starts s \<and> orphans s = {}"
proof (induction rule: rtranclp_induct)
  case base
  then show ?case by (simp add: start_inv)
next
  case (step t u)
  from step.hyps(1) have "tunnels_inv t" by (rule reachable_inv)
  with step.IH single_starts_step [OF step.hyps(2)] no_orphans_step [OF step.hyps(2)] show ?case by simp
qed

text \<open>Two calls that both passed the check; the second registration hides the first.\<close>

definition race :: tunnels where
  "race = \<lparr>ts_running = [1 \<mapsto> 1], ts_open = {0, 1}, ts_calls = Map.empty, ts_fresh = 2\<rparr>"

lemma race_reachable: "(tstep False)\<^sup>*\<^sup>* tunnels_start race"
proof -
  let ?s = "\<lambda>run op calls n. \<lparr>ts_running = run, ts_open = op, ts_calls = calls, ts_fresh = n\<rparr>"
  let ?s1 = "?s Map.empty {} [0 \<mapsto> Checked 1] 0"
  let ?s2 = "?s Map.empty {} [0 \<mapsto> Checked 1, 1 \<mapsto> Checked 1] 0"
  let ?s3 = "?s Map.empty {0} [0 \<mapsto> Dialed 1 0, 1 \<mapsto> Checked 1] 1"
  let ?s4 = "?s Map.empty {0, 1} [0 \<mapsto> Dialed 1 0, 1 \<mapsto> Dialed 1 1] 2"
  let ?s5 = "?s [1 \<mapsto> 0] {0, 1} [1 \<mapsto> Dialed 1 1] 2"
  have "tstep False tunnels_start ?s1"
    using tstep.check [of tunnels_start 1 0 False] by (simp add: tunnels_start_def)
  note r = r_into_rtranclp [of "tstep False", OF this]
  have "tstep False ?s1 ?s2" using tstep.check [of ?s1 1 1 False] by simp
  note r = rtranclp.rtrancl_into_rtrancl [OF r this]
  have "tstep False ?s2 ?s3" using tstep.dial [of ?s2 0 1 False] by (simp add: fun_upd_twist)
  note r = rtranclp.rtrancl_into_rtrancl [OF r this]
  have "tstep False ?s3 ?s4"
    using tstep.dial [of ?s3 1 1 False] by (simp add: insert_commute numeral_2_eq_2)
  note r = rtranclp.rtrancl_into_rtrancl [OF r this]
  have "tstep False ?s4 ?s5" using tstep.register [of ?s4 0 1 0 False] by (simp add: fun_upd_twist)
  note r = rtranclp.rtrancl_into_rtrancl [OF r this]
  have "tstep False ?s5 race" using tstep.register [of ?s5 1 1 1 False] by (simp add: race_def)
  then show ?thesis by (rule rtranclp.rtrancl_into_rtrancl [OF r])
qed

lemma race_orphans: "orphans race = {0}"
proof -
  have "ran (holder race) = {1}"
  proof (intro set_eqI iffI)
    fix n
    assume "n \<in> ran (holder race)"
    then obtain h where "holder race h = Some n" by (auto simp: ran_def)
    then show "n \<in> {1}" by (cases h) (auto simp: race_def split: if_splits)
  next
    fix n :: nat
    assume "n \<in> {1}"
    then have "holder race (Inl 1) = Some n" by (simp add: race_def)
    then show "n \<in> ran (holder race)" by (rule ranI)
  qed
  then show ?thesis by (auto simp: orphans_def race_def)
qed

section \<open>The operations, run alone\<close>

lemma open_tunnel_running: "io_keeps (\<lambda>w. w_running w = R) (open_tunnel X t signer)"
proof -
  have b: "ext_blind (\<lambda>w. w_running w = R)" by (simp add: ext_blind_def)
  show ?thesis unfolding open_tunnel_def Let_def by (intro io_keep ext_blind_ext b)
qed

lemma loadSigner_running: "io_keeps (\<lambda>w. w_running w = R) (loadSigner X S)"
proof -
  have b: "ext_blind (\<lambda>w. w_running w = R)" by (simp add: ext_blind_def)
  show ?thesis unfolding loadSigner_def by (intro io_keep ext_blind_ext b io_keeps_io_of_sum)
qed

lemma TunnelStart_Inr:
  assumes "TunnelStart X S t w = (Inr (), w')"
  shows "tn_kind t = TunnelSSH \<and> w_running w (tn_id t) = None \<and>
    (\<exists>conn. w_running w' = (w_running w)(tn_id t \<mapsto> conn))"
proof -
  from assms have k: "tn_kind t = TunnelSSH" "w_running w (tn_id t) = None"
    by (auto simp: TunnelStart_def io_inr split: if_splits)
  with assms obtain signer w1 conn w2 where l: "loadSigner X S w = (Inr signer, w1)"
    and o: "open_tunnel X t signer w1 = (Inr conn, w2)"
    and w': "w' = w2\<lparr>w_running := (w_running w2)(tn_id t \<mapsto> conn)\<rparr>"
    by (auto simp: TunnelStart_def io_inr)
  have "w_running w1 = w_running w" using io_keepsD [OF loadSigner_running _ l] by simp
  moreover have "w_running w2 = w_running w1" using io_keepsD [OF open_tunnel_running _ o] by simp
  ultimately show ?thesis using k w' by auto
qed

lemma TunnelStop_running: "w_running (snd (TunnelStop X i w)) = (w_running w)(i := None)"
proof (cases "w_running w i")
  case None
  then show ?thesis by (simp add: TunnelStop_def io_defs fun_upd_idem)
next
  case (Some conn)
  obtain r b where e: "ext (x_sshClose X conn) w = (r, b)" by (cases "ext (x_sshClose X conn) w")
  then have "w_running b = w_running w" using ext_frame(6) [of "x_sshClose X conn" w] by simp
  with Some e show ?thesis by (simp add: TunnelStop_def quiet_def io_defs)
qed

section \<open>Properties\<close>

text \<open>
  A tunnel is started once and can be stopped.  A start that succeeds found the tunnel not
  running and adds exactly its entry; a second start is refused without effect; stopping it
  restores the table.
\<close>

lemma tunnel_starts_once:
  assumes "TunnelStart X S t w = (Inr (), w')"
  shows "tn_kind t = TunnelSSH \<and> w_running w (tn_id t) = None \<and>
    (\<exists>conn. w_running w' = (w_running w)(tn_id t \<mapsto> conn)) \<and>
    TunnelStart X S t w' = (Inl (Err (''tunnel '' @ goItoa (tn_id t) @ '' already running'')), w') \<and>
    w_running (snd (TunnelStop X (tn_id t) w')) = w_running w"
proof -
  from TunnelStart_Inr [OF assms] obtain conn where k: "tn_kind t = TunnelSSH" "w_running w (tn_id t) = None"
    and r: "w_running w' = (w_running w)(tn_id t \<mapsto> conn)" by blast
  have "w_running (snd (TunnelStop X (tn_id t) w')) = w_running w"
    using k(2) by (simp add: TunnelStop_running r fun_upd_idem)
  moreover from k r
  have "TunnelStart X S t w' = (Inl (Err (''tunnel '' @ goItoa (tn_id t) @ '' already running'')), w')"
    by (simp add: TunnelStart_def io_defs)
  ultimately show ?thesis using k r by blast
qed

text \<open>
  The steps are those of the operations: a call of \<^verbatim>\<open>Start\<close> or \<^verbatim>\<open>Stop\<close> that runs alone
  is a run of steps to a state with the same running tunnels.
\<close>

lemma solo_start:
  assumes "ts_running s i = None" "ts_calls s = Map.empty"
  shows "(tstep excl)\<^sup>*\<^sup>* s (s\<lparr>ts_running := (ts_running s)(i \<mapsto> ts_fresh s),
     ts_open := insert (ts_fresh s) (ts_open s), ts_fresh := Suc (ts_fresh s)\<rparr>)"
proof -
  let ?s1 = "s\<lparr>ts_calls := (ts_calls s)(0 \<mapsto> Checked i)\<rparr>"
  let ?s2 = "?s1\<lparr>ts_calls := (ts_calls ?s1)(0 \<mapsto> Dialed i (ts_fresh s)), ts_open := insert (ts_fresh s) (ts_open s),
    ts_fresh := Suc (ts_fresh s)\<rparr>"
  let ?s3 = "?s2\<lparr>ts_calls := (ts_calls ?s2)(0 := None), ts_running := (ts_running ?s2)(i \<mapsto> ts_fresh s)\<rparr>"
  have "tstep excl s ?s1" using assms by (intro tstep.check) (simp_all add: starting_def)
  moreover have "tstep excl ?s1 ?s2" using tstep.dial [of ?s1 0 i excl] by simp
  moreover have "tstep excl ?s2 ?s3" using tstep.register [of ?s2 0 i "ts_fresh s" excl] by simp
  ultimately have "(tstep excl)\<^sup>*\<^sup>* s ?s3" by (meson converse_rtranclp_into_rtranclp r_into_rtranclp)
  moreover have "?s3 = s\<lparr>ts_running := (ts_running s)(i \<mapsto> ts_fresh s),
     ts_open := insert (ts_fresh s) (ts_open s), ts_fresh := Suc (ts_fresh s)\<rparr>"
    by (rule tunnels.equality) (simp_all add: assms(2))
  ultimately show ?thesis by simp
qed

lemma TunnelStart_error: "TunnelStart X S t w = (Inl e, w') \<Longrightarrow> w_running w' = w_running w"
proof -
  assume a: "TunnelStart X S t w = (Inl e, w')"
  let ?I = "\<lambda>v. w_running v = w_running w"
  have modify: "io_spec ?I (io_modify (\<lambda>w. w\<lparr>w_running := (w_running w)(i \<mapsto> c)\<rparr>)) (\<lambda>_ _. True) ?I" for i c
    by (simp add: io_spec_def io_modify_def)
  have "io_spec ?I (TunnelStart X S t) (\<lambda>_ _. True) ?I"
    unfolding TunnelStart_def
    by (intro io_triple io_spec_bind [OF io_spec_keeps] modify loadSigner_running open_tunnel_running io_keeps_gets | simp)+
  from io_spec_Inl [OF this refl a] show ?thesis .
qed

lemma TunnelStart_steps:
  assumes "TunnelStart X S t w = (r, w')" "dom (ts_running s) = dom (w_running w)" "ts_calls s = Map.empty"
  shows "\<exists>s'. (tstep excl)\<^sup>*\<^sup>* s s' \<and> dom (ts_running s') = dom (w_running w') \<and> ts_calls s' = Map.empty"
proof (cases r)
  case (Inl e)
  with assms TunnelStart_error [of X S t w e w'] show ?thesis by (intro exI [of _ s]) simp
next
  case (Inr u)
  with TunnelStart_Inr [of X S t w w'] assms(1) obtain conn where
    "w_running w (tn_id t) = None" "w_running w' = (w_running w)(tn_id t \<mapsto> conn)" by auto
  moreover from this(1) assms(2) have "ts_running s (tn_id t) = None" by (metis domIff)
  from solo_start [OF this assms(3), of excl] have "(tstep excl)\<^sup>*\<^sup>* s (s\<lparr>ts_running := (ts_running s)(tn_id t \<mapsto> ts_fresh s),
     ts_open := insert (ts_fresh s) (ts_open s), ts_fresh := Suc (ts_fresh s)\<rparr>)" .
  ultimately show ?thesis using assms(2,3) by (intro exI conjI) (assumption, simp_all)
qed

lemma TunnelStop_steps:
  assumes "TunnelStop X i w = (r, w')" "dom (ts_running s) = dom (w_running w)" "ts_calls s = Map.empty"
  shows "\<exists>s'. (tstep excl)\<^sup>*\<^sup>* s s' \<and> dom (ts_running s') = dom (w_running w') \<and> ts_calls s' = Map.empty"
proof -
  have w': "w_running w' = (w_running w)(i := None)" using TunnelStop_running [of X i w] assms(1) by simp
  show ?thesis
  proof (cases "ts_running s i")
    case None
    with assms(2) have "w_running w i = None" by (metis domIff)
    with w' assms(2,3) show ?thesis by (intro exI [of _ s]) (simp add: fun_upd_idem)
  next
    case (Some n)
    from r_into_rtranclp [of "tstep excl", OF tstep.stop [OF this]] w' assms(2,3) show ?thesis
      by (intro exI conjI) (assumption, simp_all)
  qed
qed

text \<open>
  C32: no tunnel connection is lost unless two starts of one tunnel overlap.  If no start of a
  tunnel begins while another start of it is under way, every open connection belongs to the
  running table or to a call that is about to enter it, so it can be stopped.  Without that
  discipline the check and the registration of \<^verbatim>\<open>Start\<close> race: an open connection can be left
  that no entry and no call holds.
\<close>

theorem tunnel_orphans_need_a_race:
  "((tstep True)\<^sup>*\<^sup>* tunnels_start s \<longrightarrow> orphans s = {}) \<and>
   (\<exists>s'. (tstep False)\<^sup>*\<^sup>* tunnels_start s' \<and> orphans s' \<noteq> {} \<and> ts_calls s' = Map.empty)"
proof
  show "(tstep True)\<^sup>*\<^sup>* tunnels_start s \<longrightarrow> orphans s = {}" using reachable_single by blast
  have "ts_calls race = Map.empty" by (simp add: race_def)
  with race_reachable race_orphans
  show "\<exists>s'. (tstep False)\<^sup>*\<^sup>* tunnels_start s' \<and> orphans s' \<noteq> {} \<and> ts_calls s' = Map.empty" by blast
qed

theorem tunnel_orphans_need_a_race_witness:
  "(tstep True)\<^sup>*\<^sup>* tunnels_start \<lparr>ts_running = [1 \<mapsto> 0], ts_open = {0}, ts_calls = Map.empty, ts_fresh = 1\<rparr> \<and>
   orphans \<lparr>ts_running = [1 \<mapsto> 0], ts_open = {0}, ts_calls = Map.empty, ts_fresh = 1\<rparr> = {}"
proof -
  have "(tstep True)\<^sup>*\<^sup>* tunnels_start \<lparr>ts_running = [1 \<mapsto> 0], ts_open = {0}, ts_calls = Map.empty, ts_fresh = 1\<rparr>"
    using solo_start [of tunnels_start 1 True] by (simp add: tunnels_start_def)
  with tunnel_orphans_need_a_race [of "\<lparr>ts_running = [1 \<mapsto> 0], ts_open = {0}, ts_calls = Map.empty, ts_fresh = 1\<rparr>"]
  show ?thesis by blast
qed

definition sim_tunnel :: tunnel where
  "sim_tunnel = \<lparr>tn_id = 1, tn_kind = TunnelSSH, tn_name = ''vm'', tn_sshHost = ''h'', tn_sshPort = 22,
     tn_sshUser = ''u'', tn_remotePort = 80, tn_localPort = 10000, tn_enabled = False, tn_createdAt = 0\<rparr>"

section \<open>Fallbacks\<close>

lemma fetchIP_valid: "fetchIP X url w = (Inr ip, w') \<Longrightarrow> x_parseIP X ip \<and> length ip \<le> 128"
proof -
  assume f: "fetchIP X url w = (Inr ip, w')"
  then have "x_newRequest X url = None" by (cases "x_newRequest X url") (simp_all add: fetchIP_def)
  with f obtain resp :: response where "ext (x_httpGet X url None) w = (Inr resp, w')"
    and r: "ip = trimSpace (take 128 (hr_body resp))" "x_parseIP X ip"
    by (fastforce simp: fetchIP_def io_inr Let_def split: if_splits)
  moreover have "length (trimWith P s) \<le> length s" for P and s :: string
    unfolding trimWith_def by (metis dual_order.trans length_dropWhile_le length_rev)
  ultimately show ?thesis
    by (metis length_take min.bounded_iff order_refl trimSpace_def)
qed

lemma ip_loop_valid: "ip_loop X urls e w = (Inr ip, w') \<Longrightarrow> x_parseIP X ip \<and> length ip \<le> 128"
proof (induction urls arbitrary: e w)
  case (Cons url urls)
  show ?case
  proof (cases "url = ''''")
    case False
    obtain r w1 where f: "fetchIP X url w = (r, w1)" by (cases "fetchIP X url w")
    with False Cons.prems Cons.IH fetchIP_valid [of X url w] show ?thesis
      by (cases r) (auto simp: io_inr)
  qed (use Cons in simp)
qed simp

lemma ip_loop_finds:
  assumes "u \<in> set urls" "u \<noteq> ''''" "\<And>w. \<exists>ip w'. fetchIP X u w = (Inr ip, w')"
  shows "\<exists>ip w'. ip_loop X urls e w = (Inr ip, w')"
  using assms(1)
proof (induction urls arbitrary: e w)
  case (Cons url urls)
  show ?case
  proof (cases "url = ''''")
    case True
    with Cons assms(2) show ?thesis by auto
  next
    case False
    obtain r w1 where f: "fetchIP X url w = (r, w1)" by (cases "fetchIP X url w")
    show ?thesis
    proof (cases r)
      case (Inl err)
      with f assms(3) [of w] have "url \<noteq> u" by auto
      with Cons.prems have "u \<in> set urls" by simp
      from Cons.IH [OF this, of "Some err" w1] False f Inl show ?thesis by (simp add: io_inr)
    qed (use False f in \<open>simp add: io_inr\<close>)
  qed
qed simp

text \<open>
  The public address is found if any service answers, and is an address.  One candidate
  whose fetches always succeed is enough, whatever the candidates before it do; and what is
  returned parses as an IP address and is at most 128 bytes long.
\<close>

lemma public_ip_found:
  "((\<exists>u \<in> set (service # ip_services). u \<noteq> '''' \<and> (\<forall>w. \<exists>ip w'. fetchIP X u w = (Inr ip, w'))) \<longrightarrow>
      (\<exists>ip w'. PublicIP X service w = (Inr ip, w'))) \<and>
   (PublicIP X service w = (Inr ip, w') \<longrightarrow> x_parseIP X ip \<and> length ip \<le> 128)"
  unfolding PublicIP_def using ip_loop_finds [of _ "service # ip_services" X None w] ip_loop_valid by blast

end
