(* ===== verification/ApiViews.thy ===== *)
theory ApiViews
  imports ApiManage Tunnel
begin

text \<open>
  \<^verbatim>\<open>internal/api/handlers.go\<close>: health, container views and actions, the filtered lists of
  images, volumes and networks, manual routes, and tunnels; and
  \<^verbatim>\<open>internal/api/handlers_endpoints.go\<close>: environments, grants, and the edge proxies.
\<close>

section \<open>Health and containers\<close>

definition handleHealth :: "'e ext \<Rightarrow> server \<Rightarrow> ('e, bool \<times> string) handler" where
  "handleHealth X S r =
     io_bind (io_try (Ping X (srv_local S))) (\<lambda>p. writeJSON 200 (case p of
         Inl e \<Rightarrow> (False, errString (Some e)) | Inr _ \<Rightarrow> (True, errString None)))"

definition handleListContainers :: "'e ext \<Rightarrow> server \<Rightarrow> ('e, summary list) handler" where
  "handleListContainers X S r =
     io_bind (or_status 502 (clientFor X S r)) (\<lambda>cli.
     io_bind (or_status 502 (ListContainers X cli (rq_query r ''all'' \<noteq> ''false''))) (\<lambda>l.
       let p = Current r in
       writeJSON 200 (if \<not> IsAdmin p then filter (\<lambda>c. mget (su_labels c) LabelOwner = pr_username p) l else l)))"

definition handleInspectContainer :: "'e ext \<Rightarrow> server \<Rightarrow> ('e, inspect) handler" where
  "handleInspectContainer X S r =
     io_bind (or_status 502 (clientFor X S r)) (\<lambda>cli.
     io_bind (or_status 502 (Inspect X cli (rq_param r ''id''))) (\<lambda>info. writeJSON 200 info))"

definition handleContainerAction :: "('e ext \<Rightarrow> client \<Rightarrow> string \<Rightarrow> ('e, unit) op) \<Rightarrow> 'e ext \<Rightarrow> server
    \<Rightarrow> ('e, string) handler" where
  "handleContainerAction action X S r =
     io_bind (or_status 502 (clientFor X S r)) (\<lambda>cli.
     io_seq (or_status 502 (action X cli (rq_param r ''id''))) (writeJSON 200 ''ok''))"

section \<open>Images, volumes, networks\<close>

definition handleListImages :: "'e ext \<Rightarrow> server \<Rightarrow> ('e, string list) handler" where
  "handleListImages X S r =
     io_bind (or_status 502 (clientFor X S r)) (\<lambda>cli.
     io_bind (or_status 502 (ListImages X cli)) (\<lambda>l. writeJSON 200 l))"

record volume_view =
  vv_name :: string
  vv_driver :: string
  vv_mountpoint :: string
  vv_createdAt :: string
  vv_labels :: "string \<rightharpoonup> string"
  vv_size :: int
  vv_refCount :: int
  vv_sizeMB :: int

definition volume_view_of :: "(string \<rightharpoonup> int) \<Rightarrow> volume \<Rightarrow> volume_view" where
  "volume_view_of budgets v =
     \<lparr>vv_name = vo_name v, vv_driver = vo_driver v, vv_mountpoint = vo_mountpoint v,
      vv_createdAt = vo_createdAt v, vv_labels = vo_labels v, vv_size = -1, vv_refCount = -1,
      vv_sizeMB = (case budgets (vo_name v) of None \<Rightarrow> 0 | Some n \<Rightarrow> n)\<rparr>"

text \<open>What the caller may see of a list: everything when the scope is empty.\<close>

definition visible :: "string \<Rightarrow> (string \<rightharpoonup> string) \<Rightarrow> bool" where
  "visible owner labels \<longleftrightarrow> \<not> (owner \<noteq> '''' \<and> mget labels LabelOwner \<noteq> owner)"

definition handleListVolumes :: "'e ext \<Rightarrow> server \<Rightarrow> ('e, volume_view list) handler" where
  "handleListVolumes X S r =
     io_bind (or_status 502 (clientFor X S r)) (\<lambda>cli.
     io_bind (or_status 502 (ListVolumes X cli)) (\<lambda>l.
       let owner = ownerScope r in
       io_bind (io_try (sql X (ListVolumeSizes (endpointID r)))) (\<lambda>b.
         let budgets = (case b of Inl _ \<Rightarrow> Map.empty | Inr m \<Rightarrow> m) in
         writeJSON 200 (map (volume_view_of budgets) (filter (\<lambda>v. visible owner (vo_labels v)) l)))))"

text \<open>\<^const>\<open>None\<close> is the nil map: no restriction.\<close>

definition owned_volumes :: "'e ext \<Rightarrow> client \<Rightarrow> string \<Rightarrow> ('e, string set option) web" where
  "owned_volumes X cli owner =
     (if owner \<noteq> ''''
      then io_bind (or_status 502 (ListVolumes X cli)) (\<lambda>vols.
        io_ret (Some (vo_name ` set (filter (\<lambda>v. mget (vo_labels v) LabelOwner = owner) vols))))
      else io_ret None)"

definition handleVolumeUsage :: "'e ext \<Rightarrow> server \<Rightarrow> ('e, string \<rightharpoonup> usage_data) handler" where
  "handleVolumeUsage X S r =
     io_bind (dockerOr502 X S r) (\<lambda>cli.
     io_bind (or_status 502 (VolumeUsage X cli)) (\<lambda>usage.
     io_bind (owned_volumes X cli (ownerScope r)) (\<lambda>ownd.
       writeJSON 200 (case ownd of None \<Rightarrow> usage | Some names \<Rightarrow> usage |` names))))"

definition handleVolumeNames :: "'e ext \<Rightarrow> server \<Rightarrow> ('e, string list) handler" where
  "handleVolumeNames X S r =
     io_bind (dockerOr502 X S r) (\<lambda>cli.
     io_bind (or_status 502 (ListVolumes X cli)) (\<lambda>vols.
       writeJSON 200 (map vo_name (filter (\<lambda>v. visible (ownerScope r) (vo_labels v)) vols))))"

definition handleListNetworks :: "'e ext \<Rightarrow> server \<Rightarrow> ('e, network list) handler" where
  "handleListNetworks X S r =
     io_bind (or_status 502 (clientFor X S r)) (\<lambda>cli.
     io_bind (or_status 502 (ListNetworks X cli)) (\<lambda>l.
       let owner = ownerScope r in
       writeJSON 200 (if owner \<noteq> '''' then filter (\<lambda>n. mget (ne_labels n) LabelOwner = owner) l else l)))"

section \<open>Manual routes\<close>

definition handleListRoutes :: "'e ext \<Rightarrow> ('e, route list) handler" where
  "handleListRoutes X r =
     io_bind (or_status 500 (RouteList X)) (\<lambda>l.
       writeJSON 200 (filter (\<lambda>rt. rt_endpointID rt = endpointID r) l))"

definition handleUpsertRoute :: "'e ext \<Rightarrow> server \<Rightarrow> goerr + route \<Rightarrow> ('e, route) handler" where
  "handleUpsertRoute X S body r =
     io_bind (decoded body) (\<lambda>route.
     io_bind (or_status 400 (Upsert X S (Some (Upstreams X)) (route\<lparr>rt_endpointID := endpointID r\<rparr>))) (\<lambda>saved.
       writeJSON 200 saved))"

definition handleDeleteRoute :: "'e ext \<Rightarrow> server \<Rightarrow> ('e, string) handler" where
  "handleDeleteRoute X S r =
     io_seq (or_status 500 (RouteDelete X S (Some (Upstreams X)) (rq_param r ''subdomain'')))
       (writeJSON 200 ''deleted'')"

section \<open>Tunnels\<close>

definition handlePublicIP :: "'e ext \<Rightarrow> server \<Rightarrow> ('e, string) handler" where
  "handlePublicIP X S r =
     io_bind (or_status 502 (PublicIP X (srv_publicIPService S))) (\<lambda>ip. writeJSON 200 ip)"

fun annotate :: "tunnel list \<Rightarrow> ('e, (tunnel \<times> bool) list) web" where
  "annotate [] = io_ret []"
| "annotate (t # ts) =
     io_bind (or_status 500 (IsRunning (tn_id t))) (\<lambda>b. io_bind (annotate ts) (\<lambda>out. io_ret ((t, b) # out)))"

definition handleListTunnels :: "'e ext \<Rightarrow> ('e, (tunnel \<times> bool) list) handler" where
  "handleListTunnels X r =
     io_bind (or_status 500 (sql X ListTunnels)) (\<lambda>l. io_bind (annotate l) (\<lambda>out. writeJSON 200 out))"

definition handleCreateTunnel :: "'e ext \<Rightarrow> goerr + tunnel \<Rightarrow> ('e, tunnel) handler" where
  "handleCreateTunnel X body r =
     io_bind (decoded body) (\<lambda>t.
     io_bind (or_status 500 (sql X (InsertTunnel t))) (\<lambda>saved. writeJSON 201 saved))"

definition handleStartTunnel :: "'e ext \<Rightarrow> server \<Rightarrow> ('e, string) handler" where
  "handleStartTunnel X S r =
     io_bind (id_param r) (\<lambda>i.
     io_bind (or_status 500 (sql X ListTunnels)) (\<lambda>tunnels.
       case find (\<lambda>t. tn_id t = i) tunnels of
         None \<Rightarrow> writeErr 404 errNotFound
       | Some found \<Rightarrow>
           io_seq (or_status 502 (TunnelStart X S found))
           (io_seq (quiet (sql X (SetTunnelEnabled i True))) (writeJSON 200 ''started''))))"

definition handleStopTunnel :: "'e ext \<Rightarrow> ('e, string) handler" where
  "handleStopTunnel X r =
     io_bind (id_param r) (\<lambda>i.
     io_seq (or_status 500 (TunnelStop X i))
     (io_seq (quiet (sql X (SetTunnelEnabled i False))) (writeJSON 200 ''stopped'')))"

definition handleDeleteTunnel :: "'e ext \<Rightarrow> ('e, string) handler" where
  "handleDeleteTunnel X r =
     io_bind (id_param r) (\<lambda>i.
     io_seq (or_status 500 (TunnelStop X i))
     (io_seq (or_status 500 (sql X (DeleteTunnel i))) (writeJSON 200 ''deleted'')))"

section \<open>Environments\<close>

record endpoint_view =
  ev_id :: int
  ev_name :: string
  ev_host :: string
  ev_tls :: bool
  ev_local :: bool

definition local_view :: endpoint_view where
  "local_view = \<lparr>ev_id = LocalID, ev_name = ''Local'', ev_host = ''local socket'', ev_tls = False, ev_local = True\<rparr>"

definition endpoint_view_of :: "endpoint \<Rightarrow> endpoint_view" where
  "endpoint_view_of e = \<lparr>ev_id = ep_id e, ev_name = ep_name e, ev_host = ep_host e, ev_tls = ep_tls e, ev_local = False\<rparr>"

definition handleListEndpoints :: "'e ext \<Rightarrow> ('e, endpoint_view list) handler" where
  "handleListEndpoints X r =
     io_bind (or_status 500 (EndpointList X)) (\<lambda>remotes.
       let p = Current r in
       io_bind (if \<not> IsAdmin p then or_status 500 (sql X (GetUserEndpointIDs (pr_userID p))) else io_ret []) (\<lambda>granted.
         writeJSON 200 (local_view #
           map endpoint_view_of (filter (\<lambda>e. IsAdmin p \<or> ep_id e \<in> set granted) remotes))))"

definition handleGetUserEnvironments :: "'e ext \<Rightarrow> ('e, endpoint_grant list) handler" where
  "handleGetUserEnvironments X r =
     io_bind (id_param r) (\<lambda>i.
     io_bind (or_status 500 (sql X (GetUserEndpoints i))) (\<lambda>grants. writeJSON 200 grants))"

definition handleSetUserEnvironments :: "'e ext \<Rightarrow> goerr + endpoint_grant list \<Rightarrow> ('e, string) handler" where
  "handleSetUserEnvironments X body r =
     io_bind (id_param r) (\<lambda>i.
     io_bind (decoded body) (\<lambda>grants.
     io_seq (or_status 500 (sql X (SetUserEndpoints i grants))) (writeJSON 200 ''updated'')))"

record endpoint_body =
  nb_name :: string
  nb_host :: string
  nb_tlsCA :: string
  nb_tlsCert :: string
  nb_tlsKey :: string

definition handleCreateEndpoint :: "'e ext \<Rightarrow> server \<Rightarrow> goerr + endpoint_body \<Rightarrow> ('e, endpoint_view) handler" where
  "handleCreateEndpoint X S body r =
     io_bind (decoded body) (\<lambda>b.
     io_bind (or_status 400 (EndpointCreate X S (nb_name b) (nb_host b) (nb_tlsCA b) (nb_tlsCert b) (nb_tlsKey b))) (\<lambda>ep.
       writeJSON 201 (endpoint_view_of ep)))"

definition handleUpdateEndpoint :: "'e ext \<Rightarrow> server \<Rightarrow> goerr + endpoint_body \<Rightarrow> ('e, endpoint_view) handler" where
  "handleUpdateEndpoint X S body r =
     (let i = endpointIDParam r in
      if i = LocalID then writeErr 400 errCannotDeleteLocal
      else io_bind (decoded body) (\<lambda>b.
        io_bind (or_status 400 (EndpointUpdate X S i (nb_name b) (nb_host b) (nb_tlsCA b) (nb_tlsCert b) (nb_tlsKey b))) (\<lambda>ep.
          writeJSON 200 (endpoint_view_of ep))))"

text \<open>\<^verbatim>\<open>Status\<close> reports a failure in its result.\<close>

definition handleEndpointStatus :: "'e ext \<Rightarrow> server \<Rightarrow> ('e, bool \<times> string) handler" where
  "handleEndpointStatus X S r =
     io_bind (or_status 200 (EndpointStatus X S (endpointIDParam r))) (\<lambda>st. writeJSON 200 st)"

definition handleDeleteEndpoint :: "'e ext \<Rightarrow> ('e, string) handler" where
  "handleDeleteEndpoint X r =
     (let i = endpointIDParam r in
      if i = LocalID then writeErr 400 errCannotDeleteLocal
      else io_seq (or_status 500 (EndpointDelete X i)) (writeJSON 200 ''deleted''))"

section \<open>Edge proxies\<close>

definition handleEdgeStatus :: "'e ext \<Rightarrow> server \<Rightarrow> ('e, edge_status) handler" where
  "handleEdgeStatus X S r =
     io_bind (or_status 502 (ClientFor X S (endpointIDParam r))) (\<lambda>cli.
     io_bind (or_status 502 (EdgeStatus X cli)) (\<lambda>st. writeJSON 200 st))"

text \<open>The host port of the request, zero when the body is missing.\<close>

definition handleDeployEdge :: "'e ext \<Rightarrow> server \<Rightarrow> int \<Rightarrow> ('e, edge_status) handler" where
  "handleDeployEdge X S hostPort r =
     (let i = endpointIDParam r in
      if i = LocalID then writeErr 400 (Err ''the local host runs its own Envoy; edge proxies are for remote environments'')
      else if srv_xdsAdvertise S = '''' then writeErr 400 (Err ''set EASYDEPLOY_XDS_ADVERTISE_ADDR before deploying a remote edge proxy'')
      else io_bind (io_gets (\<lambda>w. NodeForEndpoint (w_xds w) i)) (\<lambda>nodeID.
        io_bind (or_status 400 (io_of_sum (EdgeBootstrapYAML nodeID (srv_xdsAdvertise S)))) (\<lambda>bootstrap.
        io_bind (or_status 502 (ClientFor X S i)) (\<lambda>cli.
        io_seq (or_status 502 (DeployEdge X cli \<lparr>es_nodeID = nodeID, es_bootstrapYAML = bootstrap, es_hostPort = hostPort\<rparr>))
        (io_seq (or_status 500 (SyncRoutes X S))
        (io_bind (or_status 502 (EdgeStatus X cli)) (\<lambda>st. writeJSON 200 st)))))))"

definition handleRemoveEdge :: "'e ext \<Rightarrow> server \<Rightarrow> ('e, string) handler" where
  "handleRemoveEdge X S r =
     io_bind (or_status 502 (ClientFor X S (endpointIDParam r))) (\<lambda>cli.
     io_seq (or_status 502 (RemoveEdge X cli)) (writeJSON 200 ''removed''))"

end
