(* ===== verification/Streams.thy ===== *)
theory Streams
  imports Http
begin

text \<open>
  The live streams of a container, the WebSocket handlers of \<^verbatim>\<open>internal/api/handlers.go\<close>:
  the log, the statistics, and a shell.  A log or a statistics stream is copied by one loop, while
  the two goroutines of \<^verbatim>\<open>closeOnDisconnect\<close> wait for the browser to go and for the end of
  the request; a shell
  session is two loops that run beside each other; the loops of both take one step for each event,
  in the order of the events.
\<close>

section \<open>Connections\<close>

definition wire :: "'e ext \<Rightarrow> wire_op \<Rightarrow> ('e, unit) op" where
  "wire X a = ext (x_wire X a)"

text \<open>\<^verbatim>\<open>s.upgrader.Upgrade\<close>; when it fails it has answered the request itself.\<close>

definition upgrade :: "'e ext \<Rightarrow> ('e, int) web" where
  "upgrade X w = (case x_wsUpgrade X (w_ext w) of (r, e) \<Rightarrow> (r, w\<lparr>w_ext := e\<rparr>))"

text \<open>\<^verbatim>\<open>_ = conn.WriteMessage (websocket.TextMessage, text)\<close>.\<close>

definition say :: "'e ext \<Rightarrow> int \<Rightarrow> string \<Rightarrow> ('e, unit) web" where
  "say X conn msg = quiet (wire X (WsWrite conn (TextFrame msg)))"

text \<open>\<^verbatim>\<open>wsWriter.Write\<close>: every write is one text frame.\<close>

definition wsWriter_Write :: "'e ext \<Rightarrow> int \<Rightarrow> string \<Rightarrow> ('e, nat) op" where
  "wsWriter_Write X conn p =
     io_seq (wire X (WsWrite conn (TextFrame p))) (io_ret (length p))"

section \<open>Logs and statistics\<close>

text \<open>
  \<^verbatim>\<open>closeOnDisconnect\<close>: one goroutine reads the browser's messages and closes the stream
  when reading fails, the other closes it when the context of the request ends.  The result tells whether one of
  them has closed it, and returned.
\<close>

fun closeOnDisconnect :: "'e ext \<Rightarrow> int \<Rightarrow> stream_event \<Rightarrow> ('e, bool) web" where
  "closeOnDisconnect X h BrowserLeft = io_seq (quiet (wire X (StreamClose h))) (io_ret True)"
| "closeOnDisconnect X h RequestOver = io_seq (quiet (wire X (StreamClose h))) (io_ret True)"
| "closeOnDisconnect X h BrowserSpeaks = io_ret False"
| "closeOnDisconnect X h (Piece p) = io_ret False"

text \<open>
  The copying loop: the first failed write ends it, and so does a closed stream.  The result is the
  number of goroutines that still wait.
\<close>

fun relay :: "'e ext \<Rightarrow> int \<Rightarrow> (string \<Rightarrow> ('e, 'b) op) \<Rightarrow> stream_event list \<Rightarrow> ('e, nat) web" where
  "relay X h f [] = io_ret 2"
| "relay X h f (Piece p # es) =
     io_bind (io_try (f p)) (\<lambda>r. case r of Inl _ \<Rightarrow> io_ret 2 | Inr _ \<Rightarrow> relay X h f es)"
| "relay X h f (e # es) =
     io_bind (closeOnDisconnect X h e) (\<lambda>closed. if closed then io_ret 1 else relay X h f es)"

definition stream_events :: "'e ext \<Rightarrow> int \<Rightarrow> int \<Rightarrow> ('e, stream_event list) web" where
  "stream_events X conn h w = (case x_streamEvents X conn h (w_ext w) of (es, e) \<Rightarrow> (Inr es, w\<lparr>w_ext := e\<rparr>))"

text \<open>The result is the closings that are left to goroutines.\<close>

definition stream_body :: "'e ext \<Rightarrow> server \<Rightarrow> request \<Rightarrow> int \<Rightarrow> (client \<Rightarrow> ('e, int) op)
    \<Rightarrow> (string \<Rightarrow> ('e, 'b) op) \<Rightarrow> ('e, int list) web" where
  "stream_body X S r conn start f =
     io_bind (io_try (clientFor X S r)) (\<lambda>c. case c of
         Inl err \<Rightarrow> io_seq (say X conn (''error: '' @ errorString err)) (io_ret [])
       | Inr cli \<Rightarrow> io_bind (io_try (start cli)) (\<lambda>s. case s of
             Inl err \<Rightarrow> io_seq (say X conn (''error: '' @ errorString err)) (io_ret [])
           | Inr h \<Rightarrow>
               io_bind (stream_events X conn h) (\<lambda>es.
               io_bind (relay X h f es) (\<lambda>n.
               io_seq (quiet (wire X (StreamClose h))) (io_ret (replicate n h))))))"

text \<open>
  The end of a handler: its connection is closed, so reading from it fails, and the context of the
  request ends, so every goroutine that still waits closes the stream.
\<close>

definition stream_end :: "'e ext \<Rightarrow> int \<Rightarrow> int list \<Rightarrow> ('e, int \<times> unit) web" where
  "stream_end X conn hs =
     io_seq (quiet (wire X (WsClose conn)))
       (io_seq (io_foreach (\<lambda>h. quiet (wire X (StreamClose h))) hs) (writeJSON 101 ()))"

definition handleLogs :: "'e ext \<Rightarrow> server \<Rightarrow> ('e, unit) handler" where
  "handleLogs X S r =
     io_bind (upgrade X) (\<lambda>conn.
       io_bind (stream_body X S r conn (\<lambda>cli. Logs X cli (rq_param r ''id'') True) (wsWriter_Write X conn))
         (stream_end X conn))"

definition handleStats :: "'e ext \<Rightarrow> server \<Rightarrow> ('e, unit) handler" where
  "handleStats X S r =
     io_bind (upgrade X) (\<lambda>conn.
       io_bind (stream_body X S r conn (\<lambda>cli. Stats X cli (rq_param r ''id'') True)
                (\<lambda>raw. wire X (WsWrite conn (TextFrame raw))))
         (stream_end X conn))"

section \<open>Shells\<close>

text \<open>The loop that copies the shell's output has seen its end, and closes the connection.\<close>

definition pump_end :: "'e ext \<Rightarrow> int \<Rightarrow> ('e, unit) web" where
  "pump_end X conn =
     io_seq (say X conn ([CHR 0x0D, CHR 0x0A] @ ''[session ended]'' @ [CHR 0x0D, CHR 0x0A]))
       (quiet (wire X (WsClose conn)))"

text \<open>
  The handler's own loop returns: its deferred calls close both connections, and the other loop,
  if it still runs, finds the shell's connection closed.
\<close>

definition hang_up :: "'e ext \<Rightarrow> int \<Rightarrow> int \<Rightarrow> bool \<Rightarrow> ('e, unit) web" where
  "hang_up X conn hij pump =
     io_seq (quiet (wire X (HijackClose hij)))
       (io_seq (quiet (wire X (WsClose conn))) (if pump then pump_end X conn else io_ret ()))"

definition resize_tty :: "'e ext \<Rightarrow> client \<Rightarrow> string \<Rightarrow> string \<Rightarrow> ('e, unit) web" where
  "resize_tty X cli execID d = (case x_parseResize X d of
       None \<Rightarrow> io_ret ()
     | Some (cols, rows) \<Rightarrow> if cols > 0 then quiet (ExecResize X cli execID rows cols) else io_ret ())"

text \<open>\<^verbatim>\<open>pump\<close> tells whether the loop that copies the shell's output still runs.\<close>

fun session :: "'e ext \<Rightarrow> client \<Rightarrow> string \<Rightarrow> int \<Rightarrow> int \<Rightarrow> bool \<Rightarrow> session_event list \<Rightarrow> ('e, unit) web" where
  "session X cli execID conn hij pump [] = hang_up X conn hij pump"
| "session X cli execID conn hij pump (BrowserGone # es) = hang_up X conn hij pump"
| "session X cli execID conn hij pump (ShellOutput b # es) =
     (if pump \<and> b \<noteq> ''''
      then io_bind (io_try (wire X (WsWrite conn (BinaryFrame b)))) (\<lambda>r.
        session X cli execID conn hij (case r of Inl _ \<Rightarrow> False | Inr _ \<Rightarrow> True) es)
      else session X cli execID conn hij pump es)"
| "session X cli execID conn hij pump (ShellEnd # es) =
     (if pump then io_seq (pump_end X conn) (session X cli execID conn hij False es)
      else session X cli execID conn hij pump es)"
| "session X cli execID conn hij pump (BrowserSends (TextFrame d) # es) =
     io_seq (resize_tty X cli execID d) (session X cli execID conn hij pump es)"
| "session X cli execID conn hij pump (BrowserSends (BinaryFrame d) # es) =
     io_bind (io_try (wire X (HijackWrite hij d))) (\<lambda>r. case r of
         Inl _ \<Rightarrow> hang_up X conn hij pump
       | Inr _ \<Rightarrow> session X cli execID conn hij pump es)"

definition session_events :: "'e ext \<Rightarrow> int \<Rightarrow> int \<Rightarrow> ('e, session_event list) web" where
  "session_events X conn hij w = (case x_sessionEvents X conn hij (w_ext w) of (es, e) \<Rightarrow> (Inr es, w\<lparr>w_ext := e\<rparr>))"

definition handleExec :: "'e ext \<Rightarrow> server \<Rightarrow> ('e, unit) handler" where
  "handleExec X S r =
     io_bind (upgrade X) (\<lambda>conn.
       let sh = (if rq_query r ''shell'' = '''' then ''/bin/sh'' else rq_query r ''shell'');
           close_conn = io_seq (quiet (wire X (WsClose conn))) (writeJSON 101 ())
       in io_bind (io_try (clientFor X S r)) (\<lambda>c. case c of
           Inl err \<Rightarrow> io_seq (say X conn (''error: '' @ errorString err)) close_conn
         | Inr cli \<Rightarrow> io_bind (io_try (Exec X cli (rq_param r ''id'') [sh])) (\<lambda>s. case s of
             Inl err \<Rightarrow> io_seq (say X conn (''exec failed: '' @ errorString err)) close_conn
           | Inr (hij, execID) \<Rightarrow>
               io_bind (session_events X conn hij) (\<lambda>es.
               io_seq (session X cli execID conn hij True es) (writeJSON 101 ())))))"

section \<open>What is sent\<close>

text \<open>An outside that records every call on a connection, whatever it answers.\<close>

definition wire_logged :: "'e ext \<Rightarrow> ('e \<Rightarrow> wire_op list) \<Rightarrow> bool" where
  "wire_logged X rec \<longleftrightarrow> (\<forall>a e. rec (snd (x_wire X a e)) = rec e @ [a])"

definition wire_works :: "'e ext \<Rightarrow> bool" where
  "wire_works X \<longleftrightarrow> (\<forall>a e. fst (x_wire X a e) = Inr ())"

fun to_shell :: "int \<Rightarrow> wire_op list \<Rightarrow> string list" where
  "to_shell h (HijackWrite h' d # as) = (if h' = h then d # to_shell h as else to_shell h as)"
| "to_shell h (a # as) = to_shell h as"
| "to_shell h [] = []"

fun to_browser :: "int \<Rightarrow> wire_op list \<Rightarrow> string list" where
  "to_browser c (WsWrite c' (BinaryFrame d) # as) = (if c' = c then d # to_browser c as else to_browser c as)"
| "to_browser c (a # as) = to_browser c as"
| "to_browser c [] = []"

text \<open>What the browser types until it is gone, and what the shell prints until it ends.\<close>

fun typed :: "session_event list \<Rightarrow> string list" where
  "typed (BrowserSends (BinaryFrame d) # es) = d # typed es"
| "typed (BrowserGone # es) = []"
| "typed (e # es) = typed es"
| "typed [] = []"

fun printed :: "session_event list \<Rightarrow> string list" where
  "printed (ShellOutput b # es) = (if b = '''' then printed es else b # printed es)"
| "printed (ShellEnd # es) = []"
| "printed (BrowserGone # es) = []"
| "printed (e # es) = printed es"
| "printed [] = []"

lemma to_shell_append [simp]: "to_shell h (as @ bs) = to_shell h as @ to_shell h bs"
  by (induction h as rule: to_shell.induct) simp_all

lemma to_browser_append [simp]: "to_browser c (as @ bs) = to_browser c as @ to_browser c bs"
  by (induction c as rule: to_browser.induct) simp_all

section \<open>Sessions\<close>

lemma wire_rec: "wire_logged X rec \<Longrightarrow> rec (w_ext (snd (wire X a w))) = rec (w_ext w) @ [a]"
  by (simp add: wire_logged_def wire_def ext_def split: prod.split) (metis snd_conv)

lemma wire_fst: "wire_works X \<Longrightarrow> fst (wire X a w) = Inr ()"
  by (simp add: wire_works_def wire_def ext_def split: prod.split) (metis fst_conv)

lemma quiet_eq: "quiet m w = (Inr (), snd (m w))"
  by (simp add: quiet_def io_defs split: prod.split)

lemma io_bind_try: "io_bind (io_try m) k w = k (fst (m w)) (snd (m w))"
  by (simp add: io_defs split: prod.split)

lemma io_seq_quiet: "io_seq (quiet m) n w = n (snd (m w))"
  by (simp add: io_seq_def io_bind_def quiet_eq)

lemma io_seq_unit: "fst (m w) = Inr x \<Longrightarrow> io_seq m n w = n (snd (m w))"
  by (cases "m w") (simp add: io_seq_def io_bind_def)

lemmas run_simps = io_bind_try io_seq_quiet quiet_eq say_def

text \<open>Every resize of the terminal was asked for by a message with a positive number of columns.\<close>

definition resized :: "'e ext \<Rightarrow> client \<Rightarrow> string \<Rightarrow> session_event list \<Rightarrow> wire_op list \<Rightarrow> bool" where
  "resized X cli execID es as \<longleftrightarrow>
     (\<forall>c x rows cols. ExecResizeCall c x rows cols \<in> set as \<longrightarrow> c = cli \<and> x = execID \<and> 0 < cols \<and>
        (\<exists>d. BrowserSends (TextFrame d) \<in> set es \<and> x_parseResize X d = Some (cols, rows)))"

lemma resized_simps [simp]:
  "resized X cli execID es []"
  "resized X cli execID es (WsWrite c f # as) = resized X cli execID es as"
  "resized X cli execID es (WsClose c # as) = resized X cli execID es as"
  "resized X cli execID es (HijackWrite c d # as) = resized X cli execID es as"
  by (auto simp: resized_def)

lemma resized_mono: "resized X cli execID es as \<Longrightarrow> set es \<subseteq> set es' \<Longrightarrow> resized X cli execID es' as"
  unfolding resized_def by (meson subsetD)

lemma resized_Cons [intro]: "resized X cli execID es as \<Longrightarrow> resized X cli execID (e # es) as"
  by (rule resized_mono) auto

text \<open>The record of what a session sends, compared with the events it has seen.\<close>

definition relayed :: "'e ext \<Rightarrow> client \<Rightarrow> string \<Rightarrow> int \<Rightarrow> int \<Rightarrow> bool \<Rightarrow> session_event list \<Rightarrow> wire_op list \<Rightarrow> bool" where
  "relayed X cli execID conn hij pump es as \<longleftrightarrow>
     prefix (to_shell hij as) (typed es) \<and>
     prefix (to_browser conn as) (if pump then printed es else []) \<and>
     (wire_works X \<longrightarrow> to_shell hij as = typed es \<and> to_browser conn as = (if pump then printed es else [])) \<and>
     HijackClose hij \<in> set as \<and> WsClose conn \<in> set as \<and>
     resized X cli execID es as"

lemma relayed_more:
  assumes "relayed X cli execID conn hij pump es as"
    and "typed es' = typed es" "printed es' = printed es" "set es \<subseteq> set es'"
  shows "relayed X cli execID conn hij pump es' as"
  using assms(1-3) resized_mono [OF _ assms(4)] by (auto simp: relayed_def)

lemma relayed_resize:
  assumes "relayed X cli execID conn hij pump es as"
    and "BrowserSends (TextFrame d) \<in> set es" "x_parseResize X d = Some (cols, rows)" "0 < cols"
  shows "relayed X cli execID conn hij pump es (ExecResizeCall cli execID rows cols # as)"
  using assms by (auto simp: relayed_def resized_def)

lemma hang_up_rec:
  assumes "wire_logged X rec"
  shows "\<exists>as. fst (hang_up X conn hij pump w) = Inr () \<and>
    rec (w_ext (snd (hang_up X conn hij pump w))) = rec (w_ext w) @ as \<and>
    relayed X cli execID conn hij pump [] as"
  by (cases pump)
    (simp_all add: hang_up_def pump_end_def run_simps wire_rec [OF assms] io_ret_def relayed_def resized_def)

lemma session_rec:
  assumes rec: "wire_logged X rec"
  shows "\<exists>as. fst (session X cli execID conn hij pump es w) = Inr () \<and>
    rec (w_ext (snd (session X cli execID conn hij pump es w))) = rec (w_ext w) @ as \<and>
    relayed X cli execID conn hij pump es as"
proof (induction es arbitrary: pump w)
  case Nil
  from hang_up_rec [OF rec] show ?case by simp
next
  case (Cons e es)
  note step = wire_rec [OF rec] wire_fst
  show ?case
  proof (cases e)
    case (ShellOutput b)
    show ?thesis
    proof (cases "pump \<and> b \<noteq> []")
      case True
      let ?m = "wire X (WsWrite conn (BinaryFrame b))"
      let ?p = "case fst (?m w) of Inl _ \<Rightarrow> False | Inr _ \<Rightarrow> True"
      from Cons.IH [of ?p "snd (?m w)"] obtain as where
        "fst (session X cli execID conn hij ?p es (snd (?m w))) = Inr ()"
        "rec (w_ext (snd (session X cli execID conn hij ?p es (snd (?m w))))) = rec (w_ext (snd (?m w))) @ as"
        "relayed X cli execID conn hij ?p es as" by blast
      with True ShellOutput step(2) [of X "WsWrite conn (BinaryFrame b)" w] show ?thesis
        by (intro exI [of _ "WsWrite conn (BinaryFrame b) # as"])
          (auto simp: run_simps step(1) relayed_def split: sum.splits if_splits)
    next
      case False
      with Cons.IH [of pump w] ShellOutput show ?thesis by (auto simp: relayed_def)
    qed
  next
    case ShellEnd
    show ?thesis
    proof (cases pump)
      case True
      let ?v = "snd (pump_end X conn w)"
      have v: "fst (pump_end X conn w) = Inr ()" by (simp add: pump_end_def run_simps)
      have "\<exists>n. rec (w_ext ?v) = rec (w_ext w) @ [WsWrite conn (TextFrame n), WsClose conn]"
        by (simp add: pump_end_def run_simps step)
      then obtain n where n: "rec (w_ext ?v) = rec (w_ext w) @ [WsWrite conn (TextFrame n), WsClose conn]" ..
      from Cons.IH [of False ?v] obtain as where
        "fst (session X cli execID conn hij False es ?v) = Inr ()"
        "rec (w_ext (snd (session X cli execID conn hij False es ?v))) = rec (w_ext ?v) @ as"
        "relayed X cli execID conn hij False es as" by blast
      with True ShellEnd n show ?thesis
        by (intro exI [of _ "WsWrite conn (TextFrame n) # WsClose conn # as"])
          (auto simp: io_seq_unit [where m = "pump_end X conn", OF v] relayed_def)
    next
      case False
      with Cons.IH [of pump w] ShellEnd show ?thesis by (auto simp: relayed_def)
    qed
  next
    case BrowserGone
    have "relayed X cli execID conn hij pump (BrowserGone # es) as"
      if "relayed X cli execID conn hij pump [] as" for as
      using that by (rule relayed_more) simp_all
    with BrowserGone hang_up_rec [OF rec, of conn hij pump w cli execID] show ?thesis by auto
  next
    case (BrowserSends f)
    show ?thesis
    proof (cases f)
      case (TextFrame d)
      let ?v = "snd (resize_tty X cli execID d w)"
      have v: "fst (resize_tty X cli execID d w) = Inr ()"
        by (simp add: resize_tty_def quiet_eq io_ret_def split: option.split)
      have "\<exists>rs. rec (w_ext ?v) = rec (w_ext w) @ rs \<and>
        (rs = [] \<or> (\<exists>cols rows. x_parseResize X d = Some (cols, rows) \<and> 0 < cols \<and> rs = [ExecResizeCall cli execID rows cols]))"
        by (simp add: resize_tty_def quiet_eq io_ret_def ExecResize_def step(1) flip: wire_def split: option.split)
      then obtain rs where rs: "rec (w_ext ?v) = rec (w_ext w) @ rs" and
        r: "rs = [] \<or> (\<exists>cols rows. x_parseResize X d = Some (cols, rows) \<and> 0 < cols \<and> rs = [ExecResizeCall cli execID rows cols])"
        by blast
      from Cons.IH [of pump ?v] obtain as where
        "fst (session X cli execID conn hij pump es ?v) = Inr ()"
        "rec (w_ext (snd (session X cli execID conn hij pump es ?v))) = rec (w_ext ?v) @ as"
        "relayed X cli execID conn hij pump es as" by blast
      moreover from this(3) have m: "relayed X cli execID conn hij pump (e # es) as"
        by (rule relayed_more) (auto simp: BrowserSends TextFrame)
      with r have "relayed X cli execID conn hij pump (e # es) (rs @ as)"
        by (elim disjE exE) (auto simp: BrowserSends TextFrame intro: relayed_resize)
      ultimately show ?thesis
        using rs BrowserSends TextFrame by (intro exI [of _ "rs @ as"]) (auto simp: io_seq_unit [where m = "resize_tty X cli execID d", OF v])
    next
      case (BinaryFrame d)
      let ?m = "wire X (HijackWrite hij d)"
      let ?v = "snd (?m w)"
      show ?thesis
      proof (cases "fst (?m w)")
        case (Inl err)
        with step(2) [of X "HijackWrite hij d" w] have "\<not> wire_works X" by auto
        then have "relayed X cli execID conn hij pump (e # es) (HijackWrite hij d # as)"
          if "relayed X cli execID conn hij pump [] as" for as
          using that resized_mono [of X cli execID "[]" as "e # es"]
          by (cases pump) (simp_all add: relayed_def BrowserSends BinaryFrame)
        moreover obtain as where "fst (hang_up X conn hij pump ?v) = Inr ()"
          "rec (w_ext (snd (hang_up X conn hij pump ?v))) = rec (w_ext ?v) @ as"
          "relayed X cli execID conn hij pump [] as"
          using hang_up_rec [OF rec, of conn hij pump ?v cli execID] by blast
        ultimately show ?thesis
          using Inl by (intro exI [of _ "HijackWrite hij d # as"]) (simp add: run_simps step(1) BrowserSends BinaryFrame)
      next
        case (Inr u)
        from Cons.IH [of pump ?v] obtain as where
          "fst (session X cli execID conn hij pump es ?v) = Inr ()"
          "rec (w_ext (snd (session X cli execID conn hij pump es ?v))) = rec (w_ext ?v) @ as"
          "relayed X cli execID conn hij pump es as" by blast
        with Inr BrowserSends BinaryFrame show ?thesis
          by (intro exI [of _ "HijackWrite hij d # as"]) (auto simp: run_simps step(1) relayed_def)
      qed
    qed
  qed
qed

section \<open>Copies\<close>

text \<open>What a stream delivers before it is closed, and whether it is closed before it ends.\<close>

fun delivered :: "stream_event list \<Rightarrow> string list" where
  "delivered (Piece p # es) = p # delivered es"
| "delivered (BrowserSpeaks # es) = delivered es"
| "delivered (e # es) = []"
| "delivered [] = []"

definition cut_short :: "stream_event list \<Rightarrow> bool" where
  "cut_short es \<longleftrightarrow> BrowserLeft \<in> set es \<or> RequestOver \<in> set es"

lemma cut_short_simps [simp]:
  "\<not> cut_short []" "cut_short (Piece p # es) = cut_short es" "cut_short (BrowserSpeaks # es) = cut_short es"
  "cut_short (BrowserLeft # es)" "cut_short (RequestOver # es)"
  by (auto simp: cut_short_def)

definition text_frames :: "int \<Rightarrow> string list \<Rightarrow> wire_op list" where
  "text_frames conn ps = map (\<lambda>p. WsWrite conn (TextFrame p)) ps"

text \<open>
  What became of writing some texts one after the other, and those of them that are tried when the
  first failure ends it: the failed one is the last.
\<close>

fun outcomes :: "'e ext \<Rightarrow> int \<Rightarrow> string list \<Rightarrow> 'e world \<Rightarrow> (goerr + unit) list" where
  "outcomes X conn [] w = []"
| "outcomes X conn (p # ps) w = (case wire X (WsWrite conn (TextFrame p)) w of (r, w') \<Rightarrow> r # outcomes X conn ps w')"

definition tried :: "(goerr + unit) list \<Rightarrow> string list \<Rightarrow> string list" where
  "tried rs ps = take (Suc (length (takeWhile (\<lambda>r. r = Inr ()) rs))) ps"

definition cuts :: "(goerr + unit) list \<Rightarrow> stream_event list \<Rightarrow> bool" where
  "cuts rs es \<longleftrightarrow> cut_short es \<and> set rs \<subseteq> {Inr ()}"

lemma tried_simps [simp]:
  "tried rs [] = []" "tried (Inl e # rs) (p # ps) = [p]" "tried (Inr () # rs) (p # ps) = p # tried rs ps"
  by (simp_all add: tried_def)

text \<open>A copying loop writes text frames; \<^verbatim>\<open>cuts\<close> tells whether a goroutine ended it.\<close>

definition copies :: "'e ext \<Rightarrow> int \<Rightarrow> (string \<Rightarrow> ('e, 'b) op) \<Rightarrow> bool" where
  "copies X conn f \<longleftrightarrow> (\<forall>p w. snd (f p w) = snd (wire X (WsWrite conn (TextFrame p)) w) \<and>
     (isl (fst (f p w)) \<longleftrightarrow> isl (fst (wire X (WsWrite conn (TextFrame p)) w))))"

lemma relay_rec:
  assumes rec: "wire_logged X rec" and f: "copies X conn f"
  shows "fst (relay X h f es w) = Inr (if cuts (outcomes X conn (delivered es) w) es then 1 else 2) \<and>
    rec (w_ext (snd (relay X h f es w))) =
      rec (w_ext w) @ text_frames conn (tried (outcomes X conn (delivered es) w) (delivered es)) @
      (if cuts (outcomes X conn (delivered es) w) es then [StreamClose h] else [])"
proof (induction es arbitrary: w)
  case (Cons e es)
  note close = wire_rec [OF rec, of "StreamClose h" w]
  show ?case
  proof (cases e)
    case (Piece p)
    obtain r w1 where wr: "wire X (WsWrite conn (TextFrame p)) w = (r, w1)" by fastforce
    with f have f1: "snd (f p w) = w1" "isl (fst (f p w)) \<longleftrightarrow> isl r" by (simp_all add: copies_def)
    have log: "rec (w_ext w1) = rec (w_ext w) @ [WsWrite conn (TextFrame p)]"
      using wire_rec [OF rec, of "WsWrite conn (TextFrame p)" w] wr by simp
    show ?thesis
    proof (cases r)
      case (Inl err)
      with f1 obtain err' where "fst (f p w) = Inl err'" by (auto simp: isl_def)
      with Inl wr f1 log Piece show ?thesis
        by (simp add: io_bind_try io_ret_def text_frames_def cuts_def)
    next
      case (Inr u)
      with f1 obtain x where "fst (f p w) = Inr x" by (cases "fst (f p w)") auto
      with Inr wr f1 log Piece Cons.IH [of w1] show ?thesis
        by (simp add: io_bind_try text_frames_def cuts_def)
    qed
  next
    case BrowserSpeaks
    with Cons.IH [of w] show ?thesis by (simp add: io_bind_def io_ret_def cuts_def)
  qed (simp_all add: io_bind_def io_seq_def quiet_eq io_ret_def close text_frames_def cuts_def)
qed (simp add: io_ret_def text_frames_def cuts_def)

lemma relay_fst: "\<exists>n. fst (relay X h f es w) = Inr n"
proof (induction es arbitrary: w)
  case (Cons e es)
  then show ?case
    by (cases e) (auto simp: io_bind_def io_seq_def io_try_def io_ret_def quiet_eq split: prod.split sum.split)
qed (simp add: io_ret_def)

lemma stream_body_fst: "\<exists>hs. fst (stream_body X S r conn start f w) = Inr hs"
proof -
  have "\<exists>hs. fst (io_bind (stream_events X conn h) (\<lambda>es. io_bind (relay X h f es) (\<lambda>n.
      io_seq (quiet (wire X (StreamClose h))) (io_ret (replicate n h)))) v) = Inr hs" for h v
  proof -
    obtain es u where "stream_events X conn h v = (Inr es, u)"
      by (cases "x_streamEvents X conn h (w_ext v)") (simp add: stream_events_def)
    moreover obtain n t where "relay X h f es u = (Inr n, t)" using relay_fst [of X h f es u] by (metis prod.collapse)
    ultimately show ?thesis by (simp add: io_bind_def io_seq_def quiet_eq io_ret_def)
  qed
  then show ?thesis
    by (simp add: stream_body_def io_bind_try say_def quiet_eq io_seq_quiet io_ret_def split: sum.split prod.split)
qed

lemma stream_end_rec:
  assumes "wire_logged X rec"
  shows "fst (stream_end X conn hs w) = Inr (101, ()) \<and>
    rec (w_ext (snd (stream_end X conn hs w))) = rec (w_ext w) @ WsClose conn # map StreamClose hs"
proof -
  let ?m = "io_foreach (\<lambda>h. quiet (wire X (StreamClose h))) hs :: ('a, unit) web"
  have m: "fst (?m v) = Inr () \<and> rec (w_ext (snd (?m v))) = rec (w_ext v) @ map StreamClose hs" for v
    by (induction hs arbitrary: v) (simp_all add: io_ret_def io_seq_quiet wire_rec [OF assms])
  show ?thesis
    by (simp add: stream_end_def io_seq_quiet io_seq_unit [where m = ?m, OF conjunct1 [OF m]] m wire_rec [OF assms]
        writeJSON_def io_ret_def)
qed

lemma stream_closes:
  assumes "wire_logged X rec"
  shows "fst (io_bind (stream_body X S r conn start f) (stream_end X conn) w) = Inr (101, ())"
    "WsClose conn \<in> set (rec (w_ext (snd (io_bind (stream_body X S r conn start f) (stream_end X conn) w))))"
proof -
  obtain hs v where "stream_body X S r conn start f w = (Inr hs, v)"
    using stream_body_fst [of X S r conn start f w] by (metis prod.collapse)
  with stream_end_rec [OF assms, of conn hs v]
  show "fst (io_bind (stream_body X S r conn start f) (stream_end X conn) w) = Inr (101, ())"
    "WsClose conn \<in> set (rec (w_ext (snd (io_bind (stream_body X S r conn start f) (stream_end X conn) w))))"
    by (simp_all add: io_bind_def)
qed

lemma stream_copied:
  assumes rec: "wire_logged X rec" and "clientFor X S r w1 = (Inr cli, w2)" "start cli w2 = (Inr h, w3)"
    and "stream_events X conn h w3 = (Inr es, w4)" and f: "copies X conn f"
  defines "rs \<equiv> outcomes X conn (delivered es) w4"
  shows "\<exists>v. io_bind (stream_body X S r conn start f) (stream_end X conn) w1 = (Inr (101, ()), v) \<and>
    rec (w_ext v) = rec (w_ext w4) @ text_frames conn (tried rs (delivered es)) @ (if cuts rs es then [StreamClose h] else []) @
      [StreamClose h, WsClose conn] @ replicate (if cuts rs es then 1 else 2) (StreamClose h)"
proof -
  note k = relay_rec [OF rec f, of h es w4, folded rs_def]
  let ?n = "if cuts rs es then 1 else 2 :: nat" and ?v = "snd (wire X (StreamClose h) (snd (relay X h f es w4)))"
  have "stream_body X S r conn start f w1 = (Inr (replicate ?n h), ?v)"
    using conjunct1 [OF k] assms(2-4)
    by (cases "relay X h f es w4") (simp add: stream_body_def io_bind_try, simp add: io_bind_def io_seq_def quiet_eq io_ret_def)
  then have b: "io_bind (stream_body X S r conn start f) (stream_end X conn) w1 = stream_end X conn (replicate ?n h) ?v"
    by (simp add: io_bind_def)
  from stream_end_rec [OF rec, of conn "replicate ?n h" ?v] conjunct2 [OF k] show ?thesis
    unfolding b
    by (intro exI [of _ "snd (stream_end X conn (replicate ?n h) ?v)"]) (simp add: prod_eq_iff wire_rec [OF rec])
qed

lemma copies_frames:
  "copies X conn (wsWriter_Write X conn)" "copies X conn (\<lambda>p. wire X (WsWrite conn (TextFrame p)))"
  by (auto simp: copies_def wsWriter_Write_def io_seq_def io_bind_def io_ret_def split: prod.split sum.split)

text \<open>
  C31: a log or a statistics stream is copied in order until it ends, the browser goes, the request is
  over or a write fails.  Once the connection and the stream are open, the handler sends what the stream
  delivers before a goroutine closes it as text frames, in order and without gaps, up to and including
  the first whose write fails, and all of it when no write fails.  Then it closes the stream and the connection.
  The stream is closed once by the handler and once by each of the two goroutines, which therefore both end;
  a goroutine closes it before the handler exactly when the browser goes or the request is over and no
  write failed before.
\<close>

theorem stream_is_copied:
  assumes "wire_logged X rec" "upgrade X w = (Inr conn, w1)" "clientFor X S r w1 = (Inr cli, w2)"
    and "Logs X cli (rq_param r ''id'') True w2 = (Inr h, w3) \<and> hnd = handleLogs X S r \<or>
         Stats X cli (rq_param r ''id'') True w2 = (Inr h, w3) \<and> hnd = handleStats X S r"
    and "stream_events X conn h w3 = (Inr es, w4)"
  shows "let rs = outcomes X conn (delivered es) w4; cut = cut_short es \<and> set rs \<subseteq> {Inr ()} in
    fst (hnd w) = Inr (101, ()) \<and>
    rec (w_ext (snd (hnd w))) = rec (w_ext w4) @ text_frames conn (tried rs (delivered es)) @
      (if cut then [StreamClose h] else []) @ [StreamClose h, WsClose conn] @ replicate (if cut then 1 else 2) (StreamClose h)"
proof -
  let ?rs = "outcomes X conn (delivered es) w4"
  have "\<exists>v. hnd w = (Inr (101, ()), v) \<and>
    rec (w_ext v) = rec (w_ext w4) @ text_frames conn (tried ?rs (delivered es)) @ (if cuts ?rs es then [StreamClose h] else []) @
      [StreamClose h, WsClose conn] @ replicate (if cuts ?rs es then 1 else 2) (StreamClose h)"
    using assms(4)
  proof (elim disjE conjE)
    assume l: "Logs X cli (rq_param r ''id'') True w2 = (Inr h, w3)" and h: "hnd = handleLogs X S r"
    have "hnd w = io_bind (stream_body X S r conn (\<lambda>cli. Logs X cli (rq_param r ''id'') True) (wsWriter_Write X conn))
        (stream_end X conn) w1"
      using assms(2) by (simp add: h handleLogs_def io_bind_def [where m = "upgrade X"])
    then show ?thesis
      by (simp only:) (rule stream_copied [where start = "\<lambda>cli. Logs X cli (rq_param r ''id'') True", OF assms(1,3) l assms(5)
          copies_frames(1)])
  next
    assume l: "Stats X cli (rq_param r ''id'') True w2 = (Inr h, w3)" and h: "hnd = handleStats X S r"
    have "hnd w = io_bind (stream_body X S r conn (\<lambda>cli. Stats X cli (rq_param r ''id'') True)
        (\<lambda>raw. wire X (WsWrite conn (TextFrame raw)))) (stream_end X conn) w1"
      using assms(2) by (simp add: h handleStats_def io_bind_def [where m = "upgrade X"])
    then show ?thesis
      by (simp only:) (rule stream_copied [where start = "\<lambda>cli. Stats X cli (rq_param r ''id'') True", OF assms(1,3) l assms(5)
          copies_frames(2)])
  qed
  then show ?thesis unfolding Let_def cuts_def by (metis fst_conv snd_conv)
qed

text \<open>A member's session on the concrete outside, for the witnesses.\<close>

lemma sim_wire_logged [simp]: "wire_logged sim_ext sm_wire"
  by (simp add: wire_logged_def sim_ext_def io_modify_def)

lemma sim_wire_works [simp]: "wire_works sim_ext"
  by (simp add: wire_works_def sim_ext_def io_modify_def)

definition local_request :: request where
  "local_request = \<lparr>rq_header = (\<lambda>_. ''''), rq_query = (\<lambda>_. ''''), rq_param = (\<lambda>_. ''c1''), rq_principal = no_principal\<rparr>"

lemma local_client [simp]: "clientFor sim_ext sim_server local_request w = (Inr sim_local, w)"
  by (simp add: clientFor_def endpointID_def local_request_def ClientFor_def sim_server_def io_ret_def)

lemma sim_upgrade [simp]: "upgrade sim_ext w = (Inr 7, w)"
  by (simp add: upgrade_def sim_ext_def io_ret_def)

theorem stream_is_copied_witness:
  "sm_wire (w_ext (snd (handleLogs sim_ext sim_server local_request (sim_world db_empty)))) =
     [WsWrite 7 (TextFrame ''started''), WsWrite 7 (TextFrame ''ready''), StreamClose 1, StreamClose 1, WsClose 7, StreamClose 1]"
proof -
  let ?w = "sim_world db_empty"
  let ?es = "[Piece ''started'', BrowserSpeaks, Piece ''ready'', BrowserLeft, Piece ''late'']"
  have l: "Logs sim_ext sim_local (rq_param local_request ''id'') True ?w = (Inr 1, ?w)"
    by (simp add: Logs_def ext_def sim_docker_def io_ret_def)
  have e: "stream_events sim_ext 7 1 ?w = (Inr ?es, ?w)" by (simp add: stream_events_def sim_ext_def)
  have "sm_wire (w_ext ?w) = []" by (simp add: sim_world_def sim_empty_def)
  moreover have "outcomes sim_ext 7 (delivered ?es) ?w = [Inr (), Inr ()]" by code_simp
  ultimately show ?thesis
    using stream_is_copied [OF sim_wire_logged sim_upgrade local_client _ e, where w = ?w
      and hnd = "handleLogs sim_ext sim_server local_request"] l
    by (simp add: text_frames_def Let_def tried_def)
qed

text \<open>
  C24: a shell session relays what is typed and printed, in order.  If no write fails, the shell
  gets exactly the binary messages the browser sent before it was gone, and the browser gets exactly
  what the shell printed before it ended; otherwise both get prefixes of that.  Text messages never
  reach the shell: they only resize the terminal, to a positive number of columns.  When the session
  is over, both connections were closed.
\<close>

theorem shell_session_relays:
  assumes "wire_logged X rec"
  shows "\<exists>as. rec (w_ext (snd (session X cli execID conn hij True es w))) = rec (w_ext w) @ as \<and>
    prefix (to_shell hij as) (typed es) \<and> prefix (to_browser conn as) (printed es) \<and>
    (wire_works X \<longrightarrow> to_shell hij as = typed es \<and> to_browser conn as = printed es) \<and>
    resized X cli execID es as \<and> HijackClose hij \<in> set as \<and> WsClose conn \<in> set as"
  using session_rec [OF assms, of cli execID conn hij True es w] by (auto simp: relayed_def)

theorem shell_session_relays_witness:
  "let es = [BrowserSends (BinaryFrame ''ls''), ShellOutput ''a b'', BrowserSends (TextFrame ''x''), BrowserGone];
       as = sm_wire (w_ext (snd (session sim_ext sim_local ''x'' 7 2 True es (sim_world db_empty))))
   in to_shell 2 as = [''ls''] \<and> to_browser 7 as = [''a b''] \<and> WsClose 7 \<in> set as"
proof -
  let ?es = "[BrowserSends (BinaryFrame ''ls''), ShellOutput ''a b'', BrowserSends (TextFrame ''x''), BrowserGone]"
  have "sm_wire (w_ext (sim_world db_empty)) = []" by (simp add: sim_world_def sim_empty_def)
  with shell_session_relays [OF sim_wire_logged, of sim_local "''x''" 7 2 ?es "sim_world db_empty"]
  show ?thesis by (auto simp: Let_def)
qed

section \<open>No connection is left open\<close>

text \<open>
  C20: no WebSocket connection is left open.  Whatever goes wrong after the upgrade (no such
  environment, no such container, a failed write, a browser that disappears), the handler of a log, of
  statistics or of a shell returns, and it has closed the connection; a failed upgrade answers with its
  own error.
\<close>

theorem websockets_are_closed:
  assumes "wire_logged X rec" "hnd \<in> {handleLogs X S r, handleStats X S r, handleExec X S r}"
  shows "case upgrade X w of
      (Inl e, w1) \<Rightarrow> hnd w = (Inl e, w1)
    | (Inr conn, w1) \<Rightarrow> fst (hnd w) = Inr (101, ()) \<and> WsClose conn \<in> set (rec (w_ext (snd (hnd w))))"
proof -
  note step = wire_rec [OF assms(1)]
  obtain q w1 where u: "upgrade X w = (q, w1)" by (cases "upgrade X w")
  have close: "fst (io_seq m (io_seq (quiet (wire X (WsClose conn))) (writeJSON 101 ())) v) = Inr (101, ()) \<and>
      WsClose conn \<in> set (rec (w_ext (snd (io_seq m (io_seq (quiet (wire X (WsClose conn))) (writeJSON 101 ())) v))))"
    if "fst (m v) = Inr ()" for m :: "('a, unit) web" and v conn
    by (simp add: io_seq_unit [where m = m, OF that] io_seq_quiet step writeJSON_def io_ret_def)
  show ?thesis
  proof (cases q)
    case (Inl e)
    with assms(2) u show ?thesis by (auto simp: handleLogs_def handleStats_def handleExec_def io_bind_def)
  next
    case (Inr conn)
    let ?ex = "handleExec X S r w"
    have "fst ?ex = Inr (101, ()) \<and> WsClose conn \<in> set (rec (w_ext (snd ?ex)))"
    proof -
      have run: "fst (io_seq (session X cli x conn hij True es) (writeJSON 101 ()) v) = Inr (101, ()) \<and>
          WsClose conn \<in> set (rec (w_ext (snd (io_seq (session X cli x conn hij True es) (writeJSON 101 ()) v))))"
        for cli x hij es v
      proof -
        have f: "fst (session X cli x conn hij True es v) = Inr ()"
          and m: "WsClose conn \<in> set (rec (w_ext (snd (session X cli x conn hij True es v))))"
          using session_rec [OF assms(1), of cli x conn hij True es v] by (auto simp: relayed_def)
        show ?thesis
          using m by (simp add: io_seq_unit [where m = "session X cli x conn hij True es", OF f] writeJSON_def io_ret_def)
      qed
      have "fst (say X conn m v) = Inr ()" for m v by (simp add: say_def quiet_eq)
      note said = close [OF this]
      show ?thesis
        using u Inr
        by (auto simp: handleExec_def io_bind_def [where m = "upgrade X"] Let_def io_bind_try said
            io_bind_def [where m = "session_events X conn _"] session_events_def run
            split: sum.split prod.split)
    qed
    with assms(2) u Inr show ?thesis
      by (auto simp: handleLogs_def handleStats_def io_bind_def [where m = "upgrade X"] stream_closes [OF assms(1)])
  qed
qed

theorem websockets_are_closed_witness:
  "WsClose 7 \<in> set (sm_wire (w_ext (snd (handleExec sim_ext sim_server local_request (sim_world db_empty)))))"
  using websockets_are_closed [OF sim_wire_logged, of "handleExec sim_ext sim_server local_request" sim_server local_request
      "sim_world db_empty"] by simp

end
