(* ===== verification/Api.thy ===== *)
theory Api
  imports ApiViews Streams
begin

text \<open>
  The routing table of \<^verbatim>\<open>internal/api/server.go\<close>: one constructor of \<^verbatim>\<open>api_call\<close> per route,
  with its decoded body, the group of middleware it is registered in, and its handler.  The
  request timeout and the recovery of panics, which wrap every route, are not modelled.
\<close>

section \<open>Routes\<close>

text \<open>The groups: no session; any session; the ownership guards; administrators.\<close>

datatype access = Public | Session | OwnContainer | OwnVolume | OwnNetwork | OwnRegistry | Admin

text \<open>Named by the method and the resource of the route.\<close>

datatype public_call =
    GetHealth
  | PostLogin "goerr + login_body"
  | PostHook

datatype service_call =
    GetServices
  | PostService "goerr + service_body"
  | GetServiceByName
  | PutService "goerr + service_body"
  | PostScale "goerr + int"
  | PostRedeploy "string"
  | PostSubdomain "goerr + string"
  | DelService

datatype session_call =
    GetMe
  | PostRequest "goerr + request_body"
  | GetRequests
  | GetEndpoints
  | GetEndpointStatus
  | GetContainers
  | GetVolumes
  | GetVolumeUsage
  | GetVolumeNames
  | PostVolume "goerr + volume_body"
  | GetNetworks
  | PostNetwork "goerr + (string \<times> string)"
  | GetRegistries
  | PostRegistry "goerr + registry_body"
  | PostRegistryTest "goerr + registry_body"

datatype container_call =
    GetContainer
  | PostStart
  | PostStop
  | PostRestart
  | PutContainer "goerr + deploy_body"
  | PostUpdate "string"
  | DelContainer
  | GetLogs
  | GetStats
  | GetExec

datatype volume_call =
    GetVolume
  | PostResize "goerr + int"
  | GetBrowse
  | PostMkdir "goerr + string"
  | PostUpload "goerr + (string \<times> (goerr + string) \<times> int) option"
  | GetDownload
  | DelVolumeFile
  | DelVolume

datatype network_call =
    GetNetwork
  | DelNetwork
  | PostConnect "goerr + string"
  | PostDisconnect "goerr + string"

datatype registry_call =
    DelRegistry
  | GetCatalog
  | GetTags

datatype account_call =
    GetUsers
  | PostUser "goerr + create_user_body"
  | PutQuota "goerr + quota_body"
  | PutRole "goerr + string"
  | PutPassword "goerr + string"
  | GetEnvironments
  | PutEnvironments "goerr + endpoint_grant list"
  | DelUser
  | PostReview "goerr + review_body"

datatype host_call =
    GetImages
  | PostEndpoint "goerr + endpoint_body"
  | PutEndpoint "goerr + endpoint_body"
  | DelEndpoint
  | GetEdge
  | PostEdge "int"
  | DelEdge
  | DelImage

datatype proxy_call =
    GetRoutes
  | PostRoute "goerr + route"
  | DelRoute
  | GetPublicIP
  | GetTunnels
  | PostTunnel "goerr + tunnel"
  | PostTunnelStart
  | PostTunnelStop
  | DelTunnel

datatype api_call =
    Open public_call
  | Services service_call
  | Member session_call
  | Container container_call
  | Volume volume_call
  | Network network_call
  | Registry registry_call
  | Accounts account_call
  | Hosts host_call
  | Exposure proxy_call

fun access_of :: "api_call \<Rightarrow> access" where
  "access_of (Open c) = Public"
| "access_of (Services c) = Session"
| "access_of (Member c) = Session"
| "access_of (Container c) = OwnContainer"
| "access_of (Volume c) = OwnVolume"
| "access_of (Network c) = OwnNetwork"
| "access_of (Registry c) = OwnRegistry"
| "access_of (Accounts c) = Admin"
| "access_of (Hosts c) = Admin"
| "access_of (Exposure c) = Admin"

text \<open>What the handlers encode.\<close>

datatype payload =
    RText "string"
  | RUpgraded
  | RInt "int"
  | RHealth "bool \<times> string"
  | RStatus "bool \<times> string"
  | RLogin "string \<times> string \<times> string"
  | RMe "me_view"
  | RUsers "user list"
  | RUser "user"
  | RRequest "resource_request"
  | RRequests "resource_request list"
  | RReview "review_reply"
  | RServices "service_view list"
  | RService "service_view"
  | RContainers "summary list"
  | RContainer "inspect"
  | RVolumes "volume_view list"
  | RVolume "volume"
  | RUsage "string \<rightharpoonup> usage_data"
  | RNames "string list"
  | RFiles "vol_file list"
  | RDownload "vol_download"
  | RNetworks "network list"
  | RNetwork "network"
  | RRegistries "registry list"
  | RRegistry "registry"
  | RGrants "endpoint_grant list"
  | REndpoints "endpoint_view list"
  | REndpoint "endpoint_view"
  | REdge "edge_status"
  | RRoutes "route list"
  | RRoute "route"
  | RTunnels "(tunnel \<times> bool) list"
  | RTunnel "tunnel"

definition reply :: "('b \<Rightarrow> payload) \<Rightarrow> ('e, 'b) handler \<Rightarrow> ('e, payload) handler" where
  "reply f h r = io_bind (h r) (\<lambda>(status, v). io_ret (status, f v))"

fun handle_public :: "'e ext \<Rightarrow> server \<Rightarrow> public_call \<Rightarrow> ('e, payload) handler" where
  "handle_public X S GetHealth = reply RHealth (handleHealth X S)"
| "handle_public X S (PostLogin b) = reply RLogin (handleLogin X S b)"
| "handle_public X S PostHook = reply RText (handleWebhook X S)"

fun handle_service :: "'e ext \<Rightarrow> server \<Rightarrow> service_call \<Rightarrow> ('e, payload) handler" where
  "handle_service X S GetServices = reply RServices (handleListServices X S)"
| "handle_service X S (PostService b) = reply RService (handleCreateService X S b)"
| "handle_service X S GetServiceByName = reply RService (handleGetService X S)"
| "handle_service X S (PutService b) = reply RService (handleUpdateService X S b)"
| "handle_service X S (PostScale b) = reply RInt (handleScaleService X S b)"
| "handle_service X S (PostRedeploy b) = reply RText (handleRedeployService X S b)"
| "handle_service X S (PostSubdomain b) = reply RService (handleSetServiceSubdomain X S b)"
| "handle_service X S DelService = reply RText (handleDeleteService X S)"

fun handle_session :: "'e ext \<Rightarrow> server \<Rightarrow> session_call \<Rightarrow> ('e, payload) handler" where
  "handle_session X S GetMe = reply RMe (handleMe X S)"
| "handle_session X S (PostRequest b) = reply RRequest (handleCreateRequest X b)"
| "handle_session X S GetRequests = reply RRequests (handleListRequests X)"
| "handle_session X S GetEndpoints = reply REndpoints (handleListEndpoints X)"
| "handle_session X S GetEndpointStatus = reply RStatus (handleEndpointStatus X S)"
| "handle_session X S GetContainers = reply RContainers (handleListContainers X S)"
| "handle_session X S GetVolumes = reply RVolumes (handleListVolumes X S)"
| "handle_session X S GetVolumeUsage = reply RUsage (handleVolumeUsage X S)"
| "handle_session X S GetVolumeNames = reply RNames (handleVolumeNames X S)"
| "handle_session X S (PostVolume b) = reply RVolume (handleCreateVolume X S b)"
| "handle_session X S GetNetworks = reply RNetworks (handleListNetworks X S)"
| "handle_session X S (PostNetwork b) = reply RText (handleCreateNetwork X S b)"
| "handle_session X S GetRegistries = reply RRegistries (handleListRegistries X)"
| "handle_session X S (PostRegistry b) = reply RRegistry (handleCreateRegistry X S b)"
| "handle_session X S (PostRegistryTest b) = reply RText (handleTestRegistry X b)"

fun handle_container :: "'e ext \<Rightarrow> server \<Rightarrow> container_call \<Rightarrow> ('e, payload) handler" where
  "handle_container X S GetContainer = reply RContainer (handleInspectContainer X S)"
| "handle_container X S PostStart = reply RText (handleContainerAction ContainerStart X S)"
| "handle_container X S PostStop = reply RText (handleContainerAction ContainerStop X S)"
| "handle_container X S PostRestart = reply RText (handleContainerAction ContainerRestart X S)"
| "handle_container X S (PutContainer b) = reply RText (handleEditContainer X S b)"
| "handle_container X S (PostUpdate b) = reply RText (handleUpdateContainer X S b)"
| "handle_container X S DelContainer = reply RText (handleContainerAction ContainerRemove X S)"
| "handle_container X S GetLogs = reply (\<lambda>_. RUpgraded) (handleLogs X S)"
| "handle_container X S GetStats = reply (\<lambda>_. RUpgraded) (handleStats X S)"
| "handle_container X S GetExec = reply (\<lambda>_. RUpgraded) (handleExec X S)"

fun handle_volume :: "'e ext \<Rightarrow> server \<Rightarrow> volume_call \<Rightarrow> ('e, payload) handler" where
  "handle_volume X S GetVolume = reply RVolume (handleInspectVolume X S)"
| "handle_volume X S (PostResize b) = reply RInt (handleResizeVolume X b)"
| "handle_volume X S GetBrowse = reply RFiles (handleBrowseVolume X S)"
| "handle_volume X S (PostMkdir b) = reply RText (handleMkdirVolume X S b)"
| "handle_volume X S (PostUpload b) = reply RText (handleUploadVolume X S b)"
| "handle_volume X S GetDownload = reply RDownload (handleDownloadVolume X S)"
| "handle_volume X S DelVolumeFile = reply RText (handleDeleteVolumeFile X S)"
| "handle_volume X S DelVolume = reply RText (handleRemoveVolume X S)"

fun handle_network :: "'e ext \<Rightarrow> server \<Rightarrow> network_call \<Rightarrow> ('e, payload) handler" where
  "handle_network X S GetNetwork = reply RNetwork (handleInspectNetwork X S)"
| "handle_network X S DelNetwork = reply RText (handleRemoveNetwork X S)"
| "handle_network X S (PostConnect b) = reply RText (handleConnectNetwork X S b)"
| "handle_network X S (PostDisconnect b) = reply RText (handleDisconnectNetwork X S b)"

fun handle_registry :: "'e ext \<Rightarrow> server \<Rightarrow> registry_call \<Rightarrow> ('e, payload) handler" where
  "handle_registry X S DelRegistry = reply RText (handleDeleteRegistry X)"
| "handle_registry X S GetCatalog = reply RNames (handleRegistryCatalog X S)"
| "handle_registry X S GetTags = reply RNames (handleRegistryTags X S)"

fun handle_account :: "'e ext \<Rightarrow> server \<Rightarrow> account_call \<Rightarrow> ('e, payload) handler" where
  "handle_account X S GetUsers = reply RUsers (handleListUsers X)"
| "handle_account X S (PostUser b) = reply RUser (handleCreateUser X b)"
| "handle_account X S (PutQuota b) = reply RText (handleUpdateUserQuota X b)"
| "handle_account X S (PutRole b) = reply RText (handleSetUserRole X b)"
| "handle_account X S (PutPassword b) = reply RText (handleResetPassword X b)"
| "handle_account X S GetEnvironments = reply RGrants (handleGetUserEnvironments X)"
| "handle_account X S (PutEnvironments b) = reply RText (handleSetUserEnvironments X b)"
| "handle_account X S DelUser = reply RText (handleDeleteUser X)"
| "handle_account X S (PostReview b) = reply RReview (handleReviewRequest X b)"

fun handle_host :: "'e ext \<Rightarrow> server \<Rightarrow> host_call \<Rightarrow> ('e, payload) handler" where
  "handle_host X S GetImages = reply RNames (handleListImages X S)"
| "handle_host X S (PostEndpoint b) = reply REndpoint (handleCreateEndpoint X S b)"
| "handle_host X S (PutEndpoint b) = reply REndpoint (handleUpdateEndpoint X S b)"
| "handle_host X S DelEndpoint = reply RText (handleDeleteEndpoint X)"
| "handle_host X S GetEdge = reply REdge (handleEdgeStatus X S)"
| "handle_host X S (PostEdge b) = reply REdge (handleDeployEdge X S b)"
| "handle_host X S DelEdge = reply RText (handleRemoveEdge X S)"
| "handle_host X S DelImage = reply RText (handleRemoveImage X S)"

fun handle_proxy :: "'e ext \<Rightarrow> server \<Rightarrow> proxy_call \<Rightarrow> ('e, payload) handler" where
  "handle_proxy X S GetRoutes = reply RRoutes (handleListRoutes X)"
| "handle_proxy X S (PostRoute b) = reply RRoute (handleUpsertRoute X S b)"
| "handle_proxy X S DelRoute = reply RText (handleDeleteRoute X S)"
| "handle_proxy X S GetPublicIP = reply RText (handlePublicIP X S)"
| "handle_proxy X S GetTunnels = reply RTunnels (handleListTunnels X)"
| "handle_proxy X S (PostTunnel b) = reply RTunnel (handleCreateTunnel X b)"
| "handle_proxy X S PostTunnelStart = reply RText (handleStartTunnel X S)"
| "handle_proxy X S PostTunnelStop = reply RText (handleStopTunnel X)"
| "handle_proxy X S DelTunnel = reply RText (handleDeleteTunnel X)"

fun handle :: "'e ext \<Rightarrow> server \<Rightarrow> api_call \<Rightarrow> ('e, payload) handler" where
  "handle X S (Open c) = handle_public X S c"
| "handle X S (Services c) = handle_service X S c"
| "handle X S (Member c) = handle_session X S c"
| "handle X S (Container c) = handle_container X S c"
| "handle X S (Volume c) = handle_volume X S c"
| "handle X S (Network c) = handle_network X S c"
| "handle X S (Registry c) = handle_registry X S c"
| "handle X S (Accounts c) = handle_account X S c"
| "handle X S (Hosts c) = handle_host X S c"
| "handle X S (Exposure c) = handle_proxy X S c"

section \<open>Middleware\<close>

definition guarded :: "'e ext \<Rightarrow> server \<Rightarrow> access \<Rightarrow> ('e, 'a) handler \<Rightarrow> ('e, 'a) handler" where
  "guarded X S a h = (case a of
       OwnContainer \<Rightarrow> requireContainerOwner X S h
     | OwnVolume \<Rightarrow> requireVolumeOwner X S h
     | OwnNetwork \<Rightarrow> requireNetworkOwner X S h
     | OwnRegistry \<Rightarrow> requireRegistryOwner X h
     | Admin \<Rightarrow> RequireAdmin h
     | _ \<Rightarrow> h)"

definition serve :: "'e ext \<Rightarrow> server \<Rightarrow> api_call \<Rightarrow> ('e, payload) handler" where
  "serve X S c =
     (let a = access_of c; h = handle X S c in
      if a = Public then h else Middleware X S (requireEndpointAccess X (guarded X S a h)))"

end
