(* ===== verification/Integrity.thy ===== *)
theory Integrity
  imports Api
begin

text \<open>
  What no request can break.  Three contracts of a property of the server are locales.  A property
  of \<^verbatim>\<open>server_frame\<close> survives the calls to the outside, a publication, and the statements that touch
  neither what is published nor accounts, grants, services and tunnels (rows of requests and registries may be added); inside it every handler
  that does nothing else keeps the property.  A property of \<^verbatim>\<open>server_calm\<close> also survives every other statement
  that does not touch what is published (environments, routes, and the published part of services), and one of
  \<^verbatim>\<open>server_inv\<close> every statement of the store and the updates of the server's own tables
  (\<^verbatim>\<open>kept\<close> is what editing an environment needs besides), so every route keeps it.  Each contract gives the
  one before it.  The last one is interpreted on the integrity of the database and on the coherence of the client cache, the second, in theory
  Published, on the published configuration, the first, in theory Confine, on what does not belong to a member.
\<close>

section \<open>Statements\<close>

text \<open>A change of the database that keeps its integrity and loses no environment row.\<close>

definition safe_change :: "(db \<Rightarrow> db) \<Rightarrow> bool" where
  "safe_change f \<longleftrightarrow> (\<forall>d. db_ok d \<longrightarrow> db_ok (f d)) \<and> (\<forall>d. set (db_endpoints d) \<subseteq> set (db_endpoints (f d)))"

definition safe :: "'a stmt \<Rightarrow> bool" where
  "safe q \<longleftrightarrow> safe_change (\<lambda>d. snd (q d))"

named_theorems safe_stmt \<open>the statements of the store are safe\<close>

lemma safeI:
  "io_keeps db_ok q \<Longrightarrow> (\<And>d. set (db_endpoints d) \<subseteq> set (db_endpoints (snd (q d)))) \<Longrightarrow> safe q"
  by (simp add: safe_def safe_change_def io_keeps_def)

lemma safe_same: "io_keeps db_ok q \<Longrightarrow> (\<And>d. db_endpoints (snd (q d)) = db_endpoints d) \<Longrightarrow> safe q"
  by (rule safeI) simp_all

lemma reads_stay [simp]:
  "snd (ListRoutes d) = d" "snd (ListTunnels d) = d" "snd (ListRegistries ow d) = d" "snd (GetRegistry i d) = d"
  "snd (CountUsers d) = d" "snd (CountAdmins d) = d" "snd (GetUserByUsername n d) = d" "snd (GetUserByID i d) = d"
  "snd (ListUsers d) = d" "snd (GetRequest i d) = d" "snd (ListRequests st i d) = d" "snd (GetEndpoint i d) = d"
  "snd (ListEndpoints d) = d" "snd (GetUserEndpointIDs i d) = d" "snd (GetUserEndpoints i d) = d"
  "snd (UserHasEndpoint i j d) = d" "snd (GetUserEndpointQuota i j d) = d" "snd (GetService n d) = d"
  "snd (GetServiceByToken n d) = d" "snd (ListServices n d) = d" "snd (ListVolumeSizes i d) = d"
  "snd (OwnerDiskUsageMB i n m d) = d"
  by (simp_all add: ListRoutes_def ListTunnels_def ListRegistries_def GetRegistry_def CountUsers_def CountAdmins_def
      GetUserByUsername_def GetUserByID_def ListUsers_def GetRequest_def ListRequests_def GetEndpoint_def
      ListEndpoints_def GetUserEndpointIDs_def GetUserEndpoints_def UserHasEndpoint_def
      GetUserEndpointQuota_def GetService_def GetServiceByToken_def ListServices_def ListVolumeSizes_def
      OwnerDiskUsageMB_def Let_def split: option.split)

lemma safe_read: "(\<And>d. snd (q d) = d) \<Longrightarrow> safe q"
  by (simp add: safe_def safe_change_def)

lemma safe_reads [safe_stmt]:
  "safe ListRoutes" "safe ListTunnels" "safe (ListRegistries ow)" "safe (GetRegistry i)" "safe CountUsers"
  "safe CountAdmins" "safe (GetUserByUsername n)" "safe (GetUserByID i)" "safe ListUsers" "safe (GetRequest i)"
  "safe (ListRequests st i)" "safe (GetEndpoint i)" "safe ListEndpoints" "safe (GetUserEndpointIDs i)"
  "safe (GetUserEndpoints i)" "safe (UserHasEndpoint i j)" "safe (GetUserEndpointQuota i j)" "safe (GetService n)"
  "safe (GetServiceByToken n)" "safe (ListServices n)" "safe (ListVolumeSizes i)" "safe (OwnerDiskUsageMB i n m)"
  by (rule safe_read, simp)+

lemma safe_writes [safe_stmt]:
  "safe (UpsertRoute r)" "safe (DeleteRoute n)" "safe (InsertTunnel t)" "safe (SetTunnelEnabled i b)"
  "safe (DeleteTunnel i)" "safe (InsertRegistry g)" "safe (DeleteRegistry i)" "safe (CreateUser u)"
  "safe (UpdateUserQuota i j j2 j3)" "safe (SetUserPassword i n4)" "safe (SetUserRole i n)" "safe (DeleteUser i)"
  "safe (CreateRequest rr)" "safe (ReviewRequest i n n2 n3)" "safe (CreateService s)" "safe (SetServiceReplicas i j)"
  "safe (UpdateService s)" "safe (SetServiceSubdomain i n)" "safe (SetServiceImage i n)" "safe (DeleteService i)"
  "safe (SetVolumeSize i n ow j)" "safe (DeleteVolumeSize i n)"
  by (rule safe_same, rule stmt_keeps,
      simp add: UpsertRoute_def DeleteRoute_def InsertTunnel_def SetTunnelEnabled_def DeleteTunnel_def
        InsertRegistry_def DeleteRegistry_def CreateUser_def UpdateUserQuota_def SetUserPassword_def
        SetUserRole_def DeleteUser_def CreateRequest_def ReviewRequest_def CreateService_def
        SetServiceReplicas_def UpdateService_def SetServiceSubdomain_def SetServiceImage_def
        DeleteService_def SetVolumeSize_def DeleteVolumeSize_def Let_def bump_seq_def)+

lemma InsertGrant_foreach_endpoints:
  "db_endpoints (snd (io_foreach (InsertGrant u) gs d)) = db_endpoints d"
proof (induction gs arbitrary: d)
  case (Cons g gs)
  then show ?case
    using InsertGrant_tables(2) [of u g d]
    by (cases "InsertGrant u g d") (simp add: io_seq_def io_bind_def split: sum.splits)
qed (simp add: io_ret_def)

lemma safe_grants [safe_stmt]: "safe (SetUserEndpoints u gs)" "safe (GrantUserEndpointQuota u e c m k)"
proof -
  have "db_endpoints (snd (SetUserEndpoints u gs d)) = db_endpoints d" for d
    using InsertGrant_foreach_endpoints [of u gs "snd (DeleteGrants u d)"]
    by (simp add: SetUserEndpoints_def in_txn_def io_seq_def io_bind_def DeleteGrants_def split: prod.splits sum.splits)
      (metis snd_conv)
  then show "safe (SetUserEndpoints u gs)" by (intro safe_same stmt_keeps)
  show "safe (GrantUserEndpointQuota u e c m k)"
    by (intro safe_same stmt_keeps) (simp add: GrantUserEndpointQuota_def InsertGrant_tables)
qed

text \<open>
  A statement is calm when it leaves alone what is published: the environments, the manual routes
  and, of the services, their names, subdomains, ports, replica counts and environments.
\<close>

definition routed_part :: "service \<Rightarrow> string \<times> string \<times> int \<times> int \<times> int" where
  "routed_part s = (sv_name s, sv_subdomain s, sv_containerPort s, sv_replicas s, sv_endpointID s)"

definition routing :: "db \<Rightarrow> endpoint list \<times> route list \<times> (string \<times> string \<times> int \<times> int \<times> int) list \<times> (string \<Rightarrow> string)" where
  "routing d = (db_endpoints d, db_routes d, map routed_part (db_services d), db_collate d)"

definition calm_change :: "(db \<Rightarrow> db) \<Rightarrow> bool" where
  "calm_change f \<longleftrightarrow> safe_change f \<and> (\<forall>d. routing (f d) = routing d)"

definition calm :: "'a stmt \<Rightarrow> bool" where
  "calm q \<longleftrightarrow> calm_change (\<lambda>d. snd (q d))"

named_theorems calm_stmt \<open>statements that leave alone what is published\<close>

lemma calmI: "safe q \<Longrightarrow> (\<And>d. routing (snd (q d)) = routing d) \<Longrightarrow> calm q"
  by (simp add: calm_def calm_change_def safe_def)

lemma routing_services [simp]:
  "map routed_part (upd_rows P f ss) = map routed_part ss" if "\<And>s. routed_part (f s) = routed_part s"
  using that by (induction ss) simp_all

lemma calm_read: "(\<And>d. snd (q d) = d) \<Longrightarrow> calm q"
  by (simp add: calm_def calm_change_def safe_change_def)

lemma calm_reads [calm_stmt]:
  "calm ListRoutes" "calm ListTunnels" "calm (ListRegistries ow)" "calm (GetRegistry i)" "calm CountUsers"
  "calm CountAdmins" "calm (GetUserByUsername n)" "calm (GetUserByID i)" "calm ListUsers" "calm (GetRequest i)"
  "calm (ListRequests st i)" "calm (GetEndpoint i)" "calm ListEndpoints" "calm (GetUserEndpointIDs i)"
  "calm (GetUserEndpoints i)" "calm (UserHasEndpoint i j)" "calm (GetUserEndpointQuota i j)" "calm (GetService n)"
  "calm (GetServiceByToken n)" "calm (ListServices n)" "calm (ListVolumeSizes i)" "calm (OwnerDiskUsageMB i n m)"
  by (rule calm_read, simp)+

lemma calm_writes [calm_stmt]:
  "calm (InsertTunnel t)" "calm (SetTunnelEnabled i b)" "calm (DeleteTunnel i)" "calm (InsertRegistry g)"
  "calm (DeleteRegistry i)" "calm (CreateUser u)" "calm (UpdateUserQuota i j j2 j3)" "calm (SetUserPassword i n4)"
  "calm (SetUserRole i n)" "calm (DeleteUser i)" "calm (CreateRequest rr)" "calm (ReviewRequest i n n2 n3)"
  "calm (SetServiceImage i n)" "calm (SetVolumeSize i n ow j)" "calm (DeleteVolumeSize i n)"
  by (rule calmI, rule safe_stmt,
      simp add: InsertTunnel_def SetTunnelEnabled_def DeleteTunnel_def InsertRegistry_def DeleteRegistry_def
        CreateUser_def UpdateUserQuota_def SetUserPassword_def SetUserRole_def DeleteUser_def CreateRequest_def
        ReviewRequest_def SetServiceImage_def SetVolumeSize_def DeleteVolumeSize_def Let_def bump_seq_def
        routing_def routed_part_def)+

lemma InsertGrant_routing: "routing (snd (InsertGrant u g d)) = routing d"
  by (simp add: InsertGrant_def routing_def)

lemma InsertGrant_foreach_routing: "routing (snd (io_foreach (InsertGrant u) gs d)) = routing d"
proof (induction gs arbitrary: d)
  case (Cons g gs)
  then show ?case
    using InsertGrant_routing [of u g d]
    by (cases "InsertGrant u g d") (simp add: io_seq_def io_bind_def split: sum.splits)
qed (simp add: io_ret_def)

lemma calm_grants [calm_stmt]: "calm (SetUserEndpoints u gs)" "calm (GrantUserEndpointQuota u e c m k)"
proof -
  have d: "routing (snd (DeleteGrants u d)) = routing d" for d by (simp add: DeleteGrants_def routing_def)
  have "routing (snd (SetUserEndpoints u gs d)) = routing d" for d
    using InsertGrant_foreach_routing [of u gs "snd (DeleteGrants u d)"] d [of d]
    by (cases "DeleteGrants u d") (auto simp: SetUserEndpoints_def in_txn_def io_seq_def io_bind_def split: prod.splits sum.splits)
  then show "calm (SetUserEndpoints u gs)" by (intro calmI safe_stmt)
  show "calm (GrantUserEndpointQuota u e c m k)"
    by (intro calmI safe_stmt) (simp add: GrantUserEndpointQuota_def InsertGrant_routing)
qed

text \<open>
  A calm statement is mild when it also leaves alone the accounts, the grants, the services and the
  tunnels, and takes no row from the requests and the registries.
\<close>

definition modest :: "db \<Rightarrow> db \<Rightarrow> bool" where
  "modest d d' \<longleftrightarrow> db_users d' = db_users d \<and> db_user_endpoints d' = db_user_endpoints d \<and>
     db_services d' = db_services d \<and> db_tunnels d' = db_tunnels d \<and>
     set (db_requests d) \<subseteq> set (db_requests d') \<and> set (db_registries d) \<subseteq> set (db_registries d')"

definition mild_change :: "(db \<Rightarrow> db) \<Rightarrow> bool" where
  "mild_change f \<longleftrightarrow> calm_change f \<and> (\<forall>d. modest d (f d))"

definition mild :: "'a stmt \<Rightarrow> bool" where
  "mild q \<longleftrightarrow> mild_change (\<lambda>d. snd (q d))"

named_theorems mild_stmt \<open>statements that leave alone what belongs to somebody\<close>

lemma mildI: "calm q \<Longrightarrow> (\<And>d. modest d (snd (q d))) \<Longrightarrow> mild q"
  by (simp add: mild_def mild_change_def calm_def)

lemma mild_read: "(\<And>d. snd (q d) = d) \<Longrightarrow> mild q"
  by (rule mildI, rule calm_read) (simp_all add: modest_def)

lemma mild_reads [mild_stmt]:
  "mild ListRoutes" "mild ListTunnels" "mild (ListRegistries ow)" "mild (GetRegistry i)" "mild CountUsers"
  "mild CountAdmins" "mild (GetUserByUsername n)" "mild (GetUserByID i)" "mild ListUsers" "mild (GetRequest i)"
  "mild (ListRequests st i)" "mild (GetEndpoint i)" "mild ListEndpoints" "mild (GetUserEndpointIDs i)"
  "mild (GetUserEndpoints i)" "mild (UserHasEndpoint i j)" "mild (GetUserEndpointQuota i j)" "mild (GetService n)"
  "mild (GetServiceByToken n)" "mild (ListServices n)" "mild (ListVolumeSizes i)" "mild (OwnerDiskUsageMB i n m)"
  by (rule mild_read, simp)+

lemma mild_writes [mild_stmt]:
  "mild (SetVolumeSize i n ow j)" "mild (DeleteVolumeSize i n)" "mild (CreateRequest rr)" "mild (InsertRegistry g)"
  by (rule mildI, rule calm_stmt,
      force simp: modest_def SetVolumeSize_def DeleteVolumeSize_def CreateRequest_def InsertRegistry_def Let_def bump_seq_def)+

lemma safe_create_endpoint [safe_stmt]: "safe (CreateEndpoint e)"
  by (intro safeI stmt_keeps) (auto simp: CreateEndpoint_def Let_def bump_seq_def)

lemma safe_write_grant [safe_stmt]: "safe (write_grant rr c m k)"
  by (simp add: write_grant_def safe_writes safe_grants)

lemma calm_write_grant [calm_stmt]: "calm (write_grant rr c m k)"
  by (simp add: write_grant_def calm_writes calm_grants)

section \<open>What a request may publish\<close>

text \<open>The requests that change an environment, a service or a route.\<close>

fun edits_environment :: "api_call \<Rightarrow> bool" where
  "edits_environment (Hosts (PostEndpoint b)) = True"
| "edits_environment (Hosts (PutEndpoint b)) = True"
| "edits_environment (Hosts DelEndpoint) = True"
| "edits_environment c = False"

fun edits_service :: "api_call \<Rightarrow> bool" where
  "edits_service (Services (PostService b)) = True"
| "edits_service (Services (PutService b)) = True"
| "edits_service (Services (PostSubdomain s)) = True"
| "edits_service (Services (PostScale k)) = True"
| "edits_service (Services DelService) = True"
| "edits_service c = False"

fun edits_route :: "api_call \<Rightarrow> bool" where
  "edits_route (Container (PutContainer b)) = True"
| "edits_route (Exposure (PostRoute b)) = True"
| "edits_route (Exposure DelRoute) = True"
| "edits_route c = False"

text \<open>The requests that change something else that belongs to somebody.\<close>

fun edits_more :: "api_call \<Rightarrow> bool" where
  "edits_more (Open PostHook) = True"
| "edits_more (Services (PostRedeploy img)) = True"
| "edits_more (Registry DelRegistry) = True"
| "edits_more (Accounts c) = True"
| "edits_more (Hosts c) = True"
| "edits_more (Exposure c) = True"
| "edits_more c = False"

definition publishes :: "api_call \<Rightarrow> bool" where
  "publishes c \<longleftrightarrow> edits_environment c \<or> edits_service c \<or> edits_route c"

section \<open>The contracts\<close>

named_theorems inv_keep \<open>operations that keep the server invariant at hand\<close>

text \<open>A statement keeps a property that its change of the database keeps, at any time and outside.\<close>

lemma sql_keeps_change:
  fixes I :: "'e world \<Rightarrow> bool"
  assumes ext: "ext_blind I"
    and step: "\<And>f w n e. C f \<Longrightarrow> I w \<Longrightarrow> I (w\<lparr>w_db := f ((w_db w)\<lparr>db_now := n\<rparr>), w_ext := e\<rparr>)"
    and q: "C (\<lambda>d. snd (q d))"
  shows "io_keeps I (sql X q)"
proof (rule io_keepsI)
  fix w
  assume I: "I w"
  then have e: "I (w\<lparr>w_ext := e\<rparr>)" for e using ext by (simp add: ext_blind_def)
  have "I (w\<lparr>w_db := snd (q ((w_db w)\<lparr>db_now := n\<rparr>)), w_ext := e\<rparr>)" for n e
    using step [OF q I] by simp
  with e show "I (snd (sql X q w))"
    by (auto simp: sql_def Let_def split: prod.splits fault.splits) (metis snd_conv)+
qed

locale server_frame =
  fixes X :: "'e ext" and S :: server and I :: "'e world \<Rightarrow> bool"
  assumes fr_stmt: "mild_change f \<Longrightarrow> I w \<Longrightarrow> I (w\<lparr>w_db := f ((w_db w)\<lparr>db_now := n\<rparr>), w_ext := e\<rparr>)"
    and fr_ext: "ext_blind I"
    and fr_helpers: "I w \<Longrightarrow> I (w\<lparr>w_helpers := h\<rparr>)"
    and fr_running: "I w \<Longrightarrow> I (w\<lparr>w_running := t\<rparr>)"
    and fr_client: "io_keeps I (ClientFor X S i)"
    and fr_sync: "io_keeps I (SyncRoutes X S)"
begin

lemma keep_mild: "mild q \<Longrightarrow> io_keeps I (sql X q)"
  unfolding mild_def by (rule sql_keeps_change [where C = mild_change and I = I, OF fr_ext]) (erule (1) fr_stmt)

lemma keep_ext [inv_keep]: "io_keeps I (ext f)"
  by (rule ext_blind_ext [OF fr_ext])

lemmas keep_docker [inv_keep] = docker_keep [OF fr_ext]

lemmas [inv_keep] = fr_client fr_sync

lemma keep_publish [inv_keep]: "io_keeps I (publish X S (Some (Upstreams X)))"
  using fr_sync by (simp add: SyncRoutes_def Sync_def)

lemma keep_reconcile [inv_keep]: "io_keeps I (reconcile X S svc)"
  by (intro reconcile_parts_keep fr_ext inv_keep keep_mild mild_stmt)

lemma keep_auth [inv_keep]: "io_keeps I (auth_or_none X S img)"
  unfolding auth_or_none_def AuthForImage_def by (intro io_keep inv_keep keep_mild mild_stmt)

text \<open>The operations of the managers.\<close>

lemma keep_replicaSpec [inv_keep]: "io_keeps I (replicaSpec X S svc i)"
  unfolding replicaSpec_def by (intro io_keep inv_keep)

lemma keep_replace [inv_keep]: "io_keeps I (replace_replica X S c what n svc i)"
  unfolding replace_replica_def by (intro io_keep inv_keep)

lemma keep_drop [inv_keep]: "io_keeps I (drop_leftovers X c n k)"
  unfolding drop_leftovers_def by (intro io_keep inv_keep)

lemma keep_service_reads [inv_keep]: "io_keeps I (ServiceList X n)" "io_keeps I (ServiceGet X n)"
  unfolding ServiceList_def ServiceGet_def
  by (intro io_keep inv_keep keep_mild mild_stmt)+

lemma keep_samples [inv_keep]: "io_keeps I (sample_replicas X c ss)"
  by (induction ss) (simp_all add: CPUPercent_def io_keep inv_keep)

lemma keep_SyncAll [inv_keep]: "io_keeps I (SyncAll X S)"
  unfolding SyncAll_def by (intro io_keep inv_keep keep_mild mild_stmt)

lemma keep_calm_routes [inv_keep]: "io_keeps I (RouteList X)" "io_keeps I (ServiceDomains X S n m i)"
  unfolding RouteList_def ServiceDomains_def by (intro io_keep inv_keep keep_mild mild_stmt)+

lemma keep_calm_endpoints [inv_keep]: "io_keeps I (EndpointList X)" "io_keeps I (EndpointStatus X S i)"
  unfolding EndpointList_def EndpointStatus_def by (intro io_keep inv_keep keep_mild mild_stmt fr_ext)+

lemma keep_schemes [inv_keep]: "io_keeps I (do_schemes X ss hp b e)"
  by (induction ss arbitrary: e) (auto simp: Let_def intro!: io_keep inv_keep split: option.split)

lemma keep_registries [inv_keep]:
  "io_keeps I (RegistryList X n)" "io_keeps I (RegistryOwner X i)"
  "io_keeps I (RegistryCreate X S n url u pw ow)"
  "io_keeps I (TestLogin X url u pw)" "io_keeps I (Catalog X S i)" "io_keeps I (Tags X S i repo)"
  unfolding RegistryList_def RegistryOwner_def RegistryCreate_def TestLogin_def Catalog_def
    Tags_def RegistryDo_def credsFor_def Encrypt_def Let_def
  by (intro io_keep inv_keep keep_mild mild_stmt)+

lemma keep_volume_helper [inv_keep]: "io_keeps I (volumeHelper X c n)" "io_keeps I (releaseHelper X c n)"
  unfolding volumeHelper_def releaseHelper_def get_helper_def put_helper_def new_helper_def adopt_helper_def
    create_helper_def Let_def
  by (intro io_keep inv_keep fr_helpers; simp)+

lemma keep_volumes [inv_keep]:
  "io_keeps I (CreateVolume X c n d ls)" "io_keeps I (InspectVolume X c n)" "io_keeps I (ListVolumes X c)"
  "io_keeps I (VolumeUsage X c)" "io_keeps I (RemoveVolume X c n b)" "io_keeps I (BrowseVolume X c n sub)"
  "io_keeps I (MkdirVolume X c n sub)" "io_keeps I (DeleteInVolume X c n sub)"
  "io_keeps I (UploadToVolume X c n dir file content k)" "io_keeps I (DownloadFromVolume X c n file)"
  unfolding CreateVolume_def InspectVolume_def ListVolumes_def VolumeUsage_def RemoveVolume_def BrowseVolume_def
    MkdirVolume_def DeleteInVolume_def UploadToVolume_def DownloadFromVolume_def execCapture_def Let_def
  by (intro io_keep inv_keep)+

lemma keep_ip [inv_keep]: "io_keeps I (PublicIP X n)"
proof -
  have "io_keeps I (fetchIP X url)" for url
    unfolding fetchIP_def Let_def by (intro io_keep inv_keep)
  then have "io_keeps I (ip_loop X urls e)" for urls e
    by (induction urls arbitrary: e) (auto intro!: io_keep)
  then show ?thesis unfolding PublicIP_def .
qed

lemma keep_tunnels [inv_keep]:
  "io_keeps I (TunnelStart X S t)" "io_keeps I (TunnelStop X i)" "io_keeps I (IsRunning i)"
  unfolding TunnelStart_def TunnelStop_def IsRunning_def loadSigner_def open_tunnel_def Let_def
  by (intro io_keep inv_keep fr_running; simp)+

lemma keep_login [inv_keep]: "io_keeps I (Login X S n pw)" "io_keeps I (HashPassword X pw)"
  unfolding Login_def login_with_def HashPassword_def by (intro io_keep inv_keep keep_mild mild_stmt)+

text \<open>The handlers.\<close>

lemma keep_client_for [inv_keep]: "io_keeps I (clientFor X S r)" "io_keeps I (dockerOr502 X S r)"
  unfolding clientFor_def dockerOr502_def by (intro io_keep inv_keep keep_mild mild_stmt)+

lemma keep_member_handlers:
  "io_keeps I (handleMe X S r)" "io_keeps I (handleCreateRequest X b5 r)" "io_keeps I (handleListRequests X r)"
  unfolding handleMe_def me_quota_def me_usage_def handleCreateRequest_def request_allowed_def handleListRequests_def Let_def
  by (intro io_keep inv_keep keep_mild mild_stmt)+

lemma keep_view [inv_keep]: "io_keeps I (reply_view X S st svc)"
  unfolding reply_view_def serviceView_def by (intro io_keep inv_keep keep_mild mild_stmt)

lemma keep_views [inv_keep]: "io_keeps I (service_views X S env svcs)"
  by (induction svcs) (auto simp: serviceView_def intro!: io_keep inv_keep keep_mild mild_stmt)

lemma keep_owned [inv_keep]: "io_keeps I (owned X r)"
  unfolding owned_def ownedService_def Let_def by (intro io_keep inv_keep keep_mild mild_stmt)

lemma keep_quota [inv_keep]:
  "io_keeps I (enforceServiceQuota X S r n c m ex)" "io_keeps I (enforceVolumeQuota X r k ex)"
  "io_keeps I (resolveResources X S p ex c m)"
  unfolding enforceServiceQuota_def env_quota_def enforceVolumeQuota_def disk_quota_def resolveResources_def
    without_container_def Let_def
  by (intro io_keep inv_keep keep_mild mild_stmt)+

lemma keep_service_read_handlers: "io_keeps I (handleListServices X S r)" "io_keeps I (handleGetService X S r)"
  unfolding handleListServices_def handleGetService_def Let_def
  by (intro io_keep inv_keep keep_mild mild_stmt)+

lemma keep_container_handlers:
  "io_keeps I (handleLogin X S b1 r)"
  "io_keeps I (handleUpdateContainer X S b3 r)" "io_keeps I (handleRemoveImage X S r)"
  "io_keeps I (handleListContainers X S r)" "io_keeps I (handleInspectContainer X S r)"
  "io_keeps I (handleListImages X S r)" "io_keeps I (handleHealth X S r)"
  unfolding handleLogin_def handleUpdateContainer_def
    current_image_def handleRemoveImage_def handleListContainers_def handleInspectContainer_def
    handleListImages_def handleHealth_def Let_def
  by (intro io_keep inv_keep keep_mild mild_stmt)+

lemma keep_action: "(\<And>c i. io_keeps I (action X c i)) \<Longrightarrow> io_keeps I (handleContainerAction action X S r)"
  unfolding handleContainerAction_def by (intro io_keep inv_keep keep_mild mild_stmt)

lemma keep_upgrade [inv_keep]: "io_keeps I (upgrade X)" "io_keeps I (session_events X conn hij)"
  "io_keeps I (stream_events X conn h)"
  using fr_ext by (auto simp: io_keeps_def upgrade_def session_events_def stream_events_def ext_blind_def split: prod.split)

lemma keep_relay [inv_keep]: "(\<And>p. io_keeps I (f p)) \<Longrightarrow> io_keeps I (relay X h f es)"
proof (induction es)
  case (Cons e es)
  then show ?case unfolding wire_def by (cases e) (simp_all add: wire_def io_keep inv_keep)
qed (simp add: io_keep)

lemma keep_session [inv_keep]: "io_keeps I (session X cli x conn hij pump es)"
proof -
  have w: "io_keeps I (wire X a)" for a unfolding wire_def by (intro inv_keep)
  then have e: "io_keeps I (pump_end X conn)" unfolding pump_end_def say_def by (intro io_keep)
  have h: "io_keeps I (hang_up X conn hij pump)" for pump
    unfolding hang_up_def by (intro io_keep w e)
  have r: "io_keeps I (resize_tty X cli x d)" for d
    unfolding resize_tty_def ExecResize_def by (intro io_keep inv_keep)
  show ?thesis
  proof (induction es arbitrary: pump)
    case (Cons ev es)
    then show ?case
      by (cases ev; cases "case ev of BrowserSends f \<Rightarrow> f | _ \<Rightarrow> TextFrame x")
        (auto intro!: io_keep w e h r split: sum.split)
  qed (simp add: h)
qed

lemma keep_stream_handlers:
  "io_keeps I (handleLogs X S r)" "io_keeps I (handleStats X S r)" "io_keeps I (handleExec X S r)"
  unfolding handleLogs_def handleStats_def handleExec_def stream_body_def stream_end_def say_def wsWriter_Write_def wire_def
    Logs_def Stats_def Exec_def Let_def
  by (intro io_keep inv_keep)+

lemma keep_resource_handlers:
  "io_keeps I (handleCreateNetwork X S b1 r)" "io_keeps I (handleInspectNetwork X S r)"
  "io_keeps I (handleRemoveNetwork X S r)" "io_keeps I (handleConnectNetwork X S b2 r)"
  "io_keeps I (handleDisconnectNetwork X S b2 r)" "io_keeps I (handleListNetworks X S r)"
  "io_keeps I (handleListRegistries X r)" "io_keeps I (handleCreateRegistry X S b3 r)"
  "io_keeps I (handleTestRegistry X b3 r)"
  "io_keeps I (handleRegistryCatalog X S r)" "io_keeps I (handleRegistryTags X S r)"
  unfolding handleCreateNetwork_def handleInspectNetwork_def handleRemoveNetwork_def handleConnectNetwork_def
    handleDisconnectNetwork_def handleListNetworks_def handleListRegistries_def handleCreateRegistry_def
    handleTestRegistry_def handleRegistryCatalog_def handleRegistryTags_def Let_def
  by (intro io_keep inv_keep keep_mild mild_stmt)+

lemma keep_volume_handlers:
  "io_keeps I (handleCreateVolume X S b1 r)" "io_keeps I (handleResizeVolume X b2 r)"
  "io_keeps I (handleInspectVolume X S r)" "io_keeps I (handleRemoveVolume X S r)"
  "io_keeps I (handleBrowseVolume X S r)" "io_keeps I (handleMkdirVolume X S b3 r)"
  "io_keeps I (handleDeleteVolumeFile X S r)" "io_keeps I (handleUploadVolume X S b4 r)"
  "io_keeps I (handleDownloadVolume X S r)" "io_keeps I (handleListVolumes X S r)"
  "io_keeps I (handleVolumeUsage X S r)" "io_keeps I (handleVolumeNames X S r)"
  unfolding handleCreateVolume_def handleResizeVolume_def handleInspectVolume_def handleRemoveVolume_def
    handleBrowseVolume_def handleMkdirVolume_def handleDeleteVolumeFile_def handleUploadVolume_def
    handleDownloadVolume_def handleListVolumes_def handleVolumeUsage_def owned_volumes_def
    handleVolumeNames_def Let_def
  by (intro io_keep inv_keep keep_mild mild_stmt)+

lemma keep_environment_handlers: "io_keeps I (handleListEndpoints X r)" "io_keeps I (handleEndpointStatus X S r)"
  unfolding handleListEndpoints_def handleEndpointStatus_def Let_def
  by (intro io_keep inv_keep keep_mild mild_stmt)+

text \<open>A request with its middleware.\<close>

lemma keep_reply: "io_keeps I (h r) \<Longrightarrow> io_keeps I (reply f h r)"
  unfolding reply_def by (intro io_keep inv_keep keep_mild mild_stmt)

lemmas keep_mild_handlers = keep_member_handlers keep_service_read_handlers keep_container_handlers
  keep_resource_handlers keep_volume_handlers keep_stream_handlers keep_environment_handlers

lemma keep_owners:
  "io_keeps I (container_owner X S r)" "io_keeps I (volume_owner X S r)"
  "io_keeps I (network_owner X S r)" "io_keeps I (registry_owner X r)"
  unfolding container_owner_def volume_owner_def network_owner_def registry_owner_def
  by (intro io_keep inv_keep keep_mild mild_stmt)+

lemma keep_guarded: "io_keeps I (h r) \<Longrightarrow> io_keeps I (guarded X S a h r)"
  by (cases a) (simp_all add: guarded_def ctr.guard_keeps vol.guard_keeps net.guard_keeps reg.guard_keeps
      RequireAdmin_keeps keep_owners)

lemma keep_access: "io_keeps I (h r) \<Longrightarrow> io_keeps I (requireEndpointAccess X h r)"
  unfolding requireEndpointAccess_def Let_def by (intro io_keep inv_keep keep_mild mild_stmt)

lemma keep_mild_handle:
  assumes "\<not> publishes c" "\<not> edits_more c"
  shows "io_keeps I (handle X S c r)"
proof (cases c)
  case (Open d)
  with assms show ?thesis by (cases d) (simp_all add: keep_reply keep_mild_handlers)
next
  case (Services d)
  with assms show ?thesis by (cases d) (simp_all add: publishes_def keep_reply keep_mild_handlers)
next
  case (Member d)
  then show ?thesis by (cases d) (simp_all add: keep_reply keep_mild_handlers)
next
  case (Container d)
  with assms show ?thesis by (cases d) (simp_all add: publishes_def keep_reply keep_mild_handlers keep_action inv_keep)
next
  case (Volume d)
  then show ?thesis by (cases d) (simp_all add: keep_reply keep_mild_handlers)
next
  case (Network d)
  then show ?thesis by (cases d) (simp_all add: keep_reply keep_mild_handlers)
next
  case (Registry d)
  with assms show ?thesis by (cases d) (simp_all add: keep_reply keep_mild_handlers)
qed (use assms in simp_all)

text \<open>The admission of a request keeps the property; so does the request when its handler does.\<close>

lemma keep_request:
  assumes "\<And>q. io_keeps I (handle X S c q)"
  shows "io_keeps I (serve X S c r)"
proof (cases "access_of c = Public")
  case True
  then show ?thesis by (simp add: serve_def assms)
next
  case False
  then show ?thesis
    unfolding serve_def Let_def by (simp add: Middleware_keeps fr_ext keep_access keep_guarded assms)
qed

end

locale server_calm = server_frame X S I for X :: "'e ext" and S :: server and I :: "'e world \<Rightarrow> bool" +
  assumes cm_stmt: "calm_change f \<Longrightarrow> I w \<Longrightarrow> I (w\<lparr>w_db := f ((w_db w)\<lparr>db_now := n\<rparr>), w_ext := e\<rparr>)"
begin

lemma keep_calm: "calm q \<Longrightarrow> io_keeps I (sql X q)"
  unfolding calm_def by (rule sql_keeps_change [where C = calm_change and I = I, OF fr_ext]) (erule (1) cm_stmt)

lemma keep_redeploy [inv_keep]: "io_keeps I (Redeploy X S n img)" "io_keeps I (BuildAndRedeploy X S svc)"
  unfolding BuildAndRedeploy_def BuildImage_def Redeploy_def dockerFor_def Let_def
  by (intro io_keep inv_keep keep_calm calm_stmt)+

lemma keep_annotate [inv_keep]: "io_keeps I (annotate ts)"
  by (induction ts) (auto intro!: io_keep inv_keep keep_calm calm_stmt)

text \<open>The handlers.\<close>

lemma keep_users:
  "io_keeps I (handleListUsers X r)" "io_keeps I (handleCreateUser X b1 r)"
  "io_keeps I (handleUpdateUserQuota X b2 r)" "io_keeps I (handleSetUserRole X b3 r)"
  "io_keeps I (handleResetPassword X b4 r)" "io_keeps I (handleDeleteUser X r)" "io_keeps I (handleReviewRequest X b6 r)"
  unfolding handleListUsers_def handleCreateUser_def handleUpdateUserQuota_def handleSetUserRole_def
    demotes_last_admin_def handleResetPassword_def handleDeleteUser_def handleReviewRequest_def current_quota_def Let_def
  by (intro io_keep inv_keep keep_calm calm_stmt)+

lemma keep_redeploy_handlers:
  "io_keeps I (handleRedeployService X S b4 r)" "io_keeps I (handleWebhook X S r)" "io_keeps I (handleDeleteRegistry X r)"
  unfolding handleRedeployService_def handleWebhook_def handleDeleteRegistry_def RegistryDelete_def
  by (intro io_keep inv_keep keep_calm calm_stmt)+

lemma keep_calm_exposure_handlers:
  "io_keeps I (handleListRoutes X r)" "io_keeps I (handlePublicIP X S r)"
  "io_keeps I (handleListTunnels X r)" "io_keeps I (handleCreateTunnel X b2 r)"
  "io_keeps I (handleStartTunnel X S r)" "io_keeps I (handleStopTunnel X r)" "io_keeps I (handleDeleteTunnel X r)"
  unfolding handleListRoutes_def handlePublicIP_def handleListTunnels_def handleCreateTunnel_def
    handleStartTunnel_def handleStopTunnel_def handleDeleteTunnel_def
  by (intro io_keep inv_keep keep_calm calm_stmt)+

lemma keep_calm_host_handlers:
  "io_keeps I (handleGetUserEnvironments X r)" "io_keeps I (handleSetUserEnvironments X b1 r)"
  "io_keeps I (handleEdgeStatus X S r)" "io_keeps I (handleDeployEdge X S port r)" "io_keeps I (handleRemoveEdge X S r)"
  unfolding handleGetUserEnvironments_def handleSetUserEnvironments_def handleEdgeStatus_def handleDeployEdge_def
    handleRemoveEdge_def Let_def
  by (intro io_keep inv_keep keep_calm calm_stmt)+

lemmas keep_calm_handlers = keep_users keep_redeploy_handlers keep_calm_exposure_handlers keep_calm_host_handlers
  keep_container_handlers

lemma keep_calm_handle:
  assumes "\<not> publishes c"
  shows "io_keeps I (handle X S c r)"
proof (cases "edits_more c")
  case False
  with assms show ?thesis by (rule keep_mild_handle)
next
  case True
  then show ?thesis
  proof (cases c)
    case (Accounts d)
    then show ?thesis by (cases d) (simp_all add: keep_reply keep_calm_handlers)
  next
    case (Hosts d)
    with assms show ?thesis by (cases d) (simp_all add: publishes_def keep_reply keep_calm_handlers)
  next
    case (Exposure d)
    with assms show ?thesis by (cases d) (simp_all add: publishes_def keep_reply keep_calm_handlers)
  next
    case (Open d)
    with True show ?thesis by (cases d) (simp_all add: keep_reply keep_calm_handlers)
  next
    case (Services d)
    with True show ?thesis by (cases d) (simp_all add: keep_reply keep_calm_handlers)
  next
    case (Registry d)
    with True show ?thesis by (cases d) (simp_all add: keep_reply keep_calm_handlers)
  qed (use True in simp_all)
qed

lemma keep_calm_serve: "\<not> publishes c \<Longrightarrow> io_keeps I (serve X S c r)"
  by (intro keep_request keep_calm_handle)

end

locale server_inv =
  fixes X :: "'e ext" and S :: server and I :: "'e world \<Rightarrow> bool" and kept :: bool
  assumes inv_stmt: "safe_change f \<Longrightarrow> I w \<Longrightarrow> I (w\<lparr>w_db := f ((w_db w)\<lparr>db_now := n\<rparr>), w_ext := e\<rparr>)"
    and inv_ext: "ext_blind I"
    and inv_xds: "I w \<Longrightarrow> I (w\<lparr>w_xds := m\<rparr>)"
    and inv_helpers: "I w \<Longrightarrow> I (w\<lparr>w_helpers := h\<rparr>)"
    and inv_running: "I w \<Longrightarrow> I (w\<lparr>w_running := t\<rparr>)"
    and inv_client: "io_keeps I (ClientFor X S i)"
    and inv_update: "kept \<Longrightarrow> io_keeps I (EndpointUpdate X S i name host ca cert key)"
    and inv_delete: "io_keeps I (EndpointDelete X i)"
begin

lemma keep_sql: "safe q \<Longrightarrow> io_keeps I (sql X q)"
  unfolding safe_def by (rule sql_keeps_change [where C = safe_change and I = I, OF inv_ext]) (erule (1) inv_stmt)

lemma keep_on_xds [inv_keep]: "io_keeps I (on_xds f)"
  by (auto simp: io_keeps_def on_xds_def inv_xds split: prod.splits)

lemma keep_sync: "io_keeps I (SyncRoutes X S)"
  by (intro publish_parts_keep keep_sql keep_on_xds safe_stmt)

end

sublocale server_inv \<subseteq> server_calm X S I
  by unfold_locales (use inv_stmt inv_ext inv_helpers inv_running inv_client keep_sync in \<open>auto simp: mild_change_def calm_change_def\<close>)

context server_inv
begin

lemmas [inv_keep] = inv_delete

text \<open>The operations of the managers that change what is published.\<close>

lemma keep_services [inv_keep]:
  "io_keeps I (ServiceCreate X S svc)"
  "io_keeps I (ServiceUpdate X S n svc)" "io_keeps I (SetSubdomain X S n sub)" "io_keeps I (Scale X S n k)"
  "io_keeps I (ServiceDelete X S n)"
  unfolding ServiceCreate_def ServiceUpdate_def SetSubdomain_def Scale_def
    ServiceDelete_def dockerFor_def Let_def
  by (intro io_keep inv_keep keep_sql safe_stmt)+

lemma keep_autoscaler [inv_keep]: "io_keeps I (scaleOnce X S)"
  unfolding scaleOnce_def scale_service_def dockerFor_def Let_def
  by (intro io_keep inv_keep keep_sql safe_stmt)

lemma keep_routes [inv_keep]:
  "io_keeps I (Upsert X S (Some (Upstreams X)) rt)" "io_keeps I (RouteDelete X S (Some (Upstreams X)) n)"
  unfolding Upsert_def RouteDelete_def by (intro io_keep inv_keep keep_sql safe_stmt)+

lemma keep_endpoints [inv_keep]: "io_keeps I (EndpointCreate X S n host ca cert key)"
  unfolding EndpointCreate_def by (intro io_keep inv_keep keep_sql safe_stmt encrypted_keeps inv_ext)

text \<open>The handlers.\<close>

lemma keep_service_handlers:
  "io_keeps I (handleSetServiceSubdomain X S b1 r)" "io_keeps I (handleCreateService X S b2 r)"
  "io_keeps I (handleUpdateService X S b2 r)" "io_keeps I (handleScaleService X S b3 r)"
  "io_keeps I (handleDeleteService X S r)"
  unfolding handleSetServiceSubdomain_def handleCreateService_def newToken_def handleUpdateService_def
    handleScaleService_def handleDeleteService_def Let_def
  by (intro io_keep inv_keep keep_sql safe_stmt)+

lemma keep_edit_container: "io_keeps I (handleEditContainer X S b2 r)"
  unfolding handleEditContainer_def old_subdomain_def edit_route_def Let_def
  by (intro io_keep inv_keep keep_sql safe_stmt)

lemma keep_exposure_handlers: "io_keeps I (handleUpsertRoute X S b1 r)" "io_keeps I (handleDeleteRoute X S r)"
  unfolding handleUpsertRoute_def handleDeleteRoute_def by (intro io_keep inv_keep keep_sql safe_stmt)+

lemma keep_host_handlers:
  "io_keeps I (handleCreateEndpoint X S b2 r)" "kept \<Longrightarrow> io_keeps I (handleUpdateEndpoint X S b2 r)"
  "io_keeps I (handleDeleteEndpoint X r)"
  unfolding handleCreateEndpoint_def handleUpdateEndpoint_def handleDeleteEndpoint_def Let_def
  by (intro io_keep inv_keep inv_update keep_sql safe_stmt; assumption)+

text \<open>Every route.\<close>

lemma keep_handle:
  assumes kept
  shows "io_keeps I (handle X S c r)"
proof (cases "publishes c")
  case True
  then show ?thesis
    unfolding publishes_def
    by (elim disjE edits_environment.elims(2) edits_service.elims(2) edits_route.elims(2))
      (simp_all add: keep_reply keep_service_handlers keep_edit_container keep_exposure_handlers keep_host_handlers assms)
qed (rule keep_calm_handle)

lemma keep_serve: "kept \<Longrightarrow> io_keeps I (serve X S c r)"
  by (intro keep_request keep_handle)

end

section \<open>The two invariants\<close>

interpretation database: server_inv X S db_inv True for X S
proof unfold_locales
  fix f :: "db \<Rightarrow> db" and w :: "'a world" and n e
  assume "safe_change f" "db_inv w"
  then show "db_inv (w\<lparr>w_db := f ((w_db w)\<lparr>db_now := n\<rparr>), w_ext := e\<rparr>)"
    by (simp add: safe_change_def db_inv_def)
next
  fix i name host ca cert key
  show "io_keeps db_inv (EndpointUpdate X S i name host ca cert key)"
    unfolding EndpointUpdate_def new_material_def uncache_client_def Let_def
    by (intro io_keep stmt_keeps encrypted_keeps ext_blind_db_inv; simp)
  show "io_keeps db_inv (EndpointDelete X i)"
    unfolding EndpointDelete_def uncache_client_def by (intro io_keep stmt_keeps) simp
next
  fix i
  show "io_keeps db_inv (ClientFor X S i)" by (rule db_ok_ClientFor)
qed (simp_all add: db_inv_def)

interpretation cache: server_inv X S "cache_ok X S" "answers_kept X" for X S
proof unfold_locales
  fix f :: "db \<Rightarrow> db" and w :: "'a world" and n e
  assume f: "safe_change f" and w: "cache_ok X S w"
  let ?d = "(w_db w)\<lparr>db_now := n\<rparr>"
  from w have "db_ok ?d" by (simp add: cache_ok_def)
  with f have "db_ok (f ?d)" "set (db_endpoints ?d) \<subseteq> set (db_endpoints (f ?d))"
    unfolding safe_change_def by blast+
  with w show "cache_ok X S (w\<lparr>w_db := f ?d, w_ext := e\<rparr>)" by (fastforce simp: cache_ok_def)
next
  fix i name host ca cert key
  show "io_keeps (cache_ok X S) (ClientFor X S i)" by (rule ClientFor_cache)
  show "io_keeps (cache_ok X S) (EndpointDelete X i)" by (rule EndpointDelete_cache)
  show "io_keeps (cache_ok X S) (EndpointUpdate X S i name host ca cert key)" if "answers_kept X"
    using that by (rule EndpointUpdate_cache)
qed (simp_all add: cache_ok_def)

section \<open>The server's runs\<close>

text \<open>
  The server handles requests, runs its autoscaler, reconciles its services, and the outside
  moves on its own.  Requests are executed one at a time here; the interleaving of starts and
  stops of tunnels has a step relation of its own.
\<close>

inductive server_step :: "'e ext \<Rightarrow> server \<Rightarrow> 'e world \<Rightarrow> 'e world \<Rightarrow> bool" for X S where
  request: "server_step X S w (snd (serve X S c r w))"
| autoscale: "server_step X S w (snd (scaleOnce X S w))"
| resync: "server_step X S w (snd (SyncAll X S w))"
| outside: "server_step X S w (w\<lparr>w_ext := e\<rparr>)"

lemma server_step_keeps:
  "server_step X S w w' \<Longrightarrow> db_inv w \<and> (answers_kept X \<longrightarrow> cache_ok X S w) \<Longrightarrow>
   db_inv w' \<and> (answers_kept X \<longrightarrow> cache_ok X S w')"
proof (induction rule: server_step.induct)
  case (request w c r)
  then show ?case
    using io_keepsE [OF database.keep_serve [OF TrueI]] io_keepsE [OF cache.keep_serve] by blast
next
  case (autoscale w)
  then show ?case
    using io_keepsE [OF database.keep_autoscaler] io_keepsE [OF cache.keep_autoscaler] by blast
next
  case (resync w)
  then show ?case
    using io_keepsE [OF database.keep_SyncAll] io_keepsE [OF cache.keep_SyncAll] by blast
next
  case (outside w e)
  then show ?case by (simp add: db_inv_def)
qed

lemma server_run_keeps:
  "(server_step X S)\<^sup>*\<^sup>* w w' \<Longrightarrow> db_inv w \<and> (answers_kept X \<longrightarrow> cache_ok X S w) \<Longrightarrow>
   db_inv w' \<and> (answers_kept X \<longrightarrow> cache_ok X S w')"
proof (induction rule: rtranclp_induct)
  case (step v u)
  then show ?case using server_step_keeps by blast
qed

end
