(* ===== verification/Access.thy ===== *)
theory Access
  imports Integrity
begin

text \<open>
  Who may do what.  The middleware of a route is the same computation for every handler; it ends
  with the principal for whom the handler then runs.  The theorems show that a request is
  admitted only with the right the route asks for, that a request that is not admitted runs no
  handler and changes no data, and that the lists a member gets hold the member's own things.
\<close>

section \<open>Admission\<close>

text \<open>The middleware of a group, around a handler that only reports the principal.\<close>

definition admit :: "'e ext \<Rightarrow> server \<Rightarrow> access \<Rightarrow> ('e, principal) handler" where
  "admit X S a = Middleware X S (requireEndpointAccess X (guarded X S a (\<lambda>r. writeJSON 200 (Current r))))"

definition owner_of :: "'e ext \<Rightarrow> server \<Rightarrow> access \<Rightarrow> (request \<Rightarrow> ('e, string) web) option" where
  "owner_of X S a = (case a of
       OwnContainer \<Rightarrow> Some (container_owner X S)
     | OwnVolume \<Rightarrow> Some (volume_owner X S)
     | OwnNetwork \<Rightarrow> Some (network_owner X S)
     | OwnRegistry \<Rightarrow> Some (registry_owner X)
     | _ \<Rightarrow> None)"

lemma io_bind_if: "io_bind (if p then m else n) k = (if p then io_bind m k else io_bind n k)"
  by simp

lemma writeErr_bind [simp]: "io_bind (writeErr s e) k = writeErr s e"
  by (simp add: writeErr_def)

lemma writeJSON_bind [simp]: "io_bind (writeJSON s v) k = k (s, v)"
  by (simp add: writeJSON_def)

lemma guarded_factor:
  "guarded X S a h r = io_bind (guarded X S a (\<lambda>r. writeJSON 200 (Current r)) r) (\<lambda>_. h r)"
  by (cases "IsAdmin (Current r)"; cases a)
    (simp_all add: guarded_def ctr.guard_admin vol.guard_admin net.guard_admin reg.guard_admin
      ctr.guard_member vol.guard_member net.guard_member reg.guard_member RequireAdmin_def
      io_bind_assoc io_bind_if cong: if_cong)

lemma access_factor:
  "requireEndpointAccess X h r = io_bind (requireEndpointAccess X (\<lambda>r. writeJSON 200 (Current r)) r) (\<lambda>_. h r)"
  by (simp add: requireEndpointAccess_def Let_def io_bind_assoc io_bind_if cong: if_cong)

text \<open>The principal that is admitted is the one of the token.\<close>

lemma guarded_principal: "guarded X S a (\<lambda>r. writeJSON 200 (Current r)) r w = (Inr x, w') \<Longrightarrow> x = (200, Current r)"
  by (cases "IsAdmin (Current r)"; cases a)
    (auto simp: guarded_def ctr.guard_admin vol.guard_admin net.guard_admin reg.guard_admin
      ctr.guard_member vol.guard_member net.guard_member reg.guard_member RequireAdmin_def io_inr split: if_splits)

lemma serve_admit:
  assumes "access_of c \<noteq> Public"
  shows "serve X S c r = io_bind (admit X S (access_of c) r) (\<lambda>(st, p). handle X S c (r\<lparr>rq_principal := p\<rparr>))"
proof
  fix w
  let ?g = "guarded X S (access_of c)"
  let ?me = "\<lambda>r. writeJSON 200 (Current r)"
  have "requireEndpointAccess X (?g (handle X S c)) q v =
      io_bind (requireEndpointAccess X (?g ?me) q) (\<lambda>(st, p). handle X S c (q\<lparr>rq_principal := p\<rparr>)) v" for q v
  proof -
    have "requireEndpointAccess X (?g (handle X S c)) q =
        io_bind (requireEndpointAccess X ?me q) (\<lambda>_. io_bind (?g ?me q) (\<lambda>_. handle X S c q))"
      by (subst access_factor, subst guarded_factor) simp
    moreover have "requireEndpointAccess X (?g ?me) q = io_bind (requireEndpointAccess X ?me q) (\<lambda>_. ?g ?me q)"
      by (rule access_factor)
    moreover have "io_bind (?g ?me q) (\<lambda>_. handle X S c q) u =
        io_bind (?g ?me q) (\<lambda>(st, p). handle X S c (q\<lparr>rq_principal := p\<rparr>)) u" for u
      using guarded_principal [of X S "access_of c" q u]
      by (auto simp: io_bind_def Current_def split: prod.splits sum.splits)
    ultimately show ?thesis
      by (simp add: io_bind_assoc) (simp add: io_bind_def split: prod.splits sum.splits)
  qed
  then show "serve X S c r w = io_bind (admit X S (access_of c) r) (\<lambda>(st, p). handle X S c (r\<lparr>rq_principal := p\<rparr>)) w"
    using assms
    by (auto simp: serve_def admit_def Middleware_def Let_def io_bind_def writeErr_def io_raise_def
        split: prod.splits sum.splits)
qed

section \<open>What admission leaves alone\<close>

text \<open>The stored data, the published configuration and the tunnels are the same; clients may have been connected.\<close>

definition same_data :: "'e world \<Rightarrow> 'e world \<Rightarrow> bool" where
  "same_data w v \<longleftrightarrow> (w_db v)\<lparr>db_now := 0\<rparr> = (w_db w)\<lparr>db_now := 0\<rparr> \<and> w_xds v = w_xds w \<and>
     w_running v = w_running w"

named_theorems same_keep \<open>operations that leave the data alone\<close>

lemma same_data_refl [simp]: "same_data w w"
  by (simp add: same_data_def)

lemma same_data_blind: "ext_blind (same_data w)"
  by (simp add: ext_blind_def same_data_def)

lemma same_data_sql:
  assumes "\<And>d. snd (q d) = d"
  shows "io_keeps (same_data w) (sql X q)"
proof (rule io_keepsI)
  fix v
  assume v: "same_data w v"
  have "(w_db (snd (sql X q v)))\<lparr>db_now := 0\<rparr> = (w_db v)\<lparr>db_now := 0\<rparr>"
    by (rule sql_same) (simp_all add: assms)
  with v show "same_data w (snd (sql X q v))" by (simp add: same_data_def)
qed

lemma same_data_ext [same_keep]: "io_keeps (same_data w) (ext f)"
  by (rule ext_blind_ext [OF same_data_blind])

lemmas [same_keep] = docker_keep [OF same_data_blind] verify_keeps [OF same_data_blind]

lemma same_data_modify: "(\<And>v. same_data v (f v)) \<Longrightarrow> io_keeps (same_data w) (io_modify f)"
  by (rule io_keeps_modify) (simp add: same_data_def)

lemma same_data_ClientFor [same_keep]: "io_keeps (same_data w) (ClientFor X S i)"
proof -
  have "io_keeps (same_data w) (NewRemote X h t)" for h t
    by (simp add: io_keeps_def same_data_def)
  moreover have "io_keeps (same_data w) (sql X (GetEndpoint i))"
    by (rule same_data_sql) (simp add: GetEndpoint_def split: option.split)
  moreover have "io_keeps (same_data w) (cache_client i c)" for c
    unfolding cache_client_def by (rule same_data_modify) (simp add: same_data_def)
  ultimately show ?thesis unfolding ClientFor_def by (intro io_keep)
qed

lemma same_data_owner:
  assumes "owner_of X S a = Some lkp"
  shows "io_keeps (same_data w) (lkp r)"
proof -
  have "io_keeps (same_data w) (sql X (GetRegistry i))" for i
    by (rule same_data_sql) (simp add: GetRegistry_def split: option.split)
  then show ?thesis
    using assms
    by (cases a) (auto simp: owner_of_def container_owner_def volume_owner_def network_owner_def registry_owner_def
        clientFor_def InspectVolume_def RegistryOwner_def intro!: io_keep same_keep)
qed

lemma UserHasEndpoint_same: "io_keeps (same_data w) (sql X (UserHasEndpoint u i))"
  by (rule same_data_sql) (simp add: UserHasEndpoint_def)

text \<open>The grant table of the database.\<close>

definition granted :: "db \<Rightarrow> int \<Rightarrow> int \<Rightarrow> bool" where
  "granted d u i \<longleftrightarrow> grants_look d (u, i) \<noteq> None"

lemma UserHasEndpoint_granted:
  assumes "sql X (UserHasEndpoint u i) w = (Inr b, w')"
  shows "b = granted (w_db w) u i"
proof (rule sql_Inr [OF assms])
  fix d e now
  assume "UserHasEndpoint u i ((w_db w)\<lparr>db_now := now\<rparr>) = (Inr b, d)"
  then show ?thesis by (auto simp: UserHasEndpoint_def granted_def grants_look_def)
qed

lemma same_data_granted: "same_data w v \<Longrightarrow> granted (w_db v) = granted (w_db w)"
proof -
  assume "same_data w v"
  then have "db_user_endpoints ((w_db v)\<lparr>db_now := 0\<rparr>) = db_user_endpoints ((w_db w)\<lparr>db_now := 0\<rparr>)"
    unfolding same_data_def by (elim conjE) (rule arg_cong)
  then show ?thesis by (simp add: granted_def [abs_def] grants_look_def)
qed

text \<open>The right a route asks for.\<close>

definition authorised :: "'e ext \<Rightarrow> server \<Rightarrow> access \<Rightarrow> principal \<Rightarrow> request \<Rightarrow> 'e world \<Rightarrow> bool" where
  "authorised X S a p r w \<longleftrightarrow> IsAdmin p \<or>
     a \<noteq> Admin \<and> (endpointID r = LocalID \<or> granted (w_db w) (pr_userID p) (endpointID r)) \<and>
     (\<forall>lkp. owner_of X S a = Some lkp \<longrightarrow>
        (\<exists>v v'. same_data w v \<and> lkp (r\<lparr>rq_principal := p\<rparr>) v = (Inr (pr_username p), v')))"

lemma guarded_authorised:
  assumes "guarded X S a (\<lambda>r. writeJSON 200 (Current r)) r w = (Inr x, w')" "\<not> IsAdmin (Current r)"
  shows "a \<noteq> Admin \<and> (\<forall>lkp. owner_of X S a = Some lkp \<longrightarrow>
    (\<exists>v'. lkp r w = (Inr (pr_username (Current r)), v')))"
proof (cases a)
  case OwnContainer
  with assms ctr.guard_passes [of r X S "\<lambda>r. writeJSON 200 (Current r)" w x w'] show ?thesis
    by (auto simp: guarded_def owner_of_def)
next
  case OwnVolume
  with assms vol.guard_passes [of r X S "\<lambda>r. writeJSON 200 (Current r)" w x w'] show ?thesis
    by (auto simp: guarded_def owner_of_def)
next
  case OwnNetwork
  with assms net.guard_passes [of r X S "\<lambda>r. writeJSON 200 (Current r)" w x w'] show ?thesis
    by (auto simp: guarded_def owner_of_def)
next
  case OwnRegistry
  with assms reg.guard_passes [of r X "\<lambda>r. writeJSON 200 (Current r)" w x w'] show ?thesis
    by (auto simp: guarded_def owner_of_def)
qed (use assms in \<open>simp_all add: guarded_def owner_of_def RequireAdmin_def\<close>)

lemma guarded_same: "io_keeps (same_data w) (guarded X S a (\<lambda>r. writeJSON 200 (Current r)) r)"
proof (cases a)
  case OwnContainer
  then show ?thesis
    by (simp add: guarded_def ctr.guard_keeps same_data_owner [of X S OwnContainer] owner_of_def)
next
  case OwnVolume
  then show ?thesis
    by (simp add: guarded_def vol.guard_keeps same_data_owner [of X S OwnVolume] owner_of_def)
next
  case OwnNetwork
  then show ?thesis
    by (simp add: guarded_def net.guard_keeps same_data_owner [of X S OwnNetwork] owner_of_def)
next
  case OwnRegistry
  then show ?thesis
    by (simp add: guarded_def reg.guard_keeps same_data_owner [of X S OwnRegistry] owner_of_def)
qed (simp_all add: guarded_def RequireAdmin_def)

lemma access_same:
  "io_keeps (same_data w) (requireEndpointAccess X (guarded X S a (\<lambda>r. writeJSON 200 (Current r))) r)"
  unfolding requireEndpointAccess_def Let_def by (intro io_keep UserHasEndpoint_same guarded_same)

lemma admit_same: "io_keeps (same_data w) (admit X S a r)"
  unfolding admit_def by (intro Middleware_keeps same_data_blind access_same)

lemma access_authorised:
  assumes "requireEndpointAccess X (guarded X S a (\<lambda>r. writeJSON 200 (Current r))) r w = (Inr x, w')"
  shows "x = (200, Current r) \<and> authorised X S a (Current r) r w"
proof -
  let ?g = "guarded X S a (\<lambda>r. writeJSON 200 (Current r)) r"
  have me: "r\<lparr>rq_principal := Current r\<rparr> = r" by (simp add: Current_def)
  show ?thesis
  proof (cases "endpointID r = LocalID \<or> IsAdmin (Current r)")
    case True
    then have "requireEndpointAccess X (guarded X S a (\<lambda>r. writeJSON 200 (Current r))) r = ?g"
      by (auto simp: requireEndpointAccess_def Let_def)
    with assms have g: "?g w = (Inr x, w')" by simp
    with True guarded_authorised [OF g] show ?thesis
      using guarded_principal [OF g] me unfolding authorised_def by (metis same_data_refl)
  next
    case False
    with assms obtain w1 where u: "sql X (UserHasEndpoint (pr_userID (Current r)) (endpointID r)) w = (Inr True, w1)"
      and g: "?g w1 = (Inr x, w')"
      by (auto simp: requireEndpointAccess_def Let_def io_inr split: if_splits)
    have "same_data w w1" using io_keepsD [OF UserHasEndpoint_same _ u] by simp
    moreover have "granted (w_db w) (pr_userID (Current r)) (endpointID r)"
      using UserHasEndpoint_granted [OF u] by simp
    ultimately show ?thesis
      using False guarded_authorised [OF g] guarded_principal [OF g] me unfolding authorised_def by metis
  qed
qed

lemma admit_authorised:
  assumes "admit X S a r w = (Inr x, w')"
  shows "\<exists>p v. x = (200, p) \<and> verify X S (request_token r) w = (Inr p, v) \<and> authorised X S a p r w"
proof -
  obtain q v where t: "verify X S (request_token r) w = (q, v)" by (cases "verify X S (request_token r) w")
  with assms obtain p where q: "q = Inr p"
    by (cases q) (auto simp: admit_def Middleware_def Let_def io_inr split: if_splits)
  note t = t [unfolded q]
  with assms have a: "requireEndpointAccess X (guarded X S a (\<lambda>r. writeJSON 200 (Current r)))
      (r\<lparr>rq_principal := p\<rparr>) v = (Inr x, w')"
    by (auto simp: admit_def Middleware_def Let_def io_inr split: if_splits)
  have same: "same_data w v" using io_keepsD [OF verify_keeps [OF same_data_blind] _ t] by simp
  have "same_data v u \<longleftrightarrow> same_data w u" for u using same by (simp add: same_data_def)
  moreover have "endpointID (r\<lparr>rq_principal := p\<rparr>) = endpointID r" by (simp add: endpointID_def Let_def)
  ultimately have "authorised X S a p r w"
    using access_authorised [OF a] same_data_granted [OF same] by (simp add: authorised_def Current_def)
  with t access_authorised [OF a] show ?thesis by (auto simp: Current_def)
qed

section \<open>Properties\<close>

text \<open>
  C1: only authorised requests run.  A request to a route that needs a session is first
  admitted or refused, whatever its handler is.  A refused request is answered with the error of
  the admission and leaves the database, the published configuration and the tunnels as they
  were.  An admitted one runs its handler for the principal of a verified token,
  who is an administrator, or else asks for no administrator's route, for the local host or an
  environment granted in the database, and for a container, volume, network or registry whose
  recorded owner the principal is.
\<close>

theorem only_authorised_requests_run:
  assumes "access_of c \<noteq> Public"
  shows "case admit X S (access_of c) r w of
      (Inl err, w1) \<Rightarrow> serve X S c r w = (Inl err, w1) \<and> same_data w w1
    | (Inr (st, p), w1) \<Rightarrow> same_data w w1 \<and> authorised X S (access_of c) p r w \<and>
        (\<exists>v. verify X S (request_token r) w = (Inr p, v)) \<and>
        serve X S c r w = handle X S c (r\<lparr>rq_principal := p\<rparr>) w1"
proof -
  obtain res w1 where a: "admit X S (access_of c) r w = (res, w1)" by (cases "admit X S (access_of c) r w")
  have same: "same_data w w1" using io_keepsD [OF admit_same _ a] by simp
  show ?thesis
  proof (cases res)
    case (Inl err)
    with a same assms show ?thesis by (simp add: serve_admit io_bind_def)
  next
    case (Inr x)
    with a admit_authorised [of X S "access_of c" r w x w1] same assms show ?thesis
      by (auto simp: serve_admit io_bind_def)
  qed
qed

theorem only_authorised_requests_run_witness:
  "\<exists>w1. serve sim_ext sim_server (Accounts DelUser) (sim_request (\<lambda>_. '''')) (sim_world sim_users_db) =
      (Inl (401, Err ''missing token''), w1) \<and> same_data (sim_world sim_users_db) w1"
proof -
  have "admit sim_ext sim_server Admin (sim_request (\<lambda>_. '''')) (sim_world sim_users_db) =
      (Inl (401, Err ''missing token''), sim_world sim_users_db)"
    by (simp add: admit_def Middleware_def request_token_def sim_request_def bearer_def writeErr_def io_raise_def)
  with only_authorised_requests_run [of "Accounts DelUser" sim_ext sim_server "sim_request (\<lambda>_. '''')" "sim_world sim_users_db"]
  show ?thesis by simp
qed

section \<open>What members see\<close>

text \<open>The entries of a list are the principal's own.\<close>

fun own_payload :: "principal \<Rightarrow> payload \<Rightarrow> bool" where
  "own_payload p (RContainers l) = (\<forall>c \<in> set l. mget (su_labels c) LabelOwner = pr_username p)"
| "own_payload p (RVolumes l) = (\<forall>v \<in> set l. mget (vv_labels v) LabelOwner = pr_username p)"
| "own_payload p (RNetworks l) = (\<forall>n \<in> set l. mget (ne_labels n) LabelOwner = pr_username p)"
| "own_payload p (RServices l) = (\<forall>v \<in> set l. sv_owner (sw_service v) = pr_username p)"
| "own_payload p (RRegistries l) = (\<forall>g \<in> set l. rg_owner g = pr_username p)"
| "own_payload p (RRequests l) = (\<forall>q \<in> set l. rr_userID q = pr_userID p)"
| "own_payload p _ = True"

lemma service_views_services:
  "service_views X S env svcs w = (Inr vs, w') \<Longrightarrow> map sw_service vs = filter (\<lambda>s. sv_endpointID s = env) svcs"
  by (induction svcs arbitrary: w vs) (auto simp: serviceView_def io_inr split: if_splits)

lemma ListServices_owner:
  "sql X (ListServices n) w = (Inr l, w') \<Longrightarrow> n \<noteq> '''' \<Longrightarrow> s \<in> set l \<Longrightarrow> sv_owner s = n"
  by (erule sql_Inr) (auto simp: ListServices_def)

lemma ListRegistries_owner:
  "sql X (ListRegistries n) w = (Inr l, w') \<Longrightarrow> n \<noteq> '''' \<Longrightarrow> g \<in> set l \<Longrightarrow> rg_owner g = n"
  by (erule sql_Inr) (auto simp: ListRegistries_def)

lemma ListRequests_user:
  "sql X (ListRequests st i) w = (Inr l, w') \<Longrightarrow> 0 < i \<Longrightarrow> q \<in> set l \<Longrightarrow> rr_userID q = i"
  by (erule sql_Inr) (auto simp: ListRequests_def)

lemma lists_are_own:
  assumes "\<not> IsAdmin (Current r)" "pr_username (Current r) \<noteq> ''''" "0 < pr_userID (Current r)"
  shows "handleListContainers X S r w = (Inr (st, cs), w') \<Longrightarrow> own_payload (Current r) (RContainers cs)"
    and "handleListVolumes X S r w = (Inr (st, vs), w') \<Longrightarrow> own_payload (Current r) (RVolumes vs)"
    and "handleListNetworks X S r w = (Inr (st, ns), w') \<Longrightarrow> own_payload (Current r) (RNetworks ns)"
    and "handleListServices X S r w = (Inr (st, svs), w') \<Longrightarrow> own_payload (Current r) (RServices svs)"
    and "handleListRegistries X r w = (Inr (st, gs), w') \<Longrightarrow> own_payload (Current r) (RRegistries gs)"
    and "handleListRequests X r w = (Inr (st, qs), w') \<Longrightarrow> own_payload (Current r) (RRequests qs)"
proof -
  have scope: "ownerScope r = pr_username (Current r)" using assms by (simp add: ownerScope_def Let_def)
  show "own_payload (Current r) (RContainers cs)" if "handleListContainers X S r w = (Inr (st, cs), w')"
    using that assms by (auto simp: handleListContainers_def io_inr Let_def)
  show "own_payload (Current r) (RVolumes vs)" if "handleListVolumes X S r w = (Inr (st, vs), w')"
    using that assms by (auto simp: handleListVolumes_def io_inr Let_def scope visible_def volume_view_of_def)
  show "own_payload (Current r) (RNetworks ns)" if "handleListNetworks X S r w = (Inr (st, ns), w')"
    using that assms by (auto simp: handleListNetworks_def io_inr Let_def scope)
  show "own_payload (Current r) (RServices svs)" if h: "handleListServices X S r w = (Inr (st, svs), w')"
  proof -
    from h assms(1) obtain l w1 where l: "sql X (ListServices (pr_username (Current r))) w = (Inr l, w1)"
      and v: "service_views X S (endpointID r) l w1 = (Inr svs, w')"
      by (auto simp: handleListServices_def ServiceList_def io_inr Let_def)
    from service_views_services [OF v] have "sw_service ` set svs \<subseteq> set l" by (metis filter_is_subset list.set_map)
    with ListServices_owner [OF l assms(2)] show ?thesis by auto
  qed
  show "own_payload (Current r) (RRegistries gs)" if "handleListRegistries X r w = (Inr (st, gs), w')"
    using that assms ListRegistries_owner
    by (auto simp: handleListRegistries_def RegistryList_def io_inr scope)
  show "own_payload (Current r) (RRequests qs)" if "handleListRequests X r w = (Inr (st, qs), w')"
    using that assms ListRequests_user by (auto simp: handleListRequests_def io_inr Let_def)
qed

lemma reply_Inr: "reply f h r w = (Inr (st, v), w') \<longleftrightarrow> (\<exists>x. h r w = (Inr (st, x), w') \<and> v = f x)"
  by (auto simp: reply_def io_inr)

lemma handle_own:
  assumes "handle X S c r w = (Inr (st, v), w')"
    and m: "\<not> IsAdmin (Current r)" "pr_username (Current r) \<noteq> ''''" "0 < pr_userID (Current r)"
  shows "own_payload (Current r) v"
proof (cases c)
  case (Open d)
  with assms(1) show ?thesis by (cases d) (auto simp: reply_Inr)
next
  case (Services d)
  with assms(1) lists_are_own [OF m] show ?thesis by (cases d) (auto simp: reply_Inr simp del: own_payload.simps(4))
next
  case (Member d)
  with assms(1) lists_are_own [OF m] show ?thesis
    by (cases d) (auto simp: reply_Inr simp del: own_payload.simps(1-6))
next
  case (Container d)
  with assms(1) show ?thesis by (cases d) (auto simp: reply_Inr)
next
  case (Volume d)
  with assms(1) show ?thesis by (cases d) (auto simp: reply_Inr)
next
  case (Network d)
  with assms(1) show ?thesis by (cases d) (auto simp: reply_Inr)
next
  case (Registry d)
  with assms(1) show ?thesis by (cases d) (auto simp: reply_Inr)
next
  case (Accounts d)
  with assms(1) show ?thesis by (cases d) (auto simp: reply_Inr)
next
  case (Hosts d)
  with assms(1) show ?thesis by (cases d) (auto simp: reply_Inr)
next
  case (Exposure d)
  with assms(1) show ?thesis by (cases d) (auto simp: reply_Inr)
qed

text \<open>
  C26: a member's lists hold the member's own things.  Whatever a request of a member returns,
  the containers, volumes, networks, services, registries and resource requests it lists carry
  the member's name (requests: the member's id) as their owner.
\<close>

theorem members_see_their_own:
  assumes "serve X S c r w = (Inr (st, v), w')" "access_of c \<noteq> Public"
    and "verify X S (request_token r) w = (Inr p, u)"
    and "\<not> IsAdmin p" "pr_username p \<noteq> ''''" "0 < pr_userID p"
  shows "own_payload p v"
proof -
  from assms(1,2) obtain x w1 where a: "admit X S (access_of c) r w = (Inr x, w1)"
    and h: "handle X S c (r\<lparr>rq_principal := snd x\<rparr>) w1 = (Inr (st, v), w')"
    by (auto simp: serve_admit io_inr case_prod_unfold)
  from admit_authorised [OF a] assms(3) have "snd x = p" by auto
  with handle_own [OF h] assms(4-6) show ?thesis by (simp add: Current_def)
qed

text \<open>A token library for which every token is a session of the member, and two requests.\<close>

definition bob_ext :: "sim ext" where
  "bob_ext = sim_ext\<lparr>x_jwtParse := (\<lambda>t kf. io_ret (login_claims (sim_user 2 ''bob'' RoleMember) 0))\<rparr>"

definition bob_request :: request where
  "bob_request = sim_request (\<lambda>k. if k = ''Authorization'' then ''Bearer tok'' else '''')"

lemma bob_verify: "verify bob_ext sim_server t w = (Inr (user_principal (sim_user 2 ''bob'' RoleMember)), w)"
  by (simp add: verify_def bob_ext_def ext_def io_bind_def io_ret_def login_claims_def user_principal_def)

definition sim_resource_request :: "int \<Rightarrow> string \<Rightarrow> resource_request" where
  "sim_resource_request i name = \<lparr>rr_id = i, rr_userID = i, rr_username = name, rr_endpointID = 0,
     rr_cpuMilli = 0, rr_memMB = 0, rr_diskMB = 50, rr_note = '''', rr_status = StatusPending,
     rr_reviewedBy = '''', rr_reviewNote = '''', rr_createdAt = 0, rr_reviewedAt = None\<rparr>"

definition sim_requests_db :: db where
  "sim_requests_db = sim_users_db\<lparr>
     db_requests := [sim_resource_request 1 ''ann'', sim_resource_request 2 ''bob''], db_seq := (\<lambda>_. 2)\<rparr>"

theorem members_see_their_own_witness:
  "\<exists>st l w'. serve bob_ext sim_server (Member GetRequests) bob_request (sim_world sim_requests_db) =
      (Inr (st, RRequests l), w') \<and> map rr_id l = [2] \<and> (\<forall>q \<in> set l. rr_userID q = 2)"
proof -
  let ?s = "serve bob_ext sim_server (Member GetRequests) bob_request (sim_world sim_requests_db)"
  have "(case fst ?s of Inr (st, RRequests l) \<Rightarrow> map rr_id l = [2] | _ \<Rightarrow> False)" by code_simp
  then obtain st l w' where s: "?s = (Inr (st, RRequests l), w')" and l: "map rr_id l = [2]"
    by (cases ?s; cases "fst ?s"; cases "snd (projr (fst ?s))") (auto split: prod.splits)
  have "own_payload (user_principal (sim_user 2 ''bob'' RoleMember)) (RRequests l)"
    by (rule members_see_their_own [OF s _ bob_verify]) (simp_all add: IsAdmin_def user_principal_def sim_user_def RoleAdmin_def RoleMember_def)
  with s l show ?thesis by (simp add: user_principal_def sim_user_def)
qed

end
