(* ===== verification/Accounts.thy ===== *)
theory Accounts
  imports Access
begin

text \<open>
  What administering accounts means: no request of an administrator locks the instance out, and
  the review of a resource request is one update of the table of quotas.  The quotas of all
  users on all environments are seen as one map, whatever table stores them.
\<close>

section \<open>Administrators\<close>

lemma roles_differ [simp]: "RoleMember \<noteq> RoleAdmin" "RoleAdmin \<noteq> RoleMember"
  by (simp_all add: RoleMember_def RoleAdmin_def)

definition some_admin :: "db \<Rightarrow> bool" where
  "some_admin d \<longleftrightarrow> admins d \<noteq> []"

lemma decoded_simps [simp]: "decoded (Inr b) = io_ret b" "decoded (Inl e) = writeErr 400 e"
  by (simp_all add: decoded_def or_status_def io_of_sum_def writeErr_def io_defs fun_eq_iff)

lemma id_param_Some: "goAtoi (rq_param r ''id'') = Some i \<Longrightarrow> id_param r = io_ret i"
  by (simp add: id_param_def)

text \<open>A change of the users that leaves everyone's id and role.\<close>

lemma some_admin_iff: "some_admin d \<longleftrightarrow> (\<exists>u \<in> set (db_users d). us_role u = RoleAdmin)"
  by (simp add: some_admin_def admins_def filter_empty_conv)

lemma some_admin_sql:
  assumes "\<And>d. some_admin d \<Longrightarrow> some_admin (snd (q d))"
  shows "io_keeps (\<lambda>w :: 'e world. some_admin (w_db w)) (sql X q)"
proof (rule io_keepsI)
  fix w :: "'e world"
  assume w: "some_admin (w_db w)"
  then have "some_admin ((w_db w)\<lparr>db_now := n\<rparr>)" for n by (simp add: some_admin_iff)
  with w sql_db [of X q w] assms show "some_admin (w_db (snd (sql X q w)))" by metis
qed

lemma some_admin_ext: "io_keeps (\<lambda>w. some_admin (w_db w)) (ext f)"
  by (simp add: io_keeps_def)

text \<open>The statements of the account routes, except changing a role and deleting a user.\<close>

lemma some_admin_users:
  "db_users d' = db_users d \<Longrightarrow> some_admin d' = some_admin d"
  by (simp add: some_admin_iff)

lemma InsertGrant_foreach_users: "db_users (snd (io_foreach (InsertGrant u) gs d)) = db_users d"
proof (induction gs arbitrary: d)
  case (Cons g gs)
  then show ?case
    using InsertGrant_tables(1) [of u g d]
    by (cases "InsertGrant u g d") (simp add: io_seq_def io_bind_def split: sum.splits)
qed (simp add: io_ret_def)

lemma SetUserEndpoints_users: "db_users (snd (SetUserEndpoints u gs d)) = db_users d"
  using InsertGrant_foreach_users [of u gs "snd (DeleteGrants u d)"]
  by (simp add: SetUserEndpoints_def in_txn_def io_seq_def io_bind_def DeleteGrants_def split: prod.splits sum.splits)
    (metis snd_conv)

lemma some_admin_upd:
  assumes "some_admin d" "\<And>u. us_role u = RoleAdmin \<Longrightarrow> us_role (f u) = RoleAdmin"
  shows "some_admin (d\<lparr>db_users := upd_rows P f (db_users d)\<rparr>)"
proof -
  from assms(1) obtain u where u: "u \<in> set (db_users d)" "us_role u = RoleAdmin" by (auto simp: some_admin_iff)
  have "(if P u then f u else u) \<in> set (upd_rows P f (db_users d))"
    using imageI [OF u(1), of "\<lambda>u. if P u then f u else u"] by (simp only: set_upd_rows)
  moreover have "us_role (if P u then f u else u) = RoleAdmin" using u(2) assms(2) by simp
  ultimately show ?thesis unfolding some_admin_iff by auto
qed

lemma some_admin_stmts:
  "some_admin d \<Longrightarrow> some_admin (snd (CreateUser u d))"
  "some_admin d \<Longrightarrow> some_admin (snd (UpdateUserQuota i c m k d))"
  "some_admin d \<Longrightarrow> some_admin (snd (SetUserPassword i h d))"
  "some_admin d \<Longrightarrow> some_admin (snd (SetUserRole i RoleAdmin d))"
  by (auto simp: CreateUser_def UpdateUserQuota_def SetUserPassword_def SetUserRole_def Let_def some_admin_upd)
    (simp_all add: some_admin_iff bump_seq_def)

lemma some_admin_other_stmts:
  "some_admin (snd (ListUsers d)) = some_admin d" "some_admin (snd (GetUserByID i d)) = some_admin d"
  "some_admin (snd (CountAdmins d)) = some_admin d" "some_admin (snd (GetUserEndpoints i d)) = some_admin d"
  "some_admin (snd (GetUserEndpointQuota i j d)) = some_admin d"
  "some_admin (snd (SetUserEndpoints i gs d)) = some_admin d" "some_admin (snd (GetRequest i d)) = some_admin d"
  "some_admin (snd (ReviewRequest i s b n d)) = some_admin d"
  "some_admin (snd (GrantUserEndpointQuota i j c m k d)) = some_admin d"
  by (rule some_admin_users, simp add: ListUsers_def CountAdmins_def GetUserEndpoints_def
      GetUserEndpointQuota_def GetRequest_def ReviewRequest_def GrantUserEndpointQuota_def InsertGrant_tables
      SetUserEndpoints_users)+

lemma some_admin_write_grant: "some_admin d \<Longrightarrow> some_admin (snd (write_grant rr c m k d))"
  by (simp add: write_grant_def some_admin_stmts some_admin_other_stmts)

named_theorems admin_keep \<open>what leaves an administrator\<close>

abbreviation administered :: "'e world \<Rightarrow> bool" where
  "administered w \<equiv> some_admin (w_db w)"

lemma administered_stmts [admin_keep]:
  "io_keeps administered (sql X ListUsers)" "io_keeps administered (sql X (CreateUser u))"
  "io_keeps administered (sql X (UpdateUserQuota i c m k))" "io_keeps administered (sql X (SetUserPassword i h))"
  "io_keeps administered (sql X (SetUserRole i RoleAdmin))" "io_keeps administered (sql X (GetUserByID i))"
  "io_keeps administered (sql X CountAdmins)" "io_keeps administered (sql X (GetUserEndpoints i))"
  "io_keeps administered (sql X (GetUserEndpointQuota i j))" "io_keeps administered (sql X (SetUserEndpoints i gs))"
  "io_keeps administered (sql X (GetRequest i))" "io_keeps administered (sql X (ReviewRequest i s b n))"
  "io_keeps administered (sql X (write_grant rr c m k))"
  by (rule some_admin_sql, simp add: some_admin_stmts some_admin_other_stmts some_admin_write_grant)+

lemma administered_hash [admin_keep]: "io_keeps administered (HashPassword X pw)"
  by (simp add: HashPassword_def some_admin_ext)

text \<open>The handlers that cannot take an administrator away.\<close>

lemma administered_handlers:
  "io_keeps administered (handleListUsers X r)" "io_keeps administered (handleCreateUser X cb r)"
  "io_keeps administered (handleUpdateUserQuota X qb r)" "io_keeps administered (handleResetPassword X pb r)"
  "io_keeps administered (handleGetUserEnvironments X r)" "io_keeps administered (handleSetUserEnvironments X gb r)"
  "io_keeps administered (handleReviewRequest X vb r)"
  unfolding handleListUsers_def handleCreateUser_def handleUpdateUserQuota_def handleResetPassword_def
    handleGetUserEnvironments_def handleSetUserEnvironments_def handleReviewRequest_def current_quota_def Let_def
  by (intro io_keep admin_keep)+

text \<open>Taking the role from one account leaves the other administrators.\<close>

lemma admins_demote: "admins (snd (SetUserRole i RoleMember d)) = filter (\<lambda>u. us_id u \<noteq> i) (admins d)"
proof -
  have "filter (\<lambda>u. us_role u = RoleAdmin) (upd_rows (\<lambda>u. us_id u = i) (\<lambda>u. u\<lparr>us_role := RoleMember\<rparr>) us) =
      filter (\<lambda>u. us_id u \<noteq> i) (filter (\<lambda>u. us_role u = RoleAdmin) us)" for us
    by (induction us) (auto simp: RoleMember_def RoleAdmin_def)
  then show ?thesis by (simp add: admins_def SetUserRole_def)
qed

lemma GetUserByID_find:
  "GetUserByID i d = (case find (\<lambda>u. us_id u = i) (db_users d) of None \<Rightarrow> Inl ErrNotFound | Some u \<Rightarrow> Inr u, d)"
  by (simp add: GetUserByID_def scanUser_def)

lemma at_most_one: "distinct (map key xs) \<Longrightarrow> length (filter (\<lambda>x. key x = k) xs) \<le> 1"
proof (induction xs)
  case (Cons x xs)
  show ?case
  proof (cases "key x = k")
    case True
    with Cons.prems have "filter (\<lambda>x. key x = k) xs = []" by (force simp: filter_empty_conv image_iff)
    with True show ?thesis by simp
  qed (use Cons in simp)
qed simp

text \<open>The check lets a demotion through only when another administrator remains.\<close>

lemma demotes_last_admin_False:
  assumes "faultless X" "db_ok (w_db w)" "some_admin (w_db w)" "demotes_last_admin X i w = (Inr False, w')"
  shows "filter (\<lambda>u. us_id u \<noteq> i) (admins (w_db w)) \<noteq> [] \<and> admins (w_db w') = admins (w_db w)"
proof -
  let ?d = "w_db w" and ?as = "admins (w_db w)"
  have same: "admins (w_db w') = ?as"
    using assms(4)
    by (auto simp: demotes_last_admin_def io_inr sql_faultless [OF assms(1)] GetUserByID_find CountAdmins_def
        admins_def split: option.splits if_splits)
  have ids: "distinct (map us_id (db_users ?d))"
    using db_okD(1) [OF assms(2)] by (simp add: users_ok_def tbl_ok_def)
  show ?thesis
  proof (cases "\<exists>u \<in> set ?as. us_id u = i")
    case False
    then have "filter (\<lambda>u. us_id u \<noteq> i) ?as = ?as" by (intro filter_True) auto
    with assms(3) same show ?thesis by (simp add: some_admin_def)
  next
    case True
    then obtain u where u: "u \<in> set (db_users ?d)" "us_role u = RoleAdmin" "us_id u = i" by (auto simp: admins_def)
    with ids have "find (\<lambda>u. us_id u = i) (db_users ?d) = Some u" by (simp add: find_Some_iff_distinct)
    with assms(4) u(2) have "\<not> length ?as \<le> 1"
      by (auto simp: demotes_last_admin_def io_inr sql_faultless [OF assms(1)] GetUserByID_find CountAdmins_def
          admins_def)
    moreover have "length (filter (\<lambda>u. us_id u = i) ?as) \<le> 1"
    proof -
      have "distinct (map us_id ?as)" using ids by (simp add: admins_def distinct_map_filter)
      then show ?thesis by (rule at_most_one)
    qed
    moreover have "length (filter (\<lambda>u. us_id u = i) ?as) + length (filter (\<lambda>u. us_id u \<noteq> i) ?as) = length ?as"
      by (rule sum_length_filter_compl)
    ultimately show ?thesis using same by auto
  qed
qed

lemma sql_SetUserRole:
  assumes "faultless X" "sql X (SetUserRole i role) w = (res, w')"
  shows "admins (w_db w') = admins (snd (SetUserRole i role (w_db w)))"
  using assms(2) by (auto simp: sql_faultless [OF assms(1)] SetUserRole_def admins_def)

lemma handleSetUserRole_administered:
  assumes "faultless X" "db_ok (w_db w)" "administered w"
  shows "administered (snd (handleSetUserRole X body r w))"
proof (cases "\<exists>i role. goAtoi (rq_param r ''id'') = Some i \<and> body = Inr role \<and> role = RoleMember")
  case False
  have "io_keeps administered (handleSetUserRole X body r)"
  proof (cases "goAtoi (rq_param r ''id'')")
    case None
    then show ?thesis by (simp add: handleSetUserRole_def id_param_def writeErr_def)
  next
    case (Some i)
    show ?thesis
    proof (cases body)
      case (Inl e)
      then show ?thesis
        by (simp add: handleSetUserRole_def id_param_Some [OF Some] writeErr_def)
    next
      case (Inr role)
      with Some False have "role \<noteq> RoleMember" by simp
      then show ?thesis
        by (cases "role = RoleAdmin")
          (auto simp: handleSetUserRole_def id_param_Some [OF Some] Inr intro!: io_keep admin_keep)
    qed
  qed
  with assms(3) show ?thesis by (simp add: io_keeps_def)
next
  case True
  then obtain i where i: "goAtoi (rq_param r ''id'') = Some i" "body = Inr RoleMember" by auto
  let ?k = "\<lambda>blocked. if blocked then writeErr 400 (Err ''cannot demote the last admin'')
     else io_seq (or_status 500 (sql X (SetUserRole i RoleMember))) (writeJSON 200 ''updated'')"
  have h: "handleSetUserRole X body r = io_bind (demotes_last_admin X i) ?k"
    by (simp add: handleSetUserRole_def id_param_Some [OF i(1)] i(2))
  have check: "io_keeps administered (demotes_last_admin X i)"
    unfolding demotes_last_admin_def by (intro io_keep admin_keep)
  obtain res v where d: "demotes_last_admin X i w = (res, v)" by (cases "demotes_last_admin X i w")
  with check assms(3) have v: "administered v" by (blast dest: io_keepsD)
  show ?thesis
  proof (cases "res = Inr False")
    case False
    with v d show ?thesis by (cases res) (auto simp: h io_bind_def writeErr_def io_raise_def)
  next
    case True
    with demotes_last_admin_False [OF assms] d
    have "filter (\<lambda>u. us_id u \<noteq> i) (admins (w_db v)) \<noteq> []" by metis
    moreover obtain q u where q: "sql X (SetUserRole i RoleMember) v = (q, u)" by (cases "sql X (SetUserRole i RoleMember) v")
    ultimately have "administered u"
      using sql_SetUserRole [OF assms(1) q] by (simp add: admins_demote some_admin_def)
    moreover from True d q have "snd (handleSetUserRole X body r w) = u"
      by (cases q) (auto simp: h io_bind_def io_seq_def or_status_def io_maperr_def writeJSON_def io_ret_def)
    ultimately show ?thesis by simp
  qed
qed

lemma handleDeleteUser_administered:
  assumes "u \<in> set (db_users (w_db w))" "us_id u = pr_userID (Current r)" "us_role u = RoleAdmin"
  shows "administered (snd (handleDeleteUser X r w))"
proof -
  let ?I = "\<lambda>w. u \<in> set (db_users (w_db w))"
  have "io_keeps ?I (sql X (DeleteUser i))" if "i \<noteq> pr_userID (Current r)" for i
  proof (rule io_keepsI)
    fix w :: "'a world"
    assume w: "?I w"
    with that assms(2) sql_db [of X "DeleteUser i" w] show "?I (snd (sql X (DeleteUser i) w))"
      by (auto simp: DeleteUser_def)
  qed
  then have "io_keeps ?I (handleDeleteUser X r)"
    unfolding handleDeleteUser_def by (intro io_keep)
  with assms have "?I (snd (handleDeleteUser X r w))" by (simp add: io_keeps_def)
  with assms(3) show ?thesis by (auto simp: some_admin_iff)
qed

text \<open>
  C18: administrators cannot lock themselves out.  Whatever account request (create, quota, role,
  password, environments, delete, review) an administrator makes, with whatever arguments, some
  account still has the administrator's role afterwards; the database driver is assumed to report
  no errors, and the one who asks to be an administrator in the database still.
\<close>

theorem administrators_remain:
  assumes "faultless X" "db_ok (w_db w)"
    and "u \<in> set (db_users (w_db w))" "us_id u = pr_userID (Current r)" "us_role u = RoleAdmin"
  shows "\<exists>v \<in> set (db_users (w_db (snd (handle X S (Accounts c) r w)))). us_role v = RoleAdmin"
proof -
  have w: "administered w" using assms by (auto simp: some_admin_iff)
  have reply: "snd (reply f h r w) = snd (h r w)" for f :: "'b \<Rightarrow> payload" and h
    by (cases "h r w") (auto simp: reply_def io_bind_def io_ret_def split: sum.split)
  have "administered (snd (handle X S (Accounts c) r w))"
    using io_keepsE [OF administered_handlers(1)] io_keepsE [OF administered_handlers(2)]
      io_keepsE [OF administered_handlers(3)] io_keepsE [OF administered_handlers(4)]
      io_keepsE [OF administered_handlers(5)] io_keepsE [OF administered_handlers(6)]
      io_keepsE [OF administered_handlers(7)] handleSetUserRole_administered [OF assms(1,2) w]
      handleDeleteUser_administered [OF assms(3-5)] w
    by (cases c) (simp_all add: reply)
  then show ?thesis by (simp add: some_admin_iff)
qed

definition ann_request :: request where
  "ann_request = (sim_request (\<lambda>_. ''''))\<lparr>rq_param := (\<lambda>_. ''1''),
     rq_principal := user_principal (sim_user 1 ''ann'' RoleAdmin)\<rparr>"

theorem administrators_remain_witness:
  "\<exists>v \<in> set (db_users (w_db (snd (handle sim_ext sim_server (Accounts (PutRole (Inr RoleMember))) ann_request
     (sim_world sim_users_db))))). us_role v = RoleAdmin"
proof (rule administrators_remain)
  show "sim_user 1 ''ann'' RoleAdmin \<in> set (db_users (w_db (sim_world sim_users_db)))"
    by (simp add: sim_world_def sim_users_db_def)
qed (simp_all add: sim_world_def ann_request_def Current_def user_principal_def sim_user_def)

section \<open>Reviews\<close>

text \<open>The quotas as one map: the local host's are columns of the user, the others are grants.\<close>

definition quota_on :: "db \<Rightarrow> int \<times> int \<Rightarrow> quota option" where
  "quota_on d = (\<lambda>(u, e). if e = 0
     then map_option (\<lambda>v. (us_cpuQuotaMilli v, us_memQuotaMB v, us_diskQuotaMB v))
       (find (\<lambda>v. us_id v = u) (db_users d))
     else grants_look d (u, e))"

definition granted_quota :: "review_body \<Rightarrow> resource_request \<Rightarrow> quota option \<Rightarrow> quota" where
  "granted_quota b rr cur = (case (case cur of None \<Rightarrow> (0, 0, 0) | Some q \<Rightarrow> q) of (c, m, k) \<Rightarrow>
     (pick (vb_grantCPUMilli b) (rr_cpuMilli rr) c, pick (vb_grantMemMB b) (rr_memMB rr) m,
      pick (vb_grantDiskMB b) (rr_diskMB rr) k))"

lemma quota_on_now [simp]: "quota_on (d\<lparr>db_now := n\<rparr>) = quota_on d"
  by (simp add: quota_on_def grants_look_def fun_eq_iff)

lemma ReviewRequest_quota [simp]: "quota_on (snd (ReviewRequest i s b n d)) = quota_on d"
  by (simp add: ReviewRequest_def quota_on_def grants_look_def fun_eq_iff)

lemma write_grant_quota:
  assumes "db_ok d" "rr \<in> set (db_requests d)" "write_grant rr c m k d = (Inr (), d')"
  shows "quota_on d' = (quota_on d)((rr_userID rr, rr_endpointID rr) \<mapsto> (c, m, k)) \<and> db_requests d' = db_requests d"
proof (cases "rr_endpointID rr = 0")
  case True
  with assms(3) have d': "d' = d\<lparr>db_users := upd_rows (\<lambda>u. us_id u = rr_userID rr)
      (\<lambda>u. u\<lparr>us_cpuQuotaMilli := c, us_memQuotaMB := m, us_diskQuotaMB := k\<rparr>) (db_users d)\<rparr>"
    by (auto simp: write_grant_def UpdateUserQuota_def split: if_splits)
  from assms(1,2) have "rr_userID rr \<in> us_id ` set (db_users d)"
    by (auto simp: db_ok_def requests_ok_def)
  then have "find (\<lambda>v. us_id v = rr_userID rr) (db_users d) \<noteq> None" by (auto simp: find_None_iff_all)
  with True show ?thesis
    using row_look_upd [of us_id "rr_userID rr" _ "db_users d"]
    by (auto simp: d' quota_on_def grants_look_def row_look_def fun_eq_iff)
next
  case False
  let ?g = "\<lparr>eg_endpointID = rr_endpointID rr, eg_cpuQuotaMilli = c, eg_memQuotaMB = m, eg_diskQuotaMB = k\<rparr>"
  from False assms(3) have g: "InsertGrant (rr_userID rr) ?g d = (Inr (), d')"
    by (simp add: write_grant_def GrantUserEndpointQuota_def)
  then have "grant_fits d (rr_userID rr, eg_endpointID ?g) (grant_quota (rr_userID rr, ?g))"
    by (auto simp: InsertGrant_def grant_fits_def grant_quota_def split: if_splits)
  from InsertGrant_fits(2) [OF this] g
  have l: "grants_look d' = (grants_look d)((rr_userID rr, rr_endpointID rr) \<mapsto> (c, m, k))"
    by (simp add: grant_quota_def)
  from g have "db_users d' = db_users d" "db_requests d' = db_requests d"
    by (auto simp: InsertGrant_def split: if_splits)
  with l False show ?thesis by (auto simp: quota_on_def fun_eq_iff)
qed

lemma current_quota_Inr:
  assumes "faultless X" "current_quota X rr w = (Inr (c, m, k), w')"
  shows "(case quota_on (w_db w) (rr_userID rr, rr_endpointID rr) of None \<Rightarrow> (0, 0, 0) | Some q \<Rightarrow> q) = (c, m, k) \<and>
    (\<exists>n. w_db w' = (w_db w)\<lparr>db_now := n\<rparr>)"
proof (cases "rr_endpointID rr = 0")
  case True
  with assms(2) show ?thesis
    by (cases "find (\<lambda>v. us_id v = rr_userID rr) (db_users (w_db w))")
      (auto simp: current_quota_def io_inr sql_faultless [OF assms(1)] GetUserByID_find quota_on_def)
next
  case False
  with assms(2) show ?thesis
    by (cases "row_look grant_key (db_user_endpoints (w_db w)) (rr_userID rr, rr_endpointID rr)")
      (auto simp: current_quota_def io_inr sql_faultless [OF assms(1)] GetUserEndpointQuota_def quota_on_def
        grants_look_def grant_quota_def)
qed

lemma GetRequest_Inr: "GetRequest i d = (Inr rr, d') \<Longrightarrow> d' = d \<and> rr \<in> set (db_requests d) \<and> rr_id rr = i"
  by (auto simp: GetRequest_def scanRequest_def split: option.splits dest!: find_SomeD)

lemma reviewed_request:
  assumes "rr \<in> set (db_requests d)" "rr_id rr = i" "ReviewRequest i s me n d = (Inr u, d')"
  shows "\<exists>q. find (\<lambda>q. rr_id q = i) (db_requests d') = Some q \<and> rr_status q = s \<and> rr_reviewedBy q = me"
proof -
  let ?f = "\<lambda>r. r\<lparr>rr_status := s, rr_reviewedBy := me, rr_reviewNote := n, rr_reviewedAt := Some (db_now d)\<rparr>"
  have "find (\<lambda>q. rr_id q = i) (upd_rows (\<lambda>q. rr_id q = i) ?f (db_requests d)) =
      map_option ?f (find (\<lambda>q. rr_id q = i) (db_requests d))"
    using row_look_upd [of rr_id i ?f "db_requests d" i] by (simp add: row_look_def)
  moreover have "find (\<lambda>q. rr_id q = i) (db_requests d) \<noteq> None" using assms(1,2) by (auto simp: find_None_iff_all)
  ultimately show ?thesis using assms(3) by (auto simp: ReviewRequest_def)
qed

text \<open>
  C19: a review is one update of the quotas.  When the driver reports no errors and a review
  succeeds, the reviewed request is stored as approved or rejected by the reviewer; a rejection
  changes no quota, and an approval changes the quota of exactly one user on exactly one
  environment, to what the reviewer overrides, else what was requested, else what the user had.
\<close>

theorem review_updates_quota:
  assumes "faultless X" "db_ok (w_db w)" "handleReviewRequest X (Inr b) r w = (Inr x, w')"
  shows "\<exists>rr \<in> set (db_requests (w_db w)). goAtoi (rq_param r ''id'') = Some (rr_id rr) \<and>
    quota_on (w_db w') = (if vb_approve b
      then (quota_on (w_db w))((rr_userID rr, rr_endpointID rr) \<mapsto>
        granted_quota b rr (quota_on (w_db w) (rr_userID rr, rr_endpointID rr)))
      else quota_on (w_db w)) \<and>
    (\<exists>q. find (\<lambda>q. rr_id q = rr_id rr) (db_requests (w_db w')) = Some q \<and>
       rr_status q = (if vb_approve b then StatusApproved else StatusRejected) \<and>
       rr_reviewedBy q = pr_username (Current r))"
proof -
  let ?me = "pr_username (Current r)"
  let ?st = "if vb_approve b then StatusApproved else StatusRejected"
  from assms(3) obtain i rr w1 where i: "goAtoi (rq_param r ''id'') = Some i"
    and g: "sql X (GetRequest i) w = (Inr rr, w1)"
    by (auto simp: handleReviewRequest_def io_inr)
  obtain n where w1: "w_db w1 = (w_db w)\<lparr>db_now := n\<rparr>" and rr: "rr \<in> set (db_requests (w_db w))" "rr_id rr = i"
    by (rule sql_Inr [OF g]) (auto dest!: GetRequest_Inr)
  have review: ?thesis
    if v: "sql X (ReviewRequest i ?st ?me (vb_note b)) v = (Inr u, w')" and d: "db_requests (w_db v) = db_requests (w_db w)"
      and q: "quota_on (w_db v) = (if vb_approve b
        then (quota_on (w_db w))((rr_userID rr, rr_endpointID rr) \<mapsto>
          granted_quota b rr (quota_on (w_db w) (rr_userID rr, rr_endpointID rr)))
        else quota_on (w_db w))" for v u
  proof (rule sql_Inr [OF v])
    fix d' e now
    assume s: "ReviewRequest i ?st ?me (vb_note b) ((w_db v)\<lparr>db_now := now\<rparr>) = (Inr u, d')" and w': "w' = v\<lparr>w_db := d', w_ext := e\<rparr>"
    have "quota_on d' = quota_on (w_db v)" using ReviewRequest_quota [of i ?st ?me "vb_note b"] s by (metis quota_on_now snd_conv)
    with q w' rr i reviewed_request [OF _ rr(2) s] d show ?thesis by auto
  qed
  show ?thesis
  proof (cases "vb_approve b")
    case False
    with assms(3) g obtain u where "sql X (ReviewRequest i ?st ?me (vb_note b)) w1 = (Inr u, w')"
      by (auto simp: handleReviewRequest_def io_inr i Let_def)
    from review [OF this] False w1 show ?thesis by simp
  next
    case True
    with assms(3) g obtain c m k w2 w3 u u2 where cur: "current_quota X rr w1 = (Inr (c, m, k), w2)"
      and wr: "sql X (write_grant rr (pick (vb_grantCPUMilli b) (rr_cpuMilli rr) c) (pick (vb_grantMemMB b) (rr_memMB rr) m)
        (pick (vb_grantDiskMB b) (rr_diskMB rr) k)) w2 = (Inr u2, w3)"
      and rv: "sql X (ReviewRequest i ?st ?me (vb_note b)) w3 = (Inr u, w')"
      by (auto simp: handleReviewRequest_def io_inr i Let_def)
    from current_quota_Inr [OF assms(1) cur] w1
    have q: "granted_quota b rr (quota_on (w_db w) (rr_userID rr, rr_endpointID rr)) =
        (pick (vb_grantCPUMilli b) (rr_cpuMilli rr) c, pick (vb_grantMemMB b) (rr_memMB rr) m,
         pick (vb_grantDiskMB b) (rr_diskMB rr) k)"
      and w2: "\<exists>n. w_db w2 = (w_db w)\<lparr>db_now := n\<rparr>"
      by (auto simp: granted_quota_def)
    show ?thesis
    proof (rule sql_Inr [OF wr])
      fix d e now
      let ?d = "(w_db w2)\<lparr>db_now := now\<rparr>"
      assume s: "write_grant rr (pick (vb_grantCPUMilli b) (rr_cpuMilli rr) c) (pick (vb_grantMemMB b) (rr_memMB rr) m)
        (pick (vb_grantDiskMB b) (rr_diskMB rr) k) ?d = (Inr u2, d)" and w3: "w3 = w2\<lparr>w_db := d, w_ext := e\<rparr>"
      have d: "db_ok ?d" "rr \<in> set (db_requests ?d)" "quota_on ?d = quota_on (w_db w)" "db_requests ?d = db_requests (w_db w)"
        using w2 assms(2) rr(1) by auto
      from write_grant_quota [OF d(1,2)] s d(3,4) w3 have "quota_on (w_db w3) = (quota_on (w_db w))((rr_userID rr, rr_endpointID rr) \<mapsto>
          granted_quota b rr (quota_on (w_db w) (rr_userID rr, rr_endpointID rr)))" "db_requests (w_db w3) = db_requests (w_db w)"
        unfolding q by auto
      with review [OF rv] True show ?thesis by simp
    qed
  qed
qed

lemma sim_requests_db_ok [simp]: "db_ok sim_requests_db"
  by (simp add: db_ok_def db_ok_defs sim_requests_db_def sim_users_db_def db_empty_def sim_user_def
      sim_resource_request_def tbl_ok_def in_i32_def)

definition sim_review :: review_body where
  "sim_review = \<lparr>vb_approve = True, vb_grantCPUMilli = 0, vb_grantMemMB = 0, vb_grantDiskMB = 0, vb_note = ''''\<rparr>"

theorem review_updates_quota_witness:
  "\<exists>x w'. handleReviewRequest sim_ext (Inr sim_review) (ann_request\<lparr>rq_param := (\<lambda>_. ''2'')\<rparr>)
      (sim_world sim_requests_db) = (Inr x, w') \<and> quota_on (w_db w') (2, 0) = Some (1000, 1024, 50)"
proof -
  let ?h = "handleReviewRequest sim_ext (Inr sim_review) (ann_request\<lparr>rq_param := (\<lambda>_. ''2'')\<rparr>) (sim_world sim_requests_db)"
  have "(case fst ?h of Inr x \<Rightarrow> True | Inl _ \<Rightarrow> False)" by code_simp
  then obtain x w' where h: "?h = (Inr x, w')" by (cases ?h) (auto split: sum.splits)
  have "db_ok (w_db (sim_world sim_requests_db))" by (simp add: sim_world_def)
  from review_updates_quota [OF sim_faultless this h]
  obtain rr where rr: "rr \<in> set (db_requests sim_requests_db)" "goAtoi ''2'' = Some (rr_id rr)"
    and q: "quota_on (w_db w') = (quota_on sim_requests_db)((rr_userID rr, rr_endpointID rr) \<mapsto>
        granted_quota sim_review rr (quota_on sim_requests_db (rr_userID rr, rr_endpointID rr)))"
    by (auto simp: sim_world_def sim_review_def)
  have "goAtoi ''2'' = Some 2" by code_simp
  with rr have "rr = sim_resource_request 2 ''bob''" by (auto simp: sim_requests_db_def sim_resource_request_def)
  moreover have "granted_quota sim_review (sim_resource_request 2 ''bob'') (quota_on sim_requests_db (2, 0)) = (1000, 1024, 50)"
    by code_simp
  ultimately show ?thesis using h q by (simp add: sim_resource_request_def)
qed

end
