(* ===== verification/Quotas.thy ===== *)
theory Quotas
  imports Accounts
begin

text \<open>
  What the quota checks of \<^verbatim>\<open>internal/api\<close> bound: the storage budgets of a member's
  volumes and the CPU and memory of a created service, in exact arithmetic where the code
  computes with 64-bit integers.
\<close>

section \<open>Storage\<close>

text \<open>Recording a budget adds at most the size to what was counted before.\<close>

definition cost :: "int \<Rightarrow> string \<Rightarrow> string \<Rightarrow> volume_spec \<Rightarrow> int" where
  "cost e ow ex v = (if vs_endpointID v = e \<and> vs_owner v = ow \<and> vs_name v \<noteq> ex then vs_sizeMB v else 0)"

lemma usage_cost: "disk_usage e ow ex d = (\<Sum>v\<leftarrow>db_volume_specs d. cost e ow ex v)"
proof -
  have "sum_list (map vs_sizeMB (owner_rows e ow ex rows)) = (\<Sum>v\<leftarrow>rows. cost e ow ex v)" for rows
    by (induction rows) (auto simp: owner_rows_def cost_def)
  then show ?thesis by (simp add: disk_usage_def)
qed

lemma cost_nonneg: "0 \<le> vs_sizeMB v \<Longrightarrow> 0 \<le> cost e ow ex v"
  by (simp add: cost_def)

lemma cost_other: "vol_key v \<noteq> (e, n) \<Longrightarrow> ex = '''' \<or> ex = n \<Longrightarrow> 0 \<le> vs_sizeMB v \<Longrightarrow> cost e ow '''' v \<le> cost e ow ex v"
  by (auto simp: cost_def vol_key_def)

lemma cost_new: "0 \<le> s \<Longrightarrow> cost e ow '''' (vol_overwrite ow s v) \<le> s" "0 \<le> s \<Longrightarrow> cost e ow '''' (vol_row e n ow s) \<le> s"
  by (simp_all add: cost_def vol_overwrite_def vol_row_def)

lemma usage_after_upsert:
  assumes "\<forall>v \<in> set rows. 0 \<le> vs_sizeMB v" "0 \<le> s" "distinct (map vol_key rows)" "ex = '''' \<or> ex = n"
  shows "(\<Sum>v\<leftarrow>upsert_row vol_key (vol_overwrite ow s) (vol_row e n ow s) rows. cost e ow '''' v)
    \<le> (\<Sum>v\<leftarrow>rows. cost e ow ex v) + s"
proof -
  let ?up = "upd_rows (\<lambda>v. vol_key v = (e, n)) (vol_overwrite ow s)"
  have other: "(\<Sum>v\<leftarrow>rows. cost e ow '''' v) \<le> (\<Sum>v\<leftarrow>rows. cost e ow ex v)"
    if "\<forall>v \<in> set rows. 0 \<le> vs_sizeMB v" "(e, n) \<notin> vol_key ` set rows" for rows
    using that by (intro sum_list_mono cost_other [OF _ assms(4)]) (auto simp: image_iff)
  have "(\<Sum>v\<leftarrow>?up rows. cost e ow '''' v) \<le> (\<Sum>v\<leftarrow>rows. cost e ow ex v) + s"
    using assms(1,3)
  proof (induction rows)
    case (Cons v rows)
    show ?case
    proof (cases "vol_key v = (e, n)")
      case True
      with Cons.prems(2) have new: "(e, n) \<notin> vol_key ` set rows" by (metis distinct.simps(2) list.set_map list.simps(9))
      then have "?up rows = rows" by (induction rows) auto
      with other [OF _ new] Cons.prems(1) True cost_new(1) [OF assms(2), of e ow v] cost_nonneg [of v e ow ex]
      show ?thesis by fastforce
    next
      case False
      with Cons cost_other [OF False assms(4), of ow] show ?thesis by simp
    qed
  qed (simp add: assms(2))
  moreover have "(\<Sum>v\<leftarrow>rows @ [vol_row e n ow s]. cost e ow '''' v) \<le> (\<Sum>v\<leftarrow>rows. cost e ow ex v) + s"
    if "(e, n) \<notin> vol_key ` set rows"
    using other [OF assms(1) that] cost_new(2) [OF assms(2), of e ow n] by simp
  ultimately show ?thesis by (auto simp: upsert_row_def vol_row_def vol_key_def)
qed

text \<open>A statement that only reads.\<close>

lemma sql_read:
  assumes "sql X q w = (Inr x, w')" "\<And>d. snd (q d) = d"
  shows "\<exists>n. w_db w' = (w_db w)\<lparr>db_now := n\<rparr> \<and> q (w_db w') = (Inr x, w_db w')"
proof (rule sql_Inr [OF assms(1)])
  fix d e n
  assume "q ((w_db w)\<lparr>db_now := n\<rparr>) = (Inr x, d)" "w' = w\<lparr>w_db := d, w_ext := e\<rparr>"
  moreover from this(1) assms(2) [of "(w_db w)\<lparr>db_now := n\<rparr>"] have "d = (w_db w)\<lparr>db_now := n\<rparr>" by simp
  ultimately show ?thesis by auto
qed

text \<open>What passing the check means for a member.\<close>

lemma disk_quota_Inr:
  assumes "disk_quota X u env w = (Inr k, w')"
  shows "(\<exists>n. w_db w' = (w_db w)\<lparr>db_now := n\<rparr>) \<and> (find (\<lambda>v. us_id v = us_id u) (db_users (w_db w)) = Some u \<longrightarrow>
    (\<exists>c m. quota_on (w_db w) (us_id u, env) = Some (c, m, k)))"
proof (cases "env = 0")
  case True
  with assms have "k = us_diskQuotaMB u" "w_db w' = (w_db w)\<lparr>db_now := db_now (w_db w)\<rparr>" by (auto simp: disk_quota_def)
  then have "\<exists>n. w_db w' = (w_db w)\<lparr>db_now := n\<rparr>" by blast
  with True \<open>k = us_diskQuotaMB u\<close> show ?thesis by (simp add: quota_on_def)
next
  case False
  with assms obtain g where g: "sql X (GetUserEndpointQuota (us_id u) env) w = (Inr (Some g), w')" "k = eg_diskQuotaMB g"
    by (auto simp: disk_quota_def io_inr split: option.splits)
  with False show ?thesis
    by (auto simp: GetUserEndpointQuota_def quota_on_def grants_look_def grant_quota_def elim!: sql_Inr)
qed

lemma enforceVolumeQuota_Inr:
  assumes "enforceVolumeQuota X r s ex w = (Inr ow, w')" "\<not> IsAdmin (Current r)" "db_ok (w_db w)"
    and u: "u \<in> set (db_users (w_db w))" "us_id u = pr_userID (Current r)"
  shows "\<exists>c m k n. quota_on (w_db w) (us_id u, endpointID r) = Some (c, m, k) \<and> 0 < s \<and>
    i64 (disk_usage (endpointID r) (us_username u) ex (w_db w) + s) \<le> k \<and> ow = us_username u \<and>
    in_i64 (disk_usage (endpointID r) (us_username u) ex (w_db w)) \<and> w_db w' = (w_db w)\<lparr>db_now := n\<rparr>"
proof -
  let ?env = "endpointID r"
  from assms(1,2) obtain v w1 k w2 used where v: "sql X (GetUserByID (pr_userID (Current r))) w = (Inr v, w1)"
    and q: "disk_quota X v ?env w1 = (Inr k, w2)" and us: "sql X (OwnerDiskUsageMB ?env (us_username v) ex) w2 = (Inr used, w')"
    and c: "0 < s" "i64 (used + s) \<le> k" "ow = us_username v"
    by (auto simp: enforceVolumeQuota_def io_inr Let_def split: if_split_asm)
  obtain n1 where w1: "w_db w1 = (w_db w)\<lparr>db_now := n1\<rparr>" and "GetUserByID (pr_userID (Current r)) (w_db w1) = (Inr v, w_db w1)"
    using sql_read [OF v] by auto
  then have "v \<in> set (db_users (w_db w))" "us_id v = us_id u"
    using GetUserByID_Inr [of "w_db w1"] assms(3) u(2) by auto
  then have vu: "v = u" using u(1) db_okD(1) [OF assms(3)] by (metis users_ok_def tbl_ok_same_id)
  have f: "find (\<lambda>x. us_id x = us_id u) (db_users (w_db w)) = Some u"
    using u(1) db_okD(1) [OF assms(3)] by (metis users_ok_def tbl_ok_find_id)
  have "(\<exists>c m. quota_on (w_db w) (us_id u, ?env) = Some (c, m, k)) \<and> (\<exists>n. w_db w2 = (w_db w)\<lparr>db_now := n\<rparr>)"
    using disk_quota_Inr [OF q] f w1 vu by auto
  then obtain c m n2 where "quota_on (w_db w) (us_id u, ?env) = Some (c, m, k)" and w2: "w_db w2 = (w_db w)\<lparr>db_now := n2\<rparr>"
    by blast
  moreover have "used = disk_usage ?env (us_username u) ex (w_db w) \<and> in_i64 used \<and> (\<exists>n. w_db w' = (w_db w)\<lparr>db_now := n\<rparr>)"
    by (rule sql_Inr [OF us])
      (use w2 vu in \<open>auto simp: OwnerDiskUsageMB_def disk_usage_def Let_def split: if_splits\<close>)
  ultimately show ?thesis using c vu by blast
qed

text \<open>The size a volume route asks for, and the volume whose old size does not count.\<close>

fun asked_size :: "api_call \<Rightarrow> int" where
  "asked_size (Member (PostVolume (Inr b))) = wb_sizeMB b"
| "asked_size (Volume (PostResize (Inr n))) = n"
| "asked_size _ = 0"

lemma SetVolumeSize_usage:
  assumes "sql X (SetVolumeSize e n ow s) w = (Inr x, w')" "0 \<le> s" "db_ok (w_db w)"
    and "\<forall>v \<in> set (db_volume_specs (w_db w)). 0 \<le> vs_sizeMB v" "ex = '''' \<or> ex = n"
  shows "disk_usage e ow '''' (w_db w') \<le> disk_usage e ow ex (w_db w) + s"
proof (rule sql_Inr [OF assms(1)])
  fix d t now
  assume "SetVolumeSize e n ow s ((w_db w)\<lparr>db_now := now\<rparr>) = (Inr x, d)" "w' = w\<lparr>w_db := d, w_ext := t\<rparr>"
  moreover have "distinct (map vol_key (db_volume_specs (w_db w)))"
    using db_okD(9) [OF assms(3)] by (simp add: volumes_ok_def vol_key_def [abs_def])
  ultimately show ?thesis
    using usage_after_upsert [OF assms(4,2) _ assms(5), where e = e and ow = ow] by (auto simp: SetVolumeSize_def usage_cost)
qed

lemma disk_usage_now [simp]: "disk_usage e ow ex (d\<lparr>db_now := n\<rparr>) = disk_usage e ow ex d"
  by (simp add: disk_usage_def)

text \<open>The check and the record of a size, in a state that only the clock told apart.\<close>

lemma checked_size:
  assumes "enforceVolumeQuota X r s ex w = (Inr ow, w1)" "\<not> IsAdmin (Current r)" "db_ok (w_db w)"
    and "u \<in> set (db_users (w_db w))" "us_id u = pr_userID (Current r)"
    and "w_db w2 = w_db w1" "sql X (SetVolumeSize (endpointID r) n (us_username u) s) w2 = (Inr x, w3)"
    and "\<forall>v \<in> set (db_volume_specs (w_db w)). 0 \<le> vs_sizeMB v" "ex = '''' \<or> ex = n"
    and "in_i64 (disk_usage (endpointID r) (us_username u) ex (w_db w) + s)"
  shows "\<exists>c m k. quota_on (w_db w) (us_id u, endpointID r) = Some (c, m, k) \<and>
    disk_usage (endpointID r) (us_username u) '''' (w_db w3) \<le> k"
proof -
  from enforceVolumeQuota_Inr [OF assms(1-5)] obtain c m k t where
    q: "quota_on (w_db w) (us_id u, endpointID r) = Some (c, m, k)" and s: "0 < s"
    and le: "i64 (disk_usage (endpointID r) (us_username u) ex (w_db w) + s) \<le> k"
    and w1: "w_db w1 = (w_db w)\<lparr>db_now := t\<rparr>" by blast
  from w1 assms(6) have w2: "w_db w2 = (w_db w)\<lparr>db_now := t\<rparr>" by simp
  have "disk_usage (endpointID r) (us_username u) '''' (w_db w3) \<le>
      disk_usage (endpointID r) (us_username u) ex (w_db w2) + s"
    by (rule SetVolumeSize_usage [OF assms(7) _ _ _ assms(9)]) (use s w2 assms(3,8) in auto)
  also have "\<dots> \<le> k" using le i64_id [OF assms(10)] by (simp add: w2)
  finally show ?thesis using q by blast
qed

lemma same_data_now: "same_data w v \<Longrightarrow> \<exists>n. w_db v = (w_db w)\<lparr>db_now := n\<rparr>"
proof -
  assume "same_data w v"
  then have "(w_db v)\<lparr>db_now := 0\<rparr>\<lparr>db_now := db_now (w_db v)\<rparr> = (w_db w)\<lparr>db_now := 0\<rparr>\<lparr>db_now := db_now (w_db v)\<rparr>"
    by (simp only: same_data_def)
  then show ?thesis by auto
qed

lemma clientFor_same: "clientFor X S r w = (res, w') \<Longrightarrow> same_data w w'"
  unfolding clientFor_def using io_keepsD [OF same_data_ClientFor] same_data_refl by blast

lemma quota_on_same: "same_data w v \<Longrightarrow> quota_on (w_db v) = quota_on (w_db w)"
  by (auto dest!: same_data_now)

text \<open>
  C28: a member's volumes stay within the storage quota.  When a request of a member to create or
  resize a volume succeeds, the budgets recorded for the member on that environment then add up
  to at most the member's storage quota there, whatever the old budget of the volume was and
  whoever owned it; the sizes recorded before are not negative, and the usage with the
  asked size has to fit 64 bits.
\<close>

theorem member_volumes_within_quota:
  assumes "c = Member (PostVolume body) \<or> c = Volume (PostResize size_body)"
    and "handle X S c r w = (Inr x, w')" and "db_ok (w_db w)" and "\<not> IsAdmin (Current r)"
    and "u \<in> set (db_users (w_db w))" "us_id u = pr_userID (Current r)" "us_username u = pr_username (Current r)"
    and "us_username u \<noteq> ''''" "\<forall>v \<in> set (db_volume_specs (w_db w)). 0 \<le> vs_sizeMB v"
    and "\<forall>ex. in_i64 (disk_usage (endpointID r) (us_username u) ex (w_db w) + asked_size c)"
  shows "\<exists>cpu mem disk. quota_on (w_db w) (us_id u, endpointID r) = Some (cpu, mem, disk) \<and>
    disk_usage (endpointID r) (us_username u) '''' (w_db w') \<le> disk"
proof -
  have scope: "ownerScope r = us_username u" using assms(4,7) by (simp add: ownerScope_def Let_def)
  from assms(1) show ?thesis
  proof
    assume c: "c = Member (PostVolume body)"
    with assms(2) obtain b cli w1 ow w2 v w3 where body: "body = Inr b" and d: "clientFor X S r w = (Inr cli, w1)"
      and q: "enforceVolumeQuota X r (wb_sizeMB b) '''' w1 = (Inr ow, w2)"
      and v: "CreateVolume X cli (wb_name b) (wb_driver b) ((wb_labels b)(LabelOwner \<mapsto> us_username u)) w2 = (Inr v, w3)"
      and st: "sql X (SetVolumeSize (endpointID r) (vo_name v) (us_username u) (wb_sizeMB b)) w3 = (Inr (), w')"
      using assms(8) by (auto simp: reply_def handleCreateVolume_def io_inr Let_def scope)
    from same_data_now [OF clientFor_same [OF d]] obtain n where w1: "w_db w1 = (w_db w)\<lparr>db_now := n\<rparr>" by blast
    have "w_db w3 = w_db w2" using v by (auto simp: CreateVolume_def elim: ext_Inr)
    from checked_size [OF q assms(4) _ _ assms(6) this st] assms w1 body c show ?thesis by auto
  next
    assume c: "c = Volume (PostResize size_body)"
    with assms(2) obtain s ow w1 where body: "size_body = Inr s"
      and q: "enforceVolumeQuota X r s (rq_param r ''name'') w = (Inr ow, w1)"
      and st: "sql X (SetVolumeSize (endpointID r) (rq_param r ''name'') (us_username u) s) w1 = (Inr (), w')"
      using assms(8) by (auto simp: reply_def handleResizeVolume_def io_inr Let_def scope)
    from checked_size [OF q assms(4,3,5,6) refl st assms(9)] assms(10) body c show ?thesis by auto
  qed
qed

text \<open>The member has a recorded volume of one megabyte and asks to resize another.\<close>

definition sim_volumes_db :: db where
  "sim_volumes_db = sim_users_db\<lparr>db_volume_specs := [vol_row 0 ''logs'' ''bob'' 1, vol_row 0 ''data'' ''bob'' 10]\<rparr>"

definition bob_volume_request :: request where
  "bob_volume_request = (sim_request (\<lambda>_. ''''))\<lparr>rq_param := (\<lambda>_. ''data''),
     rq_principal := user_principal (sim_user 2 ''bob'' RoleMember)\<rparr>"

lemma sim_volumes_db_ok [simp]: "db_ok sim_volumes_db"
  by (simp add: db_ok_def db_ok_defs sim_volumes_db_def sim_users_db_def db_empty_def sim_user_def
      vol_row_def tbl_ok_def in_i32_def)

lemma sim_bob [simp]:
  "us_id (sim_user 2 ''bob'' RoleMember) = 2" "us_username (sim_user 2 ''bob'' RoleMember) = ''bob''"
  "Current bob_volume_request = user_principal (sim_user 2 ''bob'' RoleMember)"
  "pr_userID (user_principal (sim_user 2 ''bob'' RoleMember)) = 2"
  "pr_username (user_principal (sim_user 2 ''bob'' RoleMember)) = ''bob''"
  "\<not> IsAdmin (user_principal (sim_user 2 ''bob'' RoleMember))" "endpointID bob_volume_request = 0"
  by (simp_all add: sim_user_def user_principal_def IsAdmin_def bob_volume_request_def sim_request_def
      Current_def endpointID_def LocalID_def)

lemma sim_volumes_db_tables [simp]:
  "sim_user 2 ''bob'' RoleMember \<in> set (db_users sim_volumes_db)"
  "db_volume_specs sim_volumes_db = [vol_row 0 ''logs'' ''bob'' 1, vol_row 0 ''data'' ''bob'' 10]"
  by (simp_all add: sim_volumes_db_def sim_users_db_def)

lemma w_db_sim_world [simp]: "w_db (sim_world d) = d"
  by (simp add: sim_world_def)

theorem member_volumes_within_quota_witness:
  "\<exists>w' cpu mem disk. handle sim_ext sim_server (Volume (PostResize (Inr 99))) bob_volume_request (sim_world sim_volumes_db) =
       (Inr (200, RInt 99), w') \<and> quota_on sim_volumes_db (2, 0) = Some (cpu, mem, disk) \<and>
       disk_usage 0 ''bob'' '''' (w_db w') \<le> disk"
proof -
  let ?c = "Volume (PostResize (Inr 99))"
  let ?h = "handle sim_ext sim_server ?c bob_volume_request (sim_world sim_volumes_db)"
  have "(case fst ?h of Inr (st, RInt n) \<Rightarrow> st = 200 \<and> n = 99 | _ \<Rightarrow> False)" by code_simp
  then obtain w' where h: "?h = (Inr (200, RInt 99), w')"
    by (cases ?h; cases "fst ?h"; cases "snd (projr (fst ?h))") (auto split: prod.splits)
  have "in_i64 (disk_usage 0 ''bob'' ex sim_volumes_db + 99)" for ex
    by (simp add: usage_cost cost_def vol_row_def in_i64_def)
  then have "\<exists>cpu mem disk. quota_on (w_db (sim_world sim_volumes_db)) (us_id (sim_user 2 ''bob'' RoleMember), endpointID bob_volume_request) =
      Some (cpu, mem, disk) \<and> disk_usage (endpointID bob_volume_request) (us_username (sim_user 2 ''bob'' RoleMember)) '''' (w_db w') \<le> disk"
    by (intro member_volumes_within_quota [OF _ h]) (simp_all add: vol_row_def)
  with h show ?thesis by simp
qed








section \<open>CPU and memory\<close>

text \<open>The sums of the usage are 64-bit values, so the bound is computed without overflow.\<close>

lemma usage_loop_range:
  "usage_loop X c excl ss nano mem w = (Inr (n, m), w') \<Longrightarrow> in_i64 nano \<Longrightarrow> in_i64 mem \<Longrightarrow> in_i64 n \<and> in_i64 m"
proof (induction ss arbitrary: nano mem w)
  case (Cons s ss)
  from Cons.prems(1) obtain r w1 where "Inspect X c (su_id s) w = (r, w1)"
    by (auto simp: io_inr)
  then show ?case
    using Cons.prems Cons.IH i64_range
    by (cases r) (auto simp: io_inr split: if_splits option.splits)
qed auto

lemma OwnerUsage_range:
  "OwnerUsageExcludingService X c ow excl w = (Inr (n, m), w') \<Longrightarrow> in_i64 n \<and> in_i64 m"
  by (auto simp: OwnerUsageExcludingService_def io_inr in_i64_def dest!: usage_loop_range)

lemma go_div_bound:
  assumes "in_i64 a" "2 ^ 16 \<le> b"
  shows "\<bar>go_div a b\<bar> \<le> 2 ^ 47"
proof -
  have "\<bar>a\<bar> div \<bar>b\<bar> \<le> 2 ^ 63 div \<bar>b\<bar>" using assms by (intro zdiv_mono1) (auto simp: in_i64_def)
  also have "\<dots> \<le> 2 ^ 63 div 2 ^ 16" using assms(2) by (intro zdiv_mono2) auto
  finally have "\<bar>a\<bar> div \<bar>b\<bar> \<le> 2 ^ 47" by simp
  moreover have "0 \<le> \<bar>a\<bar> div \<bar>b\<bar>" using assms(2) by (intro pos_imp_zdiv_nonneg_iff [THEN iffD2]) auto
  ultimately show ?thesis by (auto simp: go_div_def abs_mult sgn_if)
qed

lemma abs_in_i64: "\<bar>x\<bar> \<le> 2 ^ 62 \<Longrightarrow> in_i64 x"
  by (auto simp: in_i64_def abs_le_iff)

lemma within_quota_exact:
  assumes "within_quota un um (i64 (n * cpu)) (i64 (n * mem)) qc qm" "in_i64 un" "in_i64 um"
    and "in_i32 n" "in_i32 cpu" "in_i32 mem"
  shows "go_div un nanoPerMilliCPU + n * cpu \<le> qc \<and> go_div um bytesPerMB + n * mem \<le> qm"
proof -
  have p: "\<bar>n * cpu\<bar> \<le> 2 ^ 62" "\<bar>n * mem\<bar> \<le> 2 ^ 62" using in_i32_mult [OF assms(4,5)] in_i32_mult [OF assms(4,6)] by simp_all
  have "i64 (n * cpu) = n * cpu" "i64 (n * mem) = n * mem"
    using p [THEN abs_in_i64] by (simp_all add: i64_id)
  moreover have "\<bar>go_div un nanoPerMilliCPU\<bar> \<le> 2 ^ 47" "\<bar>go_div um bytesPerMB\<bar> \<le> 2 ^ 47"
    using go_div_bound [OF assms(2), of nanoPerMilliCPU] go_div_bound [OF assms(3), of bytesPerMB]
    by (simp_all add: nanoPerMilliCPU_def bytesPerMB_def)
  moreover from this p have "in_i64 (go_div un nanoPerMilliCPU + n * cpu)" "in_i64 (go_div um bytesPerMB + n * mem)"
    by (auto simp: in_i64_def)
  ultimately show ?thesis using assms(1) by (simp add: within_quota_def i64_id)
qed

text \<open>The quota of the environment, for a user found in the database.\<close>

lemma env_quota_Inr:
  assumes "env_quota X u env w = (Inr (qc, qm), w')"
  shows "(\<exists>n. w_db w' = (w_db w)\<lparr>db_now := n\<rparr>) \<and> (find (\<lambda>v. us_id v = us_id u) (db_users (w_db w)) = Some u \<longrightarrow>
    (\<exists>disk. quota_on (w_db w) (us_id u, env) = Some (qc, qm, disk)))"
proof (cases "env = 0")
  case True
  with assms have q: "qc = us_cpuQuotaMilli u" "qm = us_memQuotaMB u" "w_db w' = (w_db w)\<lparr>db_now := db_now (w_db w)\<rparr>"
    by (auto simp: env_quota_def)
  from q(3) have "\<exists>n. w_db w' = (w_db w)\<lparr>db_now := n\<rparr>" by blast
  with True q(1,2) show ?thesis by (simp add: quota_on_def)
next
  case False
  with assms obtain g where g: "sql X (GetUserEndpointQuota (us_id u) env) w = (Inr (Some g), w')"
      "qc = eg_cpuQuotaMilli g" "qm = eg_memQuotaMB g"
    by (auto simp: env_quota_def io_inr split: option.splits)
  with False show ?thesis
    by (auto simp: GetUserEndpointQuota_def quota_on_def grants_look_def grant_quota_def elim!: sql_Inr)
qed

lemma enforceServiceQuota_Inr:
  assumes "enforceServiceQuota X S r n cpu mem excl w = (Inr ow, w')" "db_ok (w_db w)"
    and u: "u \<in> set (db_users (w_db w))" "us_id u = pr_userID (Current r)" "us_role u \<noteq> RoleAdmin"
  shows "\<exists>qc qm disk cli v v' un um. quota_on (w_db w) (us_id u, endpointID r) = Some (qc, qm, disk) \<and>
    OwnerUsageExcludingService X cli (us_username u) excl v = (Inr (un, um), v') \<and>
    within_quota un um (i64 (n * cpu)) (i64 (n * mem)) qc qm \<and> 0 < cpu \<and> 0 < mem \<and> ow = us_username u"
proof -
  let ?env = "endpointID r"
  from assms(1) obtain v w1 where v: "sql X (GetUserByID (pr_userID (Current r))) w = (Inr v, w1)"
    and rest: "us_role v \<noteq> RoleAdmin \<Longrightarrow> \<exists>qc qm w2 cli w3 un um w4. env_quota X v ?env w1 = (Inr (qc, qm), w2) \<and>
      OwnerUsageExcludingService X cli (us_username v) excl w3 = (Inr (un, um), w4) \<and>
      within_quota un um (i64 (n * cpu)) (i64 (n * mem)) qc qm \<and> 0 < cpu \<and> 0 < mem \<and> ow = us_username v"
    by (fastforce simp: enforceServiceQuota_def io_inr split: if_split_asm)
  obtain n1 where w1: "w_db w1 = (w_db w)\<lparr>db_now := n1\<rparr>" and "GetUserByID (pr_userID (Current r)) (w_db w1) = (Inr v, w_db w1)"
    using sql_read [OF v] by auto
  then have "v \<in> set (db_users (w_db w))" "us_id v = us_id u"
    using GetUserByID_Inr [of "w_db w1"] assms(2) u(2) by auto
  then have vu: "v = u" using u(1) db_okD(1) [OF assms(2)] by (metis users_ok_def tbl_ok_same_id)
  have f: "find (\<lambda>x. us_id x = us_id u) (db_users (w_db w)) = Some u"
    using u(1) db_okD(1) [OF assms(2)] by (metis users_ok_def tbl_ok_find_id)
  from rest u(3) vu obtain qc qm w2 cli w3 un um w4 where q: "env_quota X u ?env w1 = (Inr (qc, qm), w2)"
    and o: "OwnerUsageExcludingService X cli (us_username u) excl w3 = (Inr (un, um), w4)"
      "within_quota un um (i64 (n * cpu)) (i64 (n * mem)) qc qm" "0 < cpu" "0 < mem" "ow = us_username u"
    by blast
  from env_quota_Inr [OF q] f w1 obtain disk where "quota_on (w_db w) (us_id u, ?env) = Some (qc, qm, disk)" by auto
  with o show ?thesis by blast
qed

lemma CreateService_fits:
  "sql X (CreateService s) w = (Inr s', w') \<Longrightarrow> service_fits s \<and> sv_replicas s' = sv_replicas s \<and>
   sv_maxReplicas s' = sv_maxReplicas s \<and> sv_autoscale s' = sv_autoscale s \<and> sv_cpuMilli s' = sv_cpuMilli s \<and>
   sv_memMB s' = sv_memMB s \<and> sv_owner s' = sv_owner s \<and> sv_endpointID s' = sv_endpointID s"
  by (erule sql_Inr) (auto simp: CreateService_def Let_def advanced_default_def service_fits_def split: if_splits)

text \<open>How many replicas a service may come to run, by its autoscaler.\<close>

definition top_replicas :: "service \<Rightarrow> int" where
  "top_replicas s = (if sv_autoscale s then max (sv_replicas s) (sv_maxReplicas s) else sv_replicas s)"

text \<open>
  C16: a member's new service fits the quota.  When a member creates a service, then the usage
  Docker reported for the member and the CPU and the memory of all replicas the service may scale
  to are together within the member's quota on that environment, as exact numbers: neither the
  products nor the sums of the check wrap around, since the store refuses values beyond 32 bits.
\<close>

theorem created_service_within_quota:
  assumes "handleCreateService X S body r w = (Inr (st, v), w')" "db_ok (w_db w)"
    and "u \<in> set (db_users (w_db w))" "us_id u = pr_userID (Current r)" "us_role u \<noteq> RoleAdmin"
  shows "\<exists>qc qm disk cli w1 w2 un um. quota_on (w_db w) (us_id u, endpointID r) = Some (qc, qm, disk) \<and>
    OwnerUsageExcludingService X cli (us_username u) '''' w1 = (Inr (un, um), w2) \<and>
    go_div un nanoPerMilliCPU + top_replicas (sw_service v) * sv_cpuMilli (sw_service v) \<le> qc \<and>
    go_div um bytesPerMB + top_replicas (sw_service v) * sv_memMB (sw_service v) \<le> qm \<and>
    0 < sv_cpuMilli (sw_service v) \<and> 0 < sv_memMB (sw_service v) \<and> sv_owner (sw_service v) = us_username u"
proof -
  from assms(1) obtain b0 ow w1 token w2 svc w3 where body: "body = Inr b0"
    and q: "enforceServiceQuota X S r (effReplicas (service_defaults b0)) (sb_cpuMilli (service_defaults b0))
      (sb_memMB (service_defaults b0)) '''' w = (Inr ow, w1)"
    and c: "ServiceCreate X S ((service_of X (service_defaults b0))\<lparr>sv_name := sb_name (service_defaults b0), sv_owner := ow,
      sv_webhookToken := token, sv_endpointID := endpointID r\<rparr>) w2 = (Inr svc, w3)"
    and v: "sw_service v = svc"
    by (auto simp: handleCreateService_def io_inr Let_def reply_view_def serviceView_def split: if_splits)
  let ?b = "service_defaults b0"
  from c obtain w4 where "sql X (CreateService ((service_of X ?b)\<lparr>sv_name := sb_name ?b, sv_owner := ow,
      sv_webhookToken := token, sv_endpointID := endpointID r\<rparr>)) w2 = (Inr svc, w4)"
    by (auto simp: ServiceCreate_def io_inr)
  from CreateService_fits [OF this] have fit: "in_i32 (effReplicas ?b)" "in_i32 (sb_cpuMilli ?b)" "in_i32 (sb_memMB ?b)"
    and svc: "top_replicas svc = effReplicas ?b" "sv_cpuMilli svc = sb_cpuMilli ?b" "sv_memMB svc = sb_memMB ?b" "sv_owner svc = ow"
    by (auto simp: service_fits_def service_of_def effReplicas_def top_replicas_def)
  from enforceServiceQuota_Inr [OF q assms(2-5)] obtain qc qm disk cli w5 w6 un um where
    r: "quota_on (w_db w) (us_id u, endpointID r) = Some (qc, qm, disk)"
      "OwnerUsageExcludingService X cli (us_username u) '''' w5 = (Inr (un, um), w6)"
      "within_quota un um (i64 (effReplicas ?b * sb_cpuMilli ?b)) (i64 (effReplicas ?b * sb_memMB ?b)) qc qm"
      "0 < sb_cpuMilli ?b" "0 < sb_memMB ?b" "ow = us_username u" by blast
  have "go_div un nanoPerMilliCPU + effReplicas ?b * sb_cpuMilli ?b \<le> qc \<and>
      go_div um bytesPerMB + effReplicas ?b * sb_memMB ?b \<le> qm"
    using within_quota_exact [OF r(3)] OwnerUsage_range [OF r(2)] fit by simp
  with r(1,2,4,5,6) show ?thesis unfolding v svc by blast
qed

definition sim_service_body :: service_body where
  "sim_service_body = \<lparr>sb_name = ''web'', sb_image = ''nginx'', sb_subdomain = '''', sb_containerPort = 80,
     sb_network = '''', sb_env = [], sb_cpuMilli = 400, sb_memMB = 64, sb_replicas = 1, sb_minReplicas = 1,
     sb_maxReplicas = 2, sb_autoscale = True, sb_targetCPUPct = 0, sb_gitRepo = '''', sb_gitBranch = '''',
     sb_gitDockerfile = '''', sb_advanced = advanced_zero\<rparr>"

theorem created_service_within_quota_witness:
  "\<exists>v w'. handleCreateService sim_ext sim_server (Inr sim_service_body) bob_volume_request (sim_world sim_users_db) =
      (Inr (201, v), w') \<and> sv_owner (sw_service v) = ''bob'' \<and> 0 < sv_cpuMilli (sw_service v)"
proof -
  let ?h = "handleCreateService sim_ext sim_server (Inr sim_service_body) bob_volume_request (sim_world sim_users_db)"
  have "(case fst ?h of Inr (st, v) \<Rightarrow> st = 201 | Inl _ \<Rightarrow> False)" by code_simp
  then obtain v w' where h: "?h = (Inr (201, v), w')" by (cases ?h; cases "fst ?h") auto
  have "us_role (sim_user 2 ''bob'' RoleMember) \<noteq> RoleAdmin" by (simp add: sim_user_def)
  from created_service_within_quota [OF h _ _ _ this] h show ?thesis
    by (auto simp: sim_users_db_def sim_users_db_ok [unfolded sim_users_db_def])
qed

end
