(* ===== verification/Reserve.thy ===== *)
theory Reserve
  imports Quotas
begin

text \<open>
  What the quota check of a new service does not see.  \<^verbatim>\<open>enforceServiceQuota\<close> counts the
  new service with the replicas its autoscaler may reach, but what is there already as it runs at the
  moment: the rows of the services, with the replicas their autoscalers may still add, have no influence on
  its answer.
\<close>

section \<open>Computations that do not look at the services\<close>

definition with_services :: "service list \<Rightarrow> 'e world \<Rightarrow> 'e world" where
  "with_services ss w = w\<lparr>w_db := (w_db w)\<lparr>db_services := ss\<rparr>\<rparr>"

definition blind :: "('x, 'e world, 'a) io \<Rightarrow> bool" where
  "blind m \<longleftrightarrow> (\<forall>ss w. m (with_services ss w) = (fst (m w), with_services ss (snd (m w))))"

named_theorems blind

lemma blindD: "blind m \<Longrightarrow> m (with_services ss w) = (fst (m w), with_services ss (snd (m w)))"
  by (simp add: blind_def)

lemma blind_ret [blind]: "blind (io_ret x)" and blind_raise [blind]: "blind (io_raise e)"
  by (simp_all add: blind_def io_ret_def io_raise_def)

lemma blind_bind [blind]: "blind m \<Longrightarrow> (\<And>x. blind (k x)) \<Longrightarrow> blind (io_bind m k)"
  by (simp add: blind_def io_bind_def split: prod.split sum.split)

lemma blind_seq [blind]: "blind m \<Longrightarrow> blind n \<Longrightarrow> blind (io_seq m n)"
  unfolding io_seq_def by (rule blind_bind)

lemma blind_try [blind]: "blind m \<Longrightarrow> blind (io_try m)"
  by (simp add: blind_def io_try_def split: prod.split)

lemma blind_if [blind]: "blind m \<Longrightarrow> blind n \<Longrightarrow> blind (if b then m else n)"
  by simp

lemma blind_cases [blind]:
  "(\<And>e. blind (f e)) \<Longrightarrow> (\<And>x. blind (g x)) \<Longrightarrow> blind (case r of Inl e \<Rightarrow> f e | Inr x \<Rightarrow> g x)"
  "blind m \<Longrightarrow> (\<And>x. blind (h x)) \<Longrightarrow> blind (case o1 of None \<Rightarrow> m | Some x \<Rightarrow> h x)"
  "(\<And>x y. blind (k x y)) \<Longrightarrow> blind (case p of (x, y) \<Rightarrow> k x y)"
  by (simp_all split: sum.split option.split prod.split)

lemma blind_ext [blind]: "blind (ext f)"
  by (simp add: blind_def ext_def with_services_def split: prod.split)

lemma blind_clients [blind]: "blind (io_gets (\<lambda>w. w_clients w i))" "blind (cache_client i c)" "blind (new_client h t)"
  by (simp_all add: blind_def io_gets_def io_modify_def cache_client_def new_client_def with_services_def)

lemma blind_sql:
  fixes X :: "'e ext"
  assumes "\<And>d ss. q (d\<lparr>db_services := ss\<rparr>) = (fst (q d), (snd (q d))\<lparr>db_services := ss\<rparr>)"
  shows "blind (sql X q)"
  unfolding blind_def
proof (intro allI)
  fix ss and w :: "'e world"
  obtain f n e where x: "x_sql X (w_ext w) = ((f, n), e)" by (metis surj_pair)
  obtain r d where p: "q ((w_db w)\<lparr>db_now := n\<rparr>) = (r, d)" by (metis surj_pair)
  have "(w_db w)\<lparr>db_services := ss, db_now := n\<rparr> = (w_db w)\<lparr>db_now := n\<rparr>\<lparr>db_services := ss\<rparr>" by (cases "w_db w") simp
  then have "q ((w_db w)\<lparr>db_services := ss, db_now := n\<rparr>) = (r, d\<lparr>db_services := ss\<rparr>)" by (simp only: assms p) simp
  with x p show "sql X q (with_services ss w) = (fst (sql X q w), with_services ss (snd (sql X q w)))"
    by (cases w; cases f) (simp_all add: sql_def with_services_def)
qed

lemma blind_reads [blind]:
  "blind (sql X (GetUserByID i))" "blind (sql X (GetEndpoint i))" "blind (sql X (GetUserEndpointQuota u e))"
  by (rule blind_sql, simp add: GetUserByID_def GetEndpoint_def GetUserEndpointQuota_def split: option.split)+

lemma blind_NewRemote [blind]: "blind (NewRemote X h t)"
  unfolding NewRemote_def newSSHClient_def connect_def by (intro blind)

lemma blind_usage [blind]: "blind (OwnerUsageExcludingService X c ow ex)"
proof -
  have "blind (usage_loop X c ex ss n m)" for ss n m
    by (induction ss arbitrary: n m) (auto simp: Inspect_def intro!: blind)
  then show ?thesis unfolding OwnerUsageExcludingService_def ListByLabel_def by (intro blind)
qed

lemma blind_quota: "blind (enforceServiceQuota X S r k cpu mem ex)"
  unfolding enforceServiceQuota_def env_quota_def clientFor_def ClientFor_def by (intro blind)

section \<open>A member beyond the quota\<close>

text \<open>Bob's session, on a host whose containers are busy.\<close>

definition busy_ext :: "sim ext" where
  "busy_ext = bob_ext\<lparr>x_docker := sim_docker\<lparr>da_containerStats := (\<lambda>c i. io_ret
     \<lparr>st_cpuTotal = 1, st_preCpuTotal = 0, st_system = 1, st_preSystem = 0, st_onlineCPUs = 1, st_percpu = 1\<rparr>)\<rparr>\<rparr>"

definition bob_creates :: "service_body \<Rightarrow> (sim, int \<times> payload) web" where
  "bob_creates b = serve busy_ext sim_server (Services (PostService (Inr b))) bob_request"

definition created :: "('x + int \<times> payload) \<times> 's \<Rightarrow> bool" where
  "created p \<longleftrightarrow> (case fst p of Inr (st, v) \<Rightarrow> st = 201 | Inl _ \<Rightarrow> False)"

definition bob_first :: "sim world" where
  "bob_first = snd (bob_creates sim_service_body (sim_world sim_users_db))"

definition bob_api :: service_body where
  "bob_api = sim_service_body\<lparr>sb_name := ''api'', sb_autoscale := False\<rparr>"

definition bob_second :: "sim world" where
  "bob_second = snd (bob_creates bob_api bob_first)"

definition bob_busy :: "sim world" where
  "bob_busy = snd (scaleOnce busy_ext sim_server bob_second)"

text \<open>The three steps, each evaluated once.\<close>

lemma bob_runs:
  "case bob_creates sim_service_body (sim_world sim_users_db) of (r1, w1) \<Rightarrow> created (r1, w1) \<and>
     (case bob_creates bob_api w1 of (r2, w2) \<Rightarrow> created (r2, w2) \<and>
       (case scaleOnce busy_ext sim_server w2 of (r3, w3) \<Rightarrow>
          fst (OwnerUsage busy_ext sim_local ''bob'' w3) = Inr (1200 * nanoPerMilliCPU, 192 * bytesPerMB)))"
  by code_simp

text \<open>
  C17: the quota check sees only what runs.  Its answer does not depend on the rows of the services, so
  replicas that other services of the member may still scale to are not counted, although a new service
  is counted with all of its own.  Two services that were both accepted can therefore outgrow the quota
  without a further check: a member with a quota of 1000 creates two, and after one pass of the autoscaler
  over busy replicas uses 1200.
\<close>

theorem quota_check_sees_running_replicas:
  "fst (enforceServiceQuota X S r k cpu mem ex (with_services ss w)) = fst (enforceServiceQuota X S r k cpu mem ex w) \<and>
   created (bob_creates sim_service_body (sim_world sim_users_db)) \<and> created (bob_creates bob_api bob_first) \<and>
   fst (OwnerUsage busy_ext sim_local ''bob'' bob_busy) = Inr (1200 * nanoPerMilliCPU, 192 * bytesPerMB) \<and>
   quota_on sim_users_db (2, 0) = Some (1000, 1024, 100)"
proof (intro conjI)
  show "fst (enforceServiceQuota X S r k cpu mem ex (with_services ss w)) = fst (enforceServiceQuota X S r k cpu mem ex w)"
    by (simp add: blindD [OF blind_quota])
  show "created (bob_creates sim_service_body (sim_world sim_users_db))" "created (bob_creates bob_api bob_first)"
    "fst (OwnerUsage busy_ext sim_local ''bob'' bob_busy) = Inr (1200 * nanoPerMilliCPU, 192 * bytesPerMB)"
    using bob_runs by (simp_all add: bob_busy_def bob_second_def bob_first_def split: prod.splits)
qed code_simp

end
