(* ===== verification/Confine.thy ===== *)
theory Confine
  imports Access
begin

text \<open>
  What a member's requests cannot change: accounts, grants, environments, tunnels, requests that were
  made, and the services and registries of others.  The handlers that do not edit services,
  registries or routes are covered by the contract \<^verbatim>\<open>server_frame\<close>; for the others the check of the
  owner tells that the row at hand is the member's own.
\<close>

section \<open>What is not the member's\<close>

definition others_services :: "string \<Rightarrow> db \<Rightarrow> service set" where
  "others_services u d = {s \<in> set (db_services d). sv_owner s \<noteq> u}"

definition others_registries :: "string \<Rightarrow> db \<Rightarrow> registry set" where
  "others_registries u d = {g \<in> set (db_registries d). rg_owner g \<noteq> u}"

definition untouched :: "string \<Rightarrow> db \<Rightarrow> db \<Rightarrow> bool" where
  "untouched u d d' \<longleftrightarrow> db_users d' = db_users d \<and> db_user_endpoints d' = db_user_endpoints d \<and>
     db_endpoints d' = db_endpoints d \<and> db_tunnels d' = db_tunnels d \<and>
     set (db_requests d) \<subseteq> set (db_requests d') \<and>
     others_services u d \<subseteq> set (db_services d') \<and> others_registries u d \<subseteq> set (db_registries d')"

definition spared :: "string \<Rightarrow> db \<Rightarrow> 'e world \<Rightarrow> bool" where
  "spared u d w \<longleftrightarrow> db_ok (w_db w) \<and> untouched u d (w_db w)"

lemma untouched_now [simp]: "untouched u d (d'\<lparr>db_now := n\<rparr>) = untouched u d d'"
  by (simp add: untouched_def)

lemma untouched_refl [simp]: "untouched u d d"
  by (auto simp: untouched_def others_services_def others_registries_def)

lemma untouched_modest: "untouched u d d' \<Longrightarrow> modest d' d'' \<Longrightarrow> db_endpoints d'' = db_endpoints d' \<Longrightarrow> untouched u d d''"
  by (auto simp: untouched_def modest_def)

lemma spared_blind: "ext_blind (spared u d)"
  by (simp add: ext_blind_def spared_def)

lemma spared_sql:
  assumes "safe q" "\<And>d'. db_ok d' \<Longrightarrow> untouched u d d' \<Longrightarrow> untouched u d (snd (q d'))"
  shows "io_keeps (spared u d) (sql X q)"
proof (rule sql_keeps_change [where C = "\<lambda>f. \<forall>d'. db_ok d' \<longrightarrow> db_ok (f d') \<and> (untouched u d d' \<longrightarrow> untouched u d (f d'))", OF spared_blind])
  show "\<forall>d'. db_ok d' \<longrightarrow> db_ok (snd (q d')) \<and> (untouched u d d' \<longrightarrow> untouched u d (snd (q d')))"
    using assms by (simp add: safe_def safe_change_def)
qed (simp add: spared_def)

lemma spared_same: "same_data w v \<Longrightarrow> spared u d w \<Longrightarrow> spared u d v"
proof -
  assume "same_data w v" "spared u d w"
  then have "(w_db v)\<lparr>db_now := 0\<rparr> = (w_db w)\<lparr>db_now := 0\<rparr>" by (simp add: same_data_def)
  from arg_cong [OF this, of "\<lambda>x. db_ok x \<and> untouched u d x"] \<open>spared u d w\<close> show ?thesis
    by (simp add: spared_def)
qed

interpretation spared: server_frame X S "spared u d" for X S u d
proof unfold_locales
  fix f :: "db \<Rightarrow> db" and w :: "'a world" and n e
  assume f: "mild_change f" and w: "spared u d w"
  let ?d = "(w_db w)\<lparr>db_now := n\<rparr>"
  from f have "db_ok ?d \<longrightarrow> db_ok (f ?d)" "modest ?d (f ?d)" "db_endpoints (f ?d) = db_endpoints ?d"
    by (simp_all add: mild_change_def calm_change_def safe_change_def routing_def)
  with w untouched_modest [of u d ?d "f ?d"] show "spared u d (w\<lparr>w_db := f ?d, w_ext := e\<rparr>)" by (simp add: spared_def)
next
  fix i
  show "io_keeps (spared u d) (ClientFor X S i)"
    using io_keepsE [OF same_data_ClientFor same_data_refl] spared_same by (metis io_keepsI)
  have r: "io_keeps (spared u d) (sql X q)" if "\<And>d. snd (q d) = d" for q :: "'c stmt"
    by (rule spared_sql) (simp_all add: safe_read that)
  have "io_keeps (spared u d) (sql X ListEndpoints)" "io_keeps (spared u d) (sql X ListRoutes)"
    "io_keeps (spared u d) (sql X (ListServices n))" for n
    by (rule spared_sql, rule safe_reads, simp)+
  moreover have "io_keeps (spared u d) (on_xds f)" for f :: "(goerr, xds_manager, unit) io"
    by (auto simp: io_keeps_def on_xds_def spared_def split: prod.splits)
  ultimately show "io_keeps (spared u d) (SyncRoutes X S)" by (intro publish_parts_keep)
qed (simp_all add: ext_blind_def spared_def)

section \<open>Services\<close>

text \<open>No service of others has that name.\<close>

definition own_name :: "string \<Rightarrow> db \<Rightarrow> string \<Rightarrow> bool" where
  "own_name u d n \<longleftrightarrow> n \<notin> sv_name ` others_services u d"

definition own_row :: "string \<Rightarrow> db \<Rightarrow> service \<Rightarrow> bool" where
  "own_row u d s \<longleftrightarrow> sv_id s \<notin> sv_id ` others_services u d"

lemma service_keys: "db_ok d \<Longrightarrow> distinct (map sv_id (db_services d)) \<and> distinct (map sv_name (db_services d))"
  by (simp add: db_ok_def services_ok_def tbl_ok_def)

lemma GetService_own:
  assumes "sql X (GetService n) w = (Inr s, w')" "spared u d w"
  shows "spared u d w'" "s \<in> set (db_services (w_db w))" "sv_name s = n"
    "own_name u d n \<Longrightarrow> own_row u d s" "sv_owner s = u \<Longrightarrow> own_name u d n"
proof -
  show "spared u d w'" using io_keepsD [OF spared.keep_mild [OF mild_reads(18)] assms(2,1)] .
  from assms(1) show s: "s \<in> set (db_services (w_db w))" "sv_name s = n"
    using assms(2) by (auto simp: spared_def GetService_Inr elim!: sql_Inr)
  have o: "others_services u d \<subseteq> set (db_services (w_db w))" and ok: "db_ok (w_db w)"
    using assms(2) by (simp_all add: spared_def untouched_def)
  note k = service_keys [OF ok]
  show "own_row u d s" if "own_name u d n"
    using that s o k by (auto simp: own_row_def own_name_def distinct_map dest: inj_onD)
  show "own_name u d n" if "sv_owner s = u"
    using that s o k by (auto simp: own_name_def distinct_map others_services_def dest: inj_onD)
qed

lemma keep_get:
  assumes "own_name u d n" "\<And>s. own_row u d s \<Longrightarrow> io_keeps (spared u d) (k s)"
  shows "io_keeps (spared u d) (io_bind (sql X (GetService n)) k)"
proof (rule io_keepsI)
  fix w :: "'a world"
  assume w: "spared u d w"
  obtain r w1 where g: "sql X (GetService n) w = (r, w1)" by (cases "sql X (GetService n) w")
  with io_keepsD [OF spared.keep_mild [OF mild_reads(18)] w] have w1: "spared u d w1" by blast
  show "spared u d (snd (io_bind (sql X (GetService n)) k w))"
  proof (cases r)
    case (Inr s)
    with g GetService_own(4) [of X n w s w1] w assms have "io_keeps (spared u d) (k s)" by blast
    with g Inr w1 show ?thesis by (simp add: io_bind_def io_keepsE)
  qed (simp add: io_bind_def g w1)
qed

lemma rows_stay:
  assumes "own_row u d s" "untouched u d d'" "\<And>t. sv_id t \<noteq> sv_id s \<Longrightarrow> t \<in> set (db_services d') \<Longrightarrow> t \<in> R"
  shows "others_services u d \<subseteq> R"
proof
  fix t
  assume t: "t \<in> others_services u d"
  with assms(1) have "sv_id t \<noteq> sv_id s" by (auto simp: own_row_def image_iff)
  moreover from t assms(2) have "t \<in> set (db_services d')" by (auto simp: untouched_def)
  ultimately show "t \<in> R" by (rule assms(3))
qed

lemma keep_writes:
  assumes "own_row u d s"
  shows "io_keeps (spared u d) (sql X (SetServiceReplicas (sv_id s) k))"
    "io_keeps (spared u d) (sql X (SetServiceSubdomain (sv_id s) n))"
    "io_keeps (spared u d) (sql X (SetServiceImage (sv_id s) n))"
    "io_keeps (spared u d) (sql X (DeleteService (sv_id s)))"
    "io_keeps (spared u d) (sql X (UpdateService (keep_identity s t)))"
  by (rule spared_sql, rule safe_stmt,
      use rows_stay [OF assms] in \<open>fastforce simp: untouched_def SetServiceReplicas_def SetServiceSubdomain_def
        SetServiceImage_def DeleteService_def UpdateService_def keep_identity_def advanced_default_def Let_def set_upd_rows\<close>)+

lemma keep_insert: "io_keeps (spared u d) (sql X (CreateService s))"
  by (rule spared_sql, rule safe_stmt) (auto simp: untouched_def CreateService_def bump_seq_def Let_def)

lemma keep_identity_id [simp]: "own_row u d (keep_identity s t) = own_row u d s"
  by (simp add: own_row_def keep_identity_def)

lemma keep_own_services:
  assumes "own_name u d n"
  shows "io_keeps (spared u d) (ServiceUpdate X S n svc)" "io_keeps (spared u d) (SetSubdomain X S n sub)"
    "io_keeps (spared u d) (Scale X S n k)" "io_keeps (spared u d) (Redeploy X S n img)"
    "io_keeps (spared u d) (ServiceDelete X S n)"
proof -
  have img: "io_keeps (spared u d) (sql X (SetServiceImage (sv_id s) i))" if "own_row u d s" for s i
    using that by (rule keep_writes)
  show "io_keeps (spared u d) (ServiceUpdate X S n svc)" "io_keeps (spared u d) (SetSubdomain X S n sub)"
    "io_keeps (spared u d) (Scale X S n k)" "io_keeps (spared u d) (ServiceDelete X S n)"
    unfolding ServiceUpdate_def SetSubdomain_def Scale_def ServiceDelete_def dockerFor_def Let_def
    by (intro keep_get assms io_keep inv_keep keep_writes; assumption)+
  show "io_keeps (spared u d) (Redeploy X S n img)"
    unfolding Redeploy_def dockerFor_def Let_def
    by (intro keep_get assms) (auto intro!: io_keep inv_keep img)
qed

lemma keep_own_build:
  assumes "own_name u d (sv_name svc)"
  shows "io_keeps (spared u d) (BuildAndRedeploy X S svc)"
  unfolding BuildAndRedeploy_def BuildImage_def dockerFor_def Let_def
  by (intro io_keep inv_keep keep_own_services assms)

lemma keep_create: "io_keeps (spared u d) (ServiceCreate X S svc)"
  unfolding ServiceCreate_def by (intro io_keep inv_keep keep_insert)

section \<open>The handlers\<close>

text \<open>After the check of the owner, the name of the request is the member's.\<close>

definition member :: "string \<Rightarrow> request \<Rightarrow> bool" where
  "member u r \<longleftrightarrow> \<not> IsAdmin (Current r) \<and> pr_username (Current r) = u"

lemma owned_own:
  assumes "member u r" "owned X r w = (Inr s, w')" "spared u d w"
  shows "spared u d w'" "own_name u d (sv_name s)" "sv_name s = rq_param r ''name''"
proof -
  from assms(1,2) have get: "sql X (GetService (rq_param r ''name'')) w = (Inr s, w')" and o: "sv_owner s = u"
    by (auto simp: owned_def ownedService_def ServiceGet_def member_def io_inr io_maperr_def split: prod.splits sum.splits if_splits)
  from GetService_own [OF get assms(3)] o
  show "spared u d w'" "own_name u d (sv_name s)" "sv_name s = rq_param r ''name''" by simp_all
qed

lemma keep_after_owned:
  assumes "member u r" "\<And>s. own_name u d (sv_name s) \<Longrightarrow> sv_name s = rq_param r ''name'' \<Longrightarrow> io_keeps (spared u d) (k s)"
  shows "io_keeps (spared u d) (io_bind (owned X r) k)"
proof (rule io_keepsI)
  fix w :: "'a world"
  assume w: "spared u d w"
  obtain q w1 where g: "owned X r w = (q, w1)" by (cases "owned X r w")
  with io_keepsD [OF spared.keep_owned w] have w1: "spared u d w1" by blast
  show "spared u d (snd (io_bind (owned X r) k w))"
  proof (cases q)
    case (Inr s)
    with g owned_own(2,3) [OF assms(1) _ w, of X s w1] assms(2) have "io_keeps (spared u d) (k s)" by blast
    with g Inr w1 show ?thesis by (simp add: io_bind_def io_keepsE)
  qed (simp add: io_bind_def g w1)
qed

lemma keep_after_owned_name:
  assumes "member u r" "own_name u d (rq_param r ''name'') \<Longrightarrow> io_keeps (spared u d) m"
  shows "io_keeps (spared u d) (io_seq (owned X r) m)"
  unfolding io_seq_def by (rule keep_after_owned [OF assms(1)]) (simp add: assms(2))

lemma keep_own_service_handlers:
  assumes "member u r"
  shows "io_keeps (spared u d) (handleSetServiceSubdomain X S b1 r)" "io_keeps (spared u d) (handleUpdateService X S b2 r)"
    "io_keeps (spared u d) (handleScaleService X S b3 r)" "io_keeps (spared u d) (handleRedeployService X S img r)"
    "io_keeps (spared u d) (handleDeleteService X S r)" "io_keeps (spared u d) (handleCreateService X S b2 r)"
proof -
  note own = keep_after_owned [OF assms] keep_after_owned_name [OF assms] keep_own_services keep_own_build
  show "io_keeps (spared u d) (handleSetServiceSubdomain X S b1 r)" "io_keeps (spared u d) (handleUpdateService X S b2 r)"
    "io_keeps (spared u d) (handleScaleService X S b3 r)" "io_keeps (spared u d) (handleRedeployService X S img r)"
    "io_keeps (spared u d) (handleDeleteService X S r)"
    unfolding handleSetServiceSubdomain_def handleUpdateService_def handleScaleService_def handleRedeployService_def
      handleDeleteService_def Let_def
    by (intro own io_keep inv_keep; assumption)+
  show "io_keeps (spared u d) (handleCreateService X S b2 r)"
    unfolding handleCreateService_def newToken_def Let_def by (intro io_keep inv_keep keep_create)
qed

lemma keep_route_edits:
  "io_keeps (spared u d) (Upsert X S (Some (Upstreams X)) rt)" "io_keeps (spared u d) (RouteDelete X S (Some (Upstreams X)) n)"
proof -
  have q: "io_keeps (spared u d) (sql X (UpsertRoute rt))" "io_keeps (spared u d) (sql X (DeleteRoute n))"
    by (rule spared_sql, rule safe_stmt, simp add: untouched_def UpsertRoute_def DeleteRoute_def Let_def bump_seq_def)+
  show "io_keeps (spared u d) (Upsert X S (Some (Upstreams X)) rt)" "io_keeps (spared u d) (RouteDelete X S (Some (Upstreams X)) n)"
    unfolding Upsert_def RouteDelete_def by (intro io_keep inv_keep q)+
qed

lemma keep_container_edit: "io_keeps (spared u d) (handleEditContainer X S b r)"
  unfolding handleEditContainer_def old_subdomain_def edit_route_def Let_def
  by (intro io_keep inv_keep keep_route_edits)

text \<open>The registry a member may delete is the member's.\<close>

lemma registry_own:
  assumes "registry_owner X r w = (Inr u, w')" "spared u d w"
  shows "\<exists>i. goAtoi (rq_param r ''id'') = Some i \<and> i \<notin> rg_id ` others_registries u d"
proof -
  from assms(1) obtain i where i: "goAtoi (rq_param r ''id'') = Some i" and o: "or_status 404 (RegistryOwner X i) w = (Inr u, w')"
    by (cases "goAtoi (rq_param r ''id'')") (auto simp: registry_owner_def id_param_def io_inr)
  from o obtain g where g: "sql X (GetRegistry i) w = (Inr g, w')" and u: "rg_owner g = u"
    by (auto simp: RegistryOwner_def io_inr)
  have "g \<in> set (db_registries (w_db w)) \<and> rg_id g = i"
    by (rule sql_Inr [OF g]) (auto simp: GetRegistry_def find_Some_iff split: option.splits)
  moreover have "distinct (map rg_id (db_registries (w_db w)))" "others_registries u d \<subseteq> set (db_registries (w_db w))"
    using assms(2) by (simp_all add: spared_def untouched_def db_ok_def registries_ok_def tbl_ok_def)
  ultimately have "i \<notin> rg_id ` others_registries u d"
    using u by (auto simp: distinct_map others_registries_def dest: inj_onD)
  with i show ?thesis by blast
qed

lemma keep_registry_delete:
  assumes "goAtoi (rq_param r ''id'') = Some i" "i \<notin> rg_id ` others_registries u d"
  shows "io_keeps (spared u d) (handleDeleteRegistry X r)"
proof -
  have "io_keeps (spared u d) (sql X (DeleteRegistry i))"
    by (rule spared_sql, rule safe_stmt) (use assms(2) in \<open>auto simp: untouched_def DeleteRegistry_def\<close>)
  then have "io_keeps (spared u d) (io_seq (or_status 500 (RegistryDelete X i)) (writeJSON 200 ''deleted''))"
    unfolding RegistryDelete_def or_status_def by (intro io_keep)
  moreover have "handleDeleteRegistry X r = io_seq (or_status 500 (RegistryDelete X i)) (writeJSON 200 ''deleted'')"
    using assms(1) by (simp add: handleDeleteRegistry_def id_param_def)
  ultimately show ?thesis by simp
qed

section \<open>Requests\<close>

lemma keep_member_handle:
  assumes "member u r" "access_of c \<notin> {Public, Admin}"
    and "c = Registry DelRegistry \<Longrightarrow> \<exists>i. goAtoi (rq_param r ''id'') = Some i \<and> i \<notin> rg_id ` others_registries u d"
  shows "io_keeps (spared u d) (handle X S c r)"
proof (cases "publishes c \<or> edits_more c")
  case False
  then show ?thesis by (intro spared.keep_mild_handle) simp_all
next
  case True
  note serv = keep_own_service_handlers [OF assms(1)]
  show ?thesis
  proof (cases c)
    case (Services k)
    with True show ?thesis by (cases k) (simp_all add: publishes_def spared.keep_reply serv)
  next
    case (Container k)
    with True show ?thesis by (cases k) (simp_all add: publishes_def spared.keep_reply keep_container_edit)
  next
    case (Registry k)
    with True assms(3) show ?thesis
      by (cases k) (auto simp: publishes_def intro!: spared.keep_reply dest: keep_registry_delete)
  qed (use True assms(2) in \<open>simp_all add: publishes_def\<close>)
qed

text \<open>
  C2: a member's requests change only what is the member's.  Whatever a member asks for, and
  whether it is refused, succeeds or fails half-way, no account, grant, environment or tunnel is changed, no request that was
  made is, and no service and no registry that belongs to somebody else is changed or removed.
  (Manual routes and size budgets of volumes are not protected like this.)
\<close>

theorem members_change_only_their_own:
  assumes "db_ok (w_db w)" "access_of c \<noteq> Public"
    and "verify X S (request_token r) w = (Inr p, v)" "\<not> IsAdmin p"
  shows "untouched (pr_username p) (w_db w) (w_db (snd (serve X S c r w)))"
proof -
  let ?u = "pr_username p" and ?q = "r\<lparr>rq_principal := p\<rparr>"
  have w: "spared ?u (w_db w) w" using assms(1) by (simp add: spared_def)
  obtain res w1 where a: "admit X S (access_of c) r w = (res, w1)" by (cases "admit X S (access_of c) r w")
  have same: "same_data w w1" using io_keepsD [OF admit_same _ a] by simp
  show ?thesis
  proof (cases res)
    case (Inl e)
    with a assms(2) spared_same [OF same w] show ?thesis by (simp add: serve_admit io_bind_def spared_def)
  next
    case (Inr x)
    with a admit_authorised [of X S "access_of c" r w x w1] assms(3) have x: "x = (200, p)"
      and au: "authorised X S (access_of c) p r w" by auto
    have mem: "member ?u ?q" using assms(4) by (simp add: member_def Current_def)
    from au assms(2,4) have "access_of c \<notin> {Public, Admin}" by (simp add: authorised_def)
    moreover have "\<exists>i. goAtoi (rq_param ?q ''id'') = Some i \<and> i \<notin> rg_id ` others_registries ?u (w_db w)"
      if "c = Registry DelRegistry"
    proof -
      from au assms(4) that obtain t t' where "same_data w t" "registry_owner X ?q t = (Inr ?u, t')"
        by (auto simp: authorised_def owner_of_def)
      with registry_own [of X ?q t ?u t' "w_db w"] spared_same [OF _ w] show ?thesis by blast
    qed
    ultimately have "io_keeps (spared ?u (w_db w)) (handle X S c ?q)" by (rule keep_member_handle [OF mem])
    from io_keepsE [OF this spared_same [OF same w]] a Inr x assms(2) show ?thesis
      by (simp add: serve_admit io_bind_def spared_def)
  qed
qed

theorem members_change_only_their_own_witness:
  "\<exists>s \<in> set (db_services sim_services_db). sv_owner s = ''ann'' \<and>
     s \<in> set (db_services (w_db (snd (serve bob_ext sim_server (Services DelService)
       (bob_request\<lparr>rq_param := (\<lambda>_. ''web'')\<rparr>) (sim_world sim_services_db)))))"
proof -
  let ?w = "sim_world sim_services_db" and ?s = "hd (db_services sim_services_db)"
  have s: "?s \<in> set (db_services sim_services_db)" "sv_owner ?s = ''ann''" by code_simp+
  have d: "w_db ?w = sim_services_db" by (simp add: sim_world_def)
  have "untouched ''bob'' sim_services_db (w_db (snd (serve bob_ext sim_server (Services DelService)
      (bob_request\<lparr>rq_param := (\<lambda>_. ''web'')\<rparr>) ?w)))"
    using members_change_only_their_own [OF _ _ bob_verify, of ?w "Services DelService"] sim_services_db_ok
    by (simp add: d user_principal_def sim_user_def IsAdmin_def RoleAdmin_def RoleMember_def)
  with s have "?s \<in> set (db_services (w_db (snd (serve bob_ext sim_server (Services DelService)
      (bob_request\<lparr>rq_param := (\<lambda>_. ''web'')\<rparr>) ?w))))"
    by (auto simp: untouched_def others_services_def)
  with s show ?thesis by blast
qed

section \<open>What anybody can take\<close>

lemma routes_stay:
  "io_keeps (\<lambda>w :: 'e world. db_routes (w_db w) = R) (publish X S (Some (Upstreams X)))"
proof -
  let ?I = "\<lambda>w :: 'e world. db_routes (w_db w) = R"
  have reads: "io_keeps ?I (sql X ListEndpoints)" "io_keeps ?I (sql X ListRoutes)" "io_keeps ?I (sql X (ListServices n))" for n
    using sql_same [of db_routes ListEndpoints X] sql_same [of db_routes ListRoutes X] sql_same [of db_routes "ListServices n" X]
    by (simp_all add: io_keeps_def)
  have "io_keeps ?I (on_xds f)" for f :: "(goerr, xds_manager, unit) io"
    by (auto simp: io_keeps_def on_xds_def split: prod.splits)
  with publish_parts_keep [OF reads] show ?thesis by (simp add: SyncRoutes_def Sync_def)
qed

lemma Upsert_routes:
  assumes "faultless X" "rt_subdomain rt \<noteq> ''''" "0 < rt_targetPort rt" "in_i32 (rt_targetPort rt)"
  shows "routes_look (db_routes (w_db (snd (Upsert X S (Some (Upstreams X)) rt w)))) (rt_subdomain rt) = Some (route_target rt)"
proof -
  obtain saved d where q: "UpsertRoute rt ((w_db w)\<lparr>db_now := sql_time X w\<rparr>) = (Inr saved, d)"
    using assms(4) by (cases "UpsertRoute rt ((w_db w)\<lparr>db_now := sql_time X w\<rparr>)") (auto simp: UpsertRoute_def Let_def split: option.splits)
  let ?v = "w\<lparr>w_db := d, w_ext := snd (x_sql X (w_ext w))\<rparr>"
  have s: "sql X (UpsertRoute rt) w = (Inr saved, ?v)" by (simp add: sql_faultless [OF assms(1)] q)
  have "db_routes (w_db (snd (publish X S (Some (Upstreams X)) ?v))) = db_routes d"
    by (rule io_keepsE [OF routes_stay]) simp
  then have "db_routes (w_db (snd (Upsert X S (Some (Upstreams X)) rt w))) = db_routes d"
    using assms(2,3) by (cases "publish X S (Some (Upstreams X)) ?v")
      (auto simp: Upsert_def io_bind_def io_seq_def io_ret_def s split: sum.split)
  with UpsertRoute_look [OF q] show ?thesis by simp
qed

text \<open>
  C6: the names of routes and volumes belong to whoever asks last.  With a driver without faults, when a
  member's edit of a container on the local host that asks for a subdomain and a positive container port
  (of 32 bits) succeeds, the route of the subdomain leads to that container, whatever it led to before;
  and, with any driver, when a member's creation of a volume succeeds, which it does when Docker has a volume of that
  name already, the size budget under that name is booked to the member, whoever had it before.
\<close>

theorem names_belong_to_the_last_who_asks:
  "(faultless X \<and> endpointID r = 0 \<and> dr_subdomain b \<noteq> '''' \<and> 0 < dr_containerPort b \<and> in_i32 (dr_containerPort b) \<and>
      handleEditContainer X S (Inr b) r w = (Inr (st, i), w') \<longrightarrow>
    routes_look (db_routes (w_db w')) (dr_subdomain b) = Some (i, dr_name b, dr_containerPort b, 0)) \<and>
   (handleCreateVolume X S (Inr vb) r w = (Inr (st, v), w') \<longrightarrow>
    vol_look (w_db w') (endpointID r, vo_name v) = Some (ownerScope r, wb_sizeMB vb))"
proof (intro conjI impI; (elim conjE)?)
  assume a: "faultless X" "endpointID r = 0" "dr_subdomain b \<noteq> ''''" "0 < dr_containerPort b" "in_i32 (dr_containerPort b)"
    and "handleEditContainer X S (Inr b) r w = (Inr (st, i), w')"
  then obtain old t where "edit_route X S old i b t = (Inr (), w')"
    by (auto simp: handleEditContainer_def Let_def io_inr writeJSON_def split: prod.splits)
  with a(3,4) obtain t' where "w' = snd (Upsert X S (Some (Upstreams X))
      \<lparr>rt_id = 0, rt_subdomain = dr_subdomain b, rt_containerID = i, rt_targetHost = dr_name b,
       rt_targetPort = dr_containerPort b, rt_endpointID = 0, rt_createdAt = 0\<rparr> t')"
    by (auto simp: edit_route_def io_inr quiet_eq)
  with Upsert_routes [OF a(1), of "\<lparr>rt_id = 0, rt_subdomain = dr_subdomain b, rt_containerID = i, rt_targetHost = dr_name b,
       rt_targetPort = dr_containerPort b, rt_endpointID = 0, rt_createdAt = 0\<rparr>"] a(3-5)
  show "routes_look (db_routes (w_db w')) (dr_subdomain b) = Some (i, dr_name b, dr_containerPort b, 0)"
    by (simp add: route_target_def)
next
  assume "handleCreateVolume X S (Inr vb) r w = (Inr (st, v), w')"
  then obtain t where s: "sql X (SetVolumeSize (endpointID r) (vo_name v) (ownerScope r) (wb_sizeMB vb)) t = (Inr (), w')"
    by (auto simp: handleCreateVolume_def decoded_def Let_def io_inr writeJSON_def)
  show "vol_look (w_db w') (endpointID r, vo_name v) = Some (ownerScope r, wb_sizeMB vb)"
  proof (rule sql_Inr [OF s])
    fix d e now
    assume "SetVolumeSize (endpointID r) (vo_name v) (ownerScope r) (wb_sizeMB vb) ((w_db t)\<lparr>db_now := now\<rparr>) = (Inr (), d)"
      and w': "w' = t\<lparr>w_db := d, w_ext := e\<rparr>"
    then have "d = snd (SetVolumeSize (endpointID r) (vo_name v) (ownerScope r) (wb_sizeMB vb) ((w_db t)\<lparr>db_now := now\<rparr>))" by simp
    then show ?thesis by (simp add: w' SetVolumeSize_look)
  qed
qed

text \<open>The route and the volume of another member, and what the member asks for.\<close>

definition shop_db :: db where
  "shop_db = sim_users_db\<lparr>db_routes := [route_of ''shop'' (''x'', ''ann-shop'', 80, 0)],
     db_volume_specs := [vol_row 0 ''data'' ''ann'' 50]\<rparr>"

definition shop_world :: "sim world" where
  "shop_world = (sim_world shop_db)\<lparr>w_ext := sim_empty\<lparr>sm_containers := [\<lparr>sc_id = ''c1'', sc_name = ''bob-app'',
     sc_config = config_zero\<lparr>cc_image := ''nginx'', cc_labels := [LabelOwner \<mapsto> ''bob'']\<rparr>,
     sc_host = host_config_zero, sc_running = True\<rparr>]\<rparr>\<rparr>"

definition bob_asks :: request where
  "bob_asks = (sim_request (\<lambda>_. ''''))\<lparr>rq_param := (\<lambda>_. ''c1''), rq_principal := user_principal (sim_user 2 ''bob'' RoleMember)\<rparr>"

definition shop_body :: deploy_body where
  "shop_body = \<lparr>dr_name = ''bob-app'', dr_image = ''nginx'', dr_env = [], dr_subdomain = ''shop'', dr_containerPort = 8,
     dr_publish = [], dr_network = '''', dr_cpuMilli = 100, dr_memMB = 64\<rparr>"

definition data_body :: volume_body where
  "data_body = \<lparr>wb_name = ''data'', wb_driver = '''', wb_labels = Map.empty, wb_sizeMB = 1\<rparr>"

theorem names_belong_to_the_last_who_asks_witness:
  "vol_look (w_db shop_world) (0, ''data'') = Some (''ann'', 50) \<and>
   vol_look (w_db (snd (handleCreateVolume sim_ext sim_server (Inr data_body) bob_asks shop_world))) (0, ''data'') = Some (''bob'', 1) \<and>
   routes_look (db_routes (w_db shop_world)) ''shop'' = Some (''x'', ''ann-shop'', 80, 0) \<and>
   (\<exists>i. routes_look (db_routes (w_db (snd (handleEditContainer sim_ext sim_server (Inr shop_body) bob_asks shop_world)))) ''shop'' =
      Some (i, ''bob-app'', 8, 0))"
proof -
  let ?v = "handleCreateVolume sim_ext sim_server (Inr data_body) bob_asks shop_world"
  let ?e = "handleEditContainer sim_ext sim_server (Inr shop_body) bob_asks shop_world"
  have old: "vol_look (w_db shop_world) (0, ''data'') = Some (''ann'', 50)"
    "routes_look (db_routes (w_db shop_world)) ''shop'' = Some (''x'', ''ann-shop'', 80, 0)" by code_simp+
  have "(case fst ?v of Inr (st, v) \<Rightarrow> vo_name v = ''data'' | Inl _ \<Rightarrow> False)" by code_simp
  then obtain st v w' where v: "?v = (Inr (st, v), w')" "vo_name v = ''data''" by (cases ?v) (auto split: sum.splits)
  have "(case fst ?e of Inr (st, i) \<Rightarrow> True | Inl _ \<Rightarrow> False)" by code_simp
  then obtain st' i w'' where e: "?e = (Inr (st', i), w'')" by (cases ?e) (auto split: sum.splits)
  have b: "endpointID bob_asks = 0" "ownerScope bob_asks = ''bob''" "dr_subdomain shop_body = ''shop''"
    "dr_containerPort shop_body = 8" "dr_name shop_body = ''bob-app''" "in_i32 8" "wb_sizeMB data_body = 1" by code_simp+
  from names_belong_to_the_last_who_asks [of sim_ext bob_asks shop_body sim_server shop_world st' i w'' data_body] e b
  have "routes_look (db_routes (w_db w'')) ''shop'' = Some (i, ''bob-app'', 8, 0)" by simp
  moreover from names_belong_to_the_last_who_asks [of sim_ext bob_asks shop_body sim_server shop_world st _ w' data_body v] v b
  have "vol_look (w_db w') (0, ''data'') = Some (''bob'', 1)" by simp
  ultimately show ?thesis using v e old by auto
qed

end
