(* ===== verification/Startup.thy ===== *)
theory Startup
  imports Access Config
begin

text \<open>
  \<^verbatim>\<open>cmd/easydeploy/main.go\<close>: how the server comes up.  The steps of \<^verbatim>\<open>run\<close> that
  can fail are kept in their order; what the runtime does at a start (making the pool of database
  connections, the first contact, executing the schema, building the local Docker client, binding a
  port) is given by its outcome, and the time of the start in milliseconds.  The autoscaler, the gRPC
  server and the HTTP server then run beside each other: their operations are the steps of a run
  (theory Integrity).  What the process holds, and its end, are in theory Lifecycle.
\<close>

record boot =
  bt_getenv :: "string \<rightharpoonup> string"
  bt_newPool :: "string \<Rightarrow> goerr option"
  bt_ping :: "string \<Rightarrow> goerr option"
  bt_schema :: "string \<Rightarrow> goerr option"
  bt_newDocker :: "string \<Rightarrow> goerr option"
  bt_listen :: "string \<Rightarrow> goerr option"
  bt_listenHTTP :: "string \<Rightarrow> goerr option"
  bt_unixMilli :: int

definition or_fail :: "goerr option \<Rightarrow> ('e, unit) op" where
  "or_fail err = (case err of None \<Rightarrow> io_ret () | Some e \<Rightarrow> io_raise e)"

definition bootstrapAdmin :: "'e ext \<Rightarrow> string \<Rightarrow> ('e, unit) op" where
  "bootstrapAdmin X adminPassword =
     io_bind (sql X CountUsers) (\<lambda>n.
       if n > 0 then io_ret ()
       else io_bind (HashPassword X adminPassword) (\<lambda>hash.
         io_seq (sql X (CreateUser
             \<lparr>us_id = 0, us_username = ''admin'', us_passwordHash = hash, us_role = RoleAdmin,
              us_cpuQuotaMilli = 0, us_memQuotaMB = 0, us_diskQuotaMB = 0, us_createdAt = 0\<rparr>))
           (io_ret ())))"

text \<open>\<^verbatim>\<open>docker.New\<close>: the client of the local host.\<close>

definition local_client :: "string \<Rightarrow> client" where
  "local_client host = \<lparr>cli_ref = 0, cli_host = host, cli_tls = None\<rparr>"

text \<open>\<^verbatim>\<open>proxy.New\<close>: the base domain under which services are published.\<close>

definition proxyBaseDomain :: "string \<Rightarrow> string" where
  "proxyBaseDomain d = (if d = '''' then ''localhost'' else d)"

definition server_of :: "config \<Rightarrow> (string \<rightharpoonup> string) \<Rightarrow> aead \<Rightarrow> string \<Rightarrow> server" where
  "server_of cfg getenv box key =
     \<lparr>srv_local = local_client (cf_DockerHost cfg), srv_box = box,
      srv_baseDomain = proxyBaseDomain (cf_BaseDomain cfg), srv_jwtKey = key,
      srv_xdsAdvertise = cf_XDSAdvertiseAddr cfg, srv_publicIPService = cf_PublicIPService cfg,
      srv_sshKeyPath = NewTunnels getenv '''', srv_webDir = cf_WebDir cfg\<rparr>"

text \<open>The managers start empty; the control plane's first version is the time in milliseconds.\<close>

definition new_managers :: "int \<Rightarrow> config \<Rightarrow> ('e, unit) op" where
  "new_managers ms cfg =
     io_modify (\<lambda>w. w\<lparr>w_xds := NewManager (cf_EnvoyNodeID cfg) (cf_BaseDomain cfg) ms,
       w_clients := Map.empty, w_next := 1, w_helpers := (\<lambda>_. Map.empty), w_running := Map.empty\<rparr>)"

text \<open>\<^verbatim>\<open>store.Open\<close>: the pool is made, contacted, and brought to the schema.\<close>

definition migrate :: "boot \<Rightarrow> string \<Rightarrow> goerr option" where
  "migrate B url = map_option (Wrap ''migrate'') (bt_schema B url)"

definition storeOpen :: "boot \<Rightarrow> string \<Rightarrow> goerr option" where
  "storeOpen B url = (case bt_newPool B url of
       Some e \<Rightarrow> Some (Wrap ''connect postgres'' e)
     | None \<Rightarrow> (case bt_ping B url of
         Some e \<Rightarrow> Some (Wrap ''ping postgres'' e)
       | None \<Rightarrow> migrate B url))"

definition dockerNew :: "boot \<Rightarrow> string \<Rightarrow> goerr option" where
  "dockerNew B host = map_option (Wrap ''docker client'') (bt_newDocker B host)"

text \<open>What \<^verbatim>\<open>run\<close> does once the database and the Docker client are there, until it listens.\<close>

definition start_server :: "'e ext \<Rightarrow> boot \<Rightarrow> config \<Rightarrow> ('e, server) op" where
  "start_server X B cfg =
     io_bind (io_of_sum (NewBox X (cf_SecretKey cfg))) (\<lambda>box.
     io_seq (bootstrapAdmin X (cf_AdminPassword cfg))
     (io_bind (NewAuth X (cf_JWTSecret cfg)) (\<lambda>key.
       let S = server_of cfg (bt_getenv B) box key in
       io_seq (new_managers (bt_unixMilli B) cfg)
       (io_seq (quiet (SyncAll X S))
       (io_seq (quiet (Sync X S (Some (Upstreams X))))
       (io_seq (or_fail (bt_listen B (cf_XDSAddr cfg)))
         (io_ret S)))))))"

definition run :: "'e ext \<Rightarrow> boot \<Rightarrow> ('e, server) op" where
  "run X B =
     (let cfg = Load (bt_getenv B) in
      io_seq (or_fail (Validate cfg))
      (io_seq (or_fail (storeOpen B (cf_DatabaseURL cfg)))
      (io_seq (or_fail (dockerNew B (cf_DockerHost cfg)))
        (start_server X B cfg))))"

text \<open>
  The autoscaler's loop, given by what its \<^verbatim>\<open>select\<close> receives: a tick, or the end of the
  process's context.
\<close>

datatype tick = Ticks | ContextDone

fun RunAutoscaler :: "'e ext \<Rightarrow> server \<Rightarrow> tick list \<Rightarrow> ('e, unit) op" where
  "RunAutoscaler X S [] = io_ret ()"
| "RunAutoscaler X S (ContextDone # ts) = io_ret ()"
| "RunAutoscaler X S (Ticks # ts) = io_seq (scaleOnce X S) (RunAutoscaler X S ts)"

section \<open>What a start leaves\<close>

context server_inv
begin

lemma keep_bootstrap: "io_keeps I (bootstrapAdmin X pw)"
  unfolding bootstrapAdmin_def HashPassword_def by (intro io_keep inv_keep keep_sql safe_stmt)

lemma keep_initial_sync: "io_keeps I (Sync X S (Some (Upstreams X)))"
  unfolding Sync_def by (intro inv_keep)

end

lemma or_fail_Inr [simp]: "or_fail e w = (Inr x, w') \<longleftrightarrow> e = None \<and> w' = w"
  by (auto simp: or_fail_def split: option.split)

text \<open>The stages of a start that succeeds.\<close>

lemma run_Inr:
  assumes "run X B w = (Inr S, w')"
  obtains cfg box key w1 w2 w3 where "cfg = Load (bt_getenv B)" "Validate cfg = None"
    "NewBox X (cf_SecretKey cfg) = Inr box"
    "bootstrapAdmin X (cf_AdminPassword cfg) w = (Inr (), w1)" "NewAuth X (cf_JWTSecret cfg) w1 = (Inr key, w2)"
    "S = server_of cfg (bt_getenv B) box key" "new_managers (bt_unixMilli B) cfg w2 = (Inr (), w3)"
    "w' = snd (Sync X S (Some (Upstreams X)) (snd (SyncAll X S w3)))"
  using assms by (auto simp: run_def start_server_def Let_def io_inr)

text \<open>A property of the users survives what a start does after the bootstrap.\<close>

definition users_are :: "(user list \<Rightarrow> bool) \<Rightarrow> 'e world \<Rightarrow> bool" where
  "users_are P w \<longleftrightarrow> P (db_users (w_db w))"

lemma users_are_blind: "ext_blind (users_are P)"
  by (simp add: ext_blind_def users_are_def)

lemma users_are_sql:
  assumes "\<And>d. db_users (snd (q d)) = db_users d"
  shows "io_keeps (users_are P) (sql X q)"
proof -
  have "db_users (w_db (snd (sql X q w))) = db_users (w_db w)" for w
    by (rule sql_same) (simp_all add: assms)
  then show ?thesis by (simp add: io_keeps_def users_are_def)
qed

lemma users_are_reads:
  "io_keeps (users_are P) (sql X ListEndpoints)" "io_keeps (users_are P) (sql X ListRoutes)"
  "io_keeps (users_are P) (sql X (ListServices n))" "io_keeps (users_are P) (sql X (GetEndpoint i))"
  "io_keeps (users_are P) (sql X (ListRegistries n))"
  by (rule users_are_sql, simp add: ListEndpoints_def ListRoutes_def ListServices_def GetEndpoint_def
      ListRegistries_def split: option.split)+

lemma users_are_sync: "io_keeps (users_are P) (SyncRoutes X S)"
  by (intro publish_parts_keep users_are_reads) (simp add: io_keeps_def users_are_def)

lemma users_are_reconcile: "io_keeps (users_are P) (reconcile X S svc)"
proof -
  have "io_keeps (users_are P) (NewRemote X h t)" for h t
    by (simp add: io_keeps_def users_are_def)
  then have "io_keeps (users_are P) (ClientFor X S i)" for i
    unfolding ClientFor_def cache_client_def
    by (intro io_keep users_are_reads) (simp_all add: users_are_def)
  then show ?thesis by (intro reconcile_parts_keep users_are_blind users_are_reads)
qed

lemma users_are_SyncAll: "io_keeps (users_are P) (SyncAll X S)"
  unfolding SyncAll_def by (intro io_keep users_are_reads users_are_reconcile users_are_sync)

lemma run_users:
  assumes "run X B w = (Inr S, w')"
  shows "\<exists>w1. bootstrapAdmin X (cf_AdminPassword (Load (bt_getenv B))) w = (Inr (), w1) \<and>
    db_users (w_db w') = db_users (w_db w1)"
proof (rule run_Inr [OF assms])
  fix cfg box key w1 w2 w3
  assume cfg: "cfg = Load (bt_getenv B)" and boot: "bootstrapAdmin X (cf_AdminPassword cfg) w = (Inr (), w1)"
    and key: "NewAuth X (cf_JWTSecret cfg) w1 = (Inr key, w2)"
    and new: "new_managers (bt_unixMilli B) cfg w2 = (Inr (), w3)"
    and w': "w' = snd (Sync X S (Some (Upstreams X)) (snd (SyncAll X S w3)))"
  have "w_db w2 = w_db w1"
    using key by (auto simp: NewAuth_def io_inr split: if_splits elim!: ext_Inr)
  with new have "users_are (\<lambda>us. us = db_users (w_db w1)) w3"
    by (auto simp: new_managers_def users_are_def)
  then have "users_are (\<lambda>us. us = db_users (w_db w1)) w'"
    using users_are_sync [unfolded SyncRoutes_def] users_are_SyncAll
    unfolding w' by (metis io_keepsE)
  with cfg boot show ?thesis by (auto simp: users_are_def)
qed

section \<open>Properties\<close>

text \<open>bcrypt accepts a password against the hash it made of it.\<close>

definition bcrypt_ok :: "'e ext \<Rightarrow> bool" where
  "bcrypt_ok X \<longleftrightarrow> (\<forall>p e h e'. x_bcrypt X p e = (Inr h, e') \<longrightarrow> x_bcryptOk X h p)"

lemma sql_CountUsers:
  "sql X CountUsers w = (Inr n, w1) \<Longrightarrow> n = int (length (db_users (w_db w))) \<and> db_users (w_db w1) = db_users (w_db w)"
  by (erule sql_Inr) (auto simp: CountUsers_def)

lemma bootstrapAdmin_users:
  assumes "bcrypt_ok X" "bootstrapAdmin X pw w = (Inr (), w')"
  shows "if db_users (w_db w) = []
    then \<exists>u. db_users (w_db w') = [u] \<and> us_username u = ''admin'' \<and> us_role u = RoleAdmin \<and>
      x_bcryptOk X (us_passwordHash u) pw
    else db_users (w_db w') = db_users (w_db w)"
proof (cases "db_users (w_db w) = []")
  case False
  with assms(2) show ?thesis by (auto simp: bootstrapAdmin_def io_inr dest!: sql_CountUsers)
next
  case True
  with assms(2) obtain w1 h w2 u where w1: "db_users (w_db w1) = []"
    and h: "ext (x_bcrypt X pw) w1 = (Inr h, w2)"
    and c: "sql X (CreateUser \<lparr>us_id = 0, us_username = ''admin'', us_passwordHash = h, us_role = RoleAdmin,
      us_cpuQuotaMilli = 0, us_memQuotaMB = 0, us_diskQuotaMB = 0, us_createdAt = 0\<rparr>) w2 = (Inr u, w')"
    by (auto simp: bootstrapAdmin_def HashPassword_def io_inr dest!: sql_CountUsers)
  from h assms(1) have "x_bcryptOk X h pw" by (auto simp: bcrypt_ok_def elim!: ext_Inr)
  moreover from h w1 have "db_users (w_db w2) = []" by (auto elim!: ext_Inr)
  ultimately show ?thesis
    using c True by (auto simp: CreateUser_def Let_def in_i32_def bump_seq_def elim!: sql_Inr)
qed

definition sim_boot :: boot where
  "sim_boot = \<lparr>bt_getenv = [''EASYDEPLOY_ADMIN_PASSWORD'' \<mapsto> ''pw'', ''EASYDEPLOY_SECRET_KEY'' \<mapsto> ''k''],
     bt_newPool = (\<lambda>_. None), bt_ping = (\<lambda>_. None), bt_schema = (\<lambda>_. None), bt_newDocker = (\<lambda>_. None),
     bt_listen = (\<lambda>_. None), bt_listenHTTP = (\<lambda>_. None), bt_unixMilli = 1000\<rparr>"

text \<open>
  C36: the first start creates the administrator.  When a start succeeds on a database without
  users, the database then has exactly one user, named \<^verbatim>\<open>admin\<close>, with the administrator's
  role and a hash that accepts the configured password, which is not empty; on a database with
  users a start changes none of them.
\<close>

theorem first_start_creates_admin:
  assumes "bcrypt_ok X" "run X B w = (Inr S, w')"
  shows "if db_users (w_db w) = []
    then \<exists>u. db_users (w_db w') = [u] \<and> us_username u = ''admin'' \<and> us_role u = RoleAdmin \<and>
      x_bcryptOk X (us_passwordHash u) (mget (bt_getenv B) ''EASYDEPLOY_ADMIN_PASSWORD'') \<and>
      mget (bt_getenv B) ''EASYDEPLOY_ADMIN_PASSWORD'' \<noteq> ''''
    else db_users (w_db w') = db_users (w_db w)"
proof -
  let ?pw = "cf_AdminPassword (Load (bt_getenv B))"
  have pw: "?pw = mget (bt_getenv B) ''EASYDEPLOY_ADMIN_PASSWORD''" by (simp add: Load_def)
  have ne: "?pw \<noteq> ''''" by (rule run_Inr [OF assms(2)]) (simp add: Validate_None)
  obtain w1 where b: "bootstrapAdmin X ?pw w = (Inr (), w1)" and u: "db_users (w_db w') = db_users (w_db w1)"
    using run_users [OF assms(2)] by blast
  from bootstrapAdmin_users [OF assms(1) b] pw have "if db_users (w_db w) = []
    then \<exists>u. db_users (w_db w1) = [u] \<and> us_username u = ''admin'' \<and> us_role u = RoleAdmin \<and>
      x_bcryptOk X (us_passwordHash u) (mget (bt_getenv B) ''EASYDEPLOY_ADMIN_PASSWORD'')
    else db_users (w_db w1) = db_users (w_db w)" by (simp only:)
  with u pw ne show ?thesis by (auto split: if_splits)
qed

lemma sim_run: "\<exists>S w'. run sim_ext sim_boot (sim_world db_empty) = (Inr S, w')"
proof -
  have "(case fst (run sim_ext sim_boot (sim_world db_empty)) of Inr S \<Rightarrow> True | Inl _ \<Rightarrow> False)" by code_simp
  then show ?thesis by (cases "run sim_ext sim_boot (sim_world db_empty)") (auto split: sum.splits)
qed

theorem first_start_creates_admin_witness:
  "\<exists>S w' u. run sim_ext sim_boot (sim_world db_empty) = (Inr S, w') \<and> db_users (w_db w') = [u] \<and>
     us_username u = ''admin'' \<and> x_bcryptOk sim_ext (us_passwordHash u) ''pw''"
proof -
  obtain S w' where r: "run sim_ext sim_boot (sim_world db_empty) = (Inr S, w')" using sim_run by blast
  have "bcrypt_ok sim_ext" by (simp add: bcrypt_ok_def sim_ext_def io_ret_def)
  from first_start_creates_admin [OF this r]
  have "\<exists>u. db_users (w_db w') = [u] \<and> us_username u = ''admin'' \<and> us_role u = RoleAdmin \<and>
      x_bcryptOk sim_ext (us_passwordHash u) ''pw''"
    by (simp add: sim_world_def db_empty_def sim_boot_def mget_def)
  with r show ?thesis by blast
qed

lemma run_consistent:
  assumes "db_ok (w_db w)" "run X B w = (Inr S, w')"
  shows "db_inv w' \<and> cache_ok X S w'"
proof (rule run_Inr [OF assms(2)])
  fix cfg box key w1 w2 w3
  assume boot: "bootstrapAdmin X (cf_AdminPassword cfg) w = (Inr (), w1)"
    and key: "NewAuth X (cf_JWTSecret cfg) w1 = (Inr key, w2)"
    and new: "new_managers (bt_unixMilli B) cfg w2 = (Inr (), w3)"
    and w': "w' = snd (Sync X S (Some (Upstreams X)) (snd (SyncAll X S w3)))"
  have "db_inv w1" using io_keepsD [OF database.keep_bootstrap _ boot] assms(1) by (simp add: db_inv_def)
  with key new have "db_inv w3 \<and> cache_ok X S w3"
    by (auto simp: NewAuth_def io_inr new_managers_def db_inv_def cache_ok_def split: if_splits elim!: ext_Inr)
  then show ?thesis
    unfolding w'
    using io_keepsE [OF database.keep_initial_sync] io_keepsE [OF database.keep_SyncAll]
      io_keepsE [OF cache.keep_initial_sync] io_keepsE [OF cache.keep_SyncAll]
    by blast
qed

text \<open>The autoscaler's loop is a run of the server's steps, so what every run keeps, it keeps.\<close>

lemma RunAutoscaler_run: "(server_step X S)\<^sup>*\<^sup>* w (snd (RunAutoscaler X S ts w))"
proof (induction X S ts arbitrary: w rule: RunAutoscaler.induct)
  case (3 X S ts)
  have "fst (scaleOnce X S w) = Inr ()" by (simp add: scaleOnce_def quiet_def io_defs split: prod.split)
  then have "snd (RunAutoscaler X S (Ticks # ts) w) = snd (RunAutoscaler X S ts (snd (scaleOnce X S w)))"
    by (cases "scaleOnce X S w") (simp add: io_seq_def io_bind_def)
  with 3 server_step.autoscale [of X S w] show ?case by (simp add: converse_rtranclp_into_rtranclp)
qed (simp_all add: io_ret_def)

text \<open>
  C3: whatever is requested, the server's data stays consistent.  From a start on a consistent
  database, through any sequence of requests to any routes, autoscaler passes and reconciliations,
  with any errors of the driver, of Docker and of the network, the database keeps the integrity
  its schema promises (unique keys, references, column ranges), and, as long as the driver does
  not lose the answer to an executed statement, every cached Docker client is connected the way
  the stored environment says.
\<close>

theorem server_stays_consistent:
  assumes "db_ok (w_db w0)" "run X B w0 = (Inr S, w)" "(server_step X S)\<^sup>*\<^sup>* w w'"
  shows "db_ok (w_db w') \<and> (answers_kept X \<longrightarrow> cache_ok X S w')"
  using server_run_keeps [OF assms(3)] run_consistent [OF assms(1,2)] by (simp add: db_inv_def)

theorem server_stays_consistent_witness:
  "\<exists>S w. run sim_ext sim_boot (sim_world db_empty) = (Inr S, w) \<and>
     db_ok (w_db (snd (serve sim_ext S (Exposure DelTunnel) (sim_request (\<lambda>_. '''')) w)))"
proof -
  obtain S w where r: "run sim_ext sim_boot (sim_world db_empty) = (Inr S, w)" using sim_run by blast
  have "db_ok (w_db (sim_world db_empty))" by (simp add: sim_world_def db_ok_empty)
  from server_stays_consistent [OF this r r_into_rtranclp [of "server_step sim_ext S", OF server_step.request]] r
  show ?thesis by blast
qed

end
