(* ===== verification/Published.thy ===== *)
theory Published
  imports Startup
begin

text \<open>
  The published configuration follows the database.  \<^verbatim>\<open>current\<close> says that every node of the
  control plane has a snapshot that is built from what the tables hold now.  A start establishes
  it, and requests keep it, except those that edit an environment, which never publish, and failed
  edits of a service, which return before they do.
\<close>

section \<open>What the tables ask for\<close>

definition environments :: "db \<Rightarrow> endpoint list" where
  "environments d = map scanEndpoint (sort_key ep_id (db_endpoints d))"

definition wanted :: "server \<Rightarrow> db \<Rightarrow> upstream list" where
  "wanted S d = all_upstreams (srv_baseDomain S) (environments d)
     (upstreams_of (order_by d sv_name (db_services d))) (order_by d rt_subdomain (db_routes d))"

definition current :: "server \<Rightarrow> 'e world \<Rightarrow> bool" where
  "current S w \<longleftrightarrow> node_id_ok (w_xds w) \<and>
     (\<forall>i \<in> set (node_ids (environments (w_db w)) (wanted S (w_db w))).
        published (w_xds w) (NodeForEndpoint (w_xds w) i) (byEnv (wanted S (w_db w)) i))"

text \<open>A library that takes every snapshot it is given.\<close>

definition envoy_accepts :: "envoy_lib \<Rightarrow> bool" where
  "envoy_accepts L \<longleftrightarrow> (\<forall>s. el_newSnapshotErr L s = None \<and> el_consistentErr L s = None) \<and>
     (\<forall>n s c. el_setSnapshot L n s c = (None, c(n \<mapsto> s)))"

definition accepting :: "'e ext \<Rightarrow> bool" where
  "accepting X \<longleftrightarrow> envoy_accepts (x_envoy X) \<and> order_ok X"

lemma accepting_lib_ok: "accepting X \<Longrightarrow> envoy_lib_ok (x_envoy X)"
  by (simp add: accepting_def envoy_accepts_def envoy_lib_ok_def)

section \<open>It depends on what is routed only\<close>

lemma map_insort_key: "map f (insort_key (\<lambda>x. g (f x)) x xs) = insort_key g (f x) (map f xs)"
  by (induction xs) simp_all

lemma map_sort_key: "map f (sort_key (\<lambda>x. g (f x)) xs) = sort_key g (map f xs)"
  by (induction xs) (simp_all add: map_insort_key sort_key_def)

fun part_upstream :: "string \<times> string \<times> int \<times> int \<times> int \<Rightarrow> service_upstream" where
  "part_upstream (n, sub, port, k, e) =
     \<lparr>sp_service = n, sp_subdomain = sub, sp_hosts = map (replicaName n) (indices k),
      sp_port = word_of_int port, sp_endpointID = e\<rparr>"

fun part_runs :: "string \<times> string \<times> int \<times> int \<times> int \<Rightarrow> bool" where
  "part_runs (n, sub, port, k, e) \<longleftrightarrow> \<not> (port = 0 \<or> k \<le> 0)"

lemma upstreams_of_parts: "upstreams_of ss = map part_upstream (filter part_runs (map routed_part ss))"
  by (induction ss) (simp_all add: upstreams_of_def service_upstream_of_def routed_part_def)

lemma ordered_parts:
  "map routed_part (order_by d sv_name ss) = sort_key (\<lambda>p. db_collate d (fst p)) (map routed_part ss)"
  unfolding order_by_def using map_sort_key [of routed_part "\<lambda>p. db_collate d (fst p)" ss] by (simp add: routed_part_def)

lemma routing_wanted:
  assumes "routing d = routing d'"
  shows "environments d = environments d'" "wanted S d = wanted S d'"
proof -
  from assms have d: "db_endpoints d = db_endpoints d'" "db_routes d = db_routes d'" "db_collate d = db_collate d'"
    "map routed_part (db_services d) = map routed_part (db_services d')" by (simp_all add: routing_def)
  from d(1) show "environments d = environments d'" by (simp add: environments_def)
  moreover have "order_by d = (order_by d' :: (route \<Rightarrow> string) \<Rightarrow> _)" using d(3) by (simp add: order_by_def fun_eq_iff)
  ultimately show "wanted S d = wanted S d'"
    using d by (simp add: wanted_def upstreams_of_parts ordered_parts)
qed

lemma current_routing:
  "routing (w_db w') = routing (w_db w) \<Longrightarrow> w_xds w' = w_xds w \<Longrightarrow> current S w' = current S w"
  using routing_wanted [of "w_db w'" "w_db w"] by (simp add: current_def)

lemma routing_now [simp]: "routing (d\<lparr>db_now := n\<rparr>) = routing d"
  by (simp add: routing_def)

lemma routing_read: "(\<And>d. snd (q d) = d) \<Longrightarrow> routing (w_db (snd (sql X q w))) = routing (w_db w)"
  by (rule sql_same) simp_all

section \<open>A publication makes it current\<close>

lemma sync_inputs:
  assumes "inputs X (Some (Upstreams X)) w eps ups rts w'"
  shows "eps = environments (w_db w)" "ups = upstreams_of (order_by (w_db w) sv_name (db_services (w_db w)))"
    "rts = order_by (w_db w) rt_subdomain (db_routes (w_db w))"
    "routing (w_db w') = routing (w_db w)" "w_xds w' = w_xds w"
proof -
  from assms obtain w1 w2 svcs where e: "sql X ListEndpoints w = (Inr eps, w1)"
    and u: "sql X (ListServices '''') w1 = (Inr svcs, w2)" and ups: "ups = upstreams_of svcs"
    and r: "sql X ListRoutes w2 = (Inr rts, w')"
    by (auto simp: inputs_def source_upstreams_def Upstreams_def io_inr)
  show "eps = environments (w_db w)"
    by (rule sql_Inr [OF e]) (auto simp: ListEndpoints_def environments_def)
  have r1: "routing (w_db w1) = routing (w_db w)" using routing_read [of ListEndpoints X w] e by simp
  have r2: "routing (w_db w2) = routing (w_db w1)" using routing_read [of "ListServices ''''" X w1] u by simp
  have "svcs = order_by (w_db w1) sv_name (db_services (w_db w1))"
    by (rule sql_Inr [OF u]) (auto simp: ListServices_def order_by_def)
  with r1 show "ups = upstreams_of (order_by (w_db w) sv_name (db_services (w_db w)))"
    by (simp add: ups upstreams_of_parts ordered_parts routing_def)
  have "rts = order_by (w_db w2) rt_subdomain (db_routes (w_db w2))"
    by (rule sql_Inr [OF r]) (auto simp: order_by_def)
  with r1 r2 show "rts = order_by (w_db w) rt_subdomain (db_routes (w_db w))"
    by (simp add: routing_def order_by_def)
  show "routing (w_db w') = routing (w_db w)" using routing_read [of ListRoutes X w2] r r1 r2 by simp
  show "w_xds w' = w_xds w"
    using sql_frame(1) [of X ListEndpoints w] sql_frame(1) [of X "ListServices ''''" w1] sql_frame(1) [of X ListRoutes w2] e u r
    by simp
qed

lemma sync_current:
  assumes "accepting X" "node_id_ok (w_xds w)" "SyncRoutes X S w = (Inr x, w')"
  shows "current S w'"
proof -
  from publish_Inr [OF assms(3) [unfolded SyncRoutes_def Sync_def]] obtain eps us rts w1 m
    where inp: "inputs X (Some (Upstreams X)) w eps us rts w1"
    and p: "xds.push (x_envoy X) (byEnv (all_upstreams (srv_baseDomain S) eps us rts))
        (x_order X (w_ext w1) (node_ids eps (all_upstreams (srv_baseDomain S) eps us rts))) (w_xds w1) = (Inr x, m)"
    and w': "w' = w1\<lparr>w_xds := m\<rparr>"
    by (auto simp: Let_def)
  note i = sync_inputs [OF inp]
  have ups: "all_upstreams (srv_baseDomain S) (environments (w_db w)) us rts = wanted S (w_db w)"
    by (simp add: wanted_def i(2,3))
  have ok: "node_id_ok (w_xds w1)" using assms(2) i(5) by simp
  have m: "node_id_ok m" "NodeForEndpoint m = NodeForEndpoint (w_xds w1)" using xds.push_keeps_good [OF ok p] by simp_all
  have "published m (NodeForEndpoint m j) (byEnv (wanted S (w_db w)) j)"
    if "j \<in> set (node_ids (environments (w_db w)) (wanted S (w_db w)))" for j
    using xds.push_published [OF accepting_lib_ok [OF assms(1)] ok p [unfolded i(1), unfolded ups], of j] that assms(1) m(2)
    by (simp add: accepting_def order_ok_def)
  with m(1) routing_wanted [OF i(4)] show ?thesis by (simp add: current_def w')
qed

text \<open>With such a library a publication fails only when it cannot read the tables.\<close>

lemma Update_accepted: "envoy_accepts L \<Longrightarrow> \<exists>m'. Update L n us m = (Inr (), m')"
  by (simp add: Update_def envoy_accepts_def Let_def)

lemma push_accepted: "envoy_accepts (x_envoy X) \<Longrightarrow> io_foreach (\<lambda>i. on_xds (push_node X ups i)) is w \<noteq> (Inl e, w')"
proof (induction "is" arbitrary: w)
  case (Cons i "is")
  obtain m' where "push_node X ups i (w_xds w) = (Inr (), m')"
    using Update_accepted [OF Cons.prems] unfolding push_node_def by blast
  with Cons.IH [OF Cons.prems] show ?case by (simp add: io_seq_def io_bind_def on_xds_def)
qed (simp add: io_ret_def)

lemma sync_fails:
  assumes "envoy_accepts (x_envoy X)" "SyncRoutes X S w = (Inl e, w')"
  shows "routing (w_db w') = routing (w_db w) \<and> w_xds w' = w_xds w \<and> \<not> faultless X"
proof -
  obtain r1 w1 where e: "sql X ListEndpoints w = (r1, w1)" by (cases "sql X ListEndpoints w")
  obtain r2 w2 where u: "sql X (ListServices '''') w1 = (r2, w2)" by (cases "sql X (ListServices '''') w1")
  obtain r3 w3 where r: "sql X ListRoutes w2 = (r3, w3)" by (cases "sql X ListRoutes w2")
  have 1: "routing (w_db w1) = routing (w_db w)" "w_xds w1 = w_xds w" "faultless X \<Longrightarrow> \<exists>x. r1 = Inr x"
    using routing_read [of ListEndpoints X w] sql_frame(1) [of X ListEndpoints w] e
    by (auto simp: sql_faultless ListEndpoints_def)
  have 2: "routing (w_db w2) = routing (w_db w1)" "w_xds w2 = w_xds w1" "faultless X \<Longrightarrow> \<exists>x. r2 = Inr x"
    using routing_read [of "ListServices ''''" X w1] sql_frame(1) [of X "ListServices ''''" w1] u
    by (auto simp: sql_faultless ListServices_def)
  have 3: "routing (w_db w3) = routing (w_db w2)" "w_xds w3 = w_xds w2" "faultless X \<Longrightarrow> \<exists>x. r3 = Inr x"
    using routing_read [of ListRoutes X w2] sql_frame(1) [of X ListRoutes w2] r
    by (auto simp: sql_faultless ListRoutes_def)
  from assms(2) show ?thesis
    using 1 2 3
    by (auto simp: push_accepted [OF assms(1)] SyncRoutes_def Sync_def publish_def source_upstreams_def Upstreams_def io_bind_def io_gets_def
        io_ret_def e u r Let_def split: sum.splits prod.splits)
qed

section \<open>What keeps it\<close>

lemma current_sync:
  fixes X :: "'e ext"
  assumes "envoy_accepts (x_envoy X)" "order_ok X"
  shows "io_keeps (current S) (SyncRoutes X S)"
proof (rule io_keepsI)
  fix w :: "'e world"
  assume "current S w"
  note a = assms this
  obtain r w' where s: "SyncRoutes X S w = (r, w')" by (cases "SyncRoutes X S w")
  show "current S (snd (SyncRoutes X S w))"
  proof (cases r)
    case (Inl e)
    with sync_fails [OF a(1)] s current_routing [of w' w] a(3) show ?thesis by simp
  next
    case (Inr x)
    moreover from a(3) have "node_id_ok (w_xds w)" by (simp add: current_def)
    ultimately show ?thesis using sync_current [of X w S x w'] s a(1,2) by (simp add: accepting_def)
  qed
qed

text \<open>The property as the contract has it; and the names of the nodes, which nothing changes.\<close>

definition published_ok :: "'e ext \<Rightarrow> server \<Rightarrow> 'e world \<Rightarrow> bool" where
  "published_ok X S w \<longleftrightarrow> (accepting X \<longrightarrow> current S w)"

lemma ClientFor_xds: "w_xds (snd (ClientFor X S i w)) = w_xds w"
  and ClientFor_routing: "routing (w_db (snd (ClientFor X S i w))) = routing (w_db w)"
proof -
  have q: "routing (w_db (snd (sql X (GetEndpoint i) v))) = routing (w_db v)" for v
    by (rule routing_read) (simp add: GetEndpoint_def split: option.split)
  have "io_keeps (\<lambda>w. w_xds w = x) (ClientFor X S i)" for x
    unfolding ClientFor_def cache_client_def by (intro io_keep) (simp_all add: io_keeps_def)
  then show "w_xds (snd (ClientFor X S i w)) = w_xds w" by (simp add: io_keeps_def)
  have "io_keeps (\<lambda>w. routing (w_db w) = x) (ClientFor X S i)" for x
    unfolding ClientFor_def cache_client_def by (intro io_keep) (simp_all add: io_keeps_def q)
  then show "routing (w_db (snd (ClientFor X S i w))) = routing (w_db w)" by (simp add: io_keeps_def)
qed

interpretation publication: server_calm X S "published_ok X S" for X S
proof unfold_locales
  fix f :: "db \<Rightarrow> db" and w :: "'a world" and n e
  assume "published_ok X S w"
  then show "published_ok X S (w\<lparr>w_db := f ((w_db w)\<lparr>db_now := n\<rparr>), w_ext := e\<rparr>)" if "calm_change f"
    using current_routing [of "w\<lparr>w_db := f ((w_db w)\<lparr>db_now := n\<rparr>), w_ext := e\<rparr>" w] that
    by (simp add: calm_change_def published_ok_def)
  then show "published_ok X S (w\<lparr>w_db := f ((w_db w)\<lparr>db_now := n\<rparr>), w_ext := e\<rparr>)" if "mild_change f"
    using that by (simp add: mild_change_def)
next
  fix i
  show "io_keeps (published_ok X S) (ClientFor X S i)"
    by (simp add: io_keeps_def published_ok_def current_routing [OF ClientFor_routing ClientFor_xds])
  show "io_keeps (published_ok X S) (SyncRoutes X S)"
    using current_sync [of X S] by (simp add: io_keeps_def published_ok_def accepting_def)
qed (simp_all add: ext_blind_def published_ok_def current_def)

definition nodes_named :: "'e world \<Rightarrow> bool" where
  "nodes_named w \<longleftrightarrow> node_id_ok (w_xds w)"

lemma nodes_named_sql [io_keep]: "io_keeps nodes_named (sql X q)"
  by (simp add: io_keeps_def nodes_named_def)

interpretation nodes: server_calm X S nodes_named for X S
proof unfold_locales
  have "node_id_ok m \<Longrightarrow> node_id_ok (snd (push_node X ups i m))" for ups i m
    by (simp add: push_node_def node_id_ok_def)
  then have "io_keeps nodes_named (on_xds (push_node X ups i))" for ups i
    by (auto simp: io_keeps_def nodes_named_def on_xds_def split: prod.splits) (metis snd_conv)
  then show "io_keeps nodes_named (SyncRoutes X S)" by (intro publish_parts_keep io_keep)
qed (simp_all add: ext_blind_def nodes_named_def io_keeps_def ClientFor_xds)

section \<open>Operations that end with a publication\<close>

text \<open>When such an operation returns without an error, the configuration is current, whatever it was before.\<close>

definition publishing :: "'e ext \<Rightarrow> server \<Rightarrow> ('x, 'e world, 'a) io \<Rightarrow> bool" where
  "publishing X S m \<longleftrightarrow> (\<forall>w x w'. nodes_named w \<longrightarrow> m w = (Inr x, w') \<longrightarrow> published_ok X S w')"

named_theorems publishing

lemma publishing_sync [publishing]: "publishing X S (SyncRoutes X S)"
  by (auto simp: publishing_def published_ok_def nodes_named_def intro: sync_current)

lemma publishing_then: "publishing X S m \<Longrightarrow> (\<And>x. io_keeps (published_ok X S) (k x)) \<Longrightarrow> publishing X S (io_bind m k)"
  unfolding publishing_def io_inr by (blast intro: io_keepsD)

lemma publishing_last:
  assumes "io_keeps nodes_named m" "\<And>x. publishing X S (k x)"
  shows "publishing X S (io_bind m k)"
  unfolding publishing_def io_inr
proof (intro allI impI, elim exE conjE)
  fix w y w' x t
  assume "nodes_named w" "m w = (Inr x, t)" "k x t = (Inr y, w')"
  moreover from this(1,2) have "nodes_named t" using io_keepsD [OF assms(1)] by blast
  ultimately show "published_ok X S w'" using assms(2) [of x] by (simp add: publishing_def)
qed

lemma publishing_seq: "io_keeps nodes_named m \<Longrightarrow> publishing X S n \<Longrightarrow> publishing X S (io_seq m n)"
  unfolding io_seq_def by (rule publishing_last)

lemma publishing_seq_ret: "publishing X S m \<Longrightarrow> (\<And>v. n v = (fst (n v), v)) \<Longrightarrow> publishing X S (io_seq m n)"
  unfolding io_seq_def by (rule publishing_then) (simp_all add: io_keeps_def, metis snd_conv)

lemma publishing_raise [publishing]: "publishing X S (io_raise e)" "publishing X S (writeErr st e')"
  by (simp_all add: publishing_def writeErr_def)

lemma publishing_if [publishing]: "publishing X S m \<Longrightarrow> publishing X S n \<Longrightarrow> publishing X S (if b then m else n)"
  by simp

lemma publishing_status [publishing]: "publishing X S m \<Longrightarrow> publishing X S (or_status st m)"
  by (simp add: publishing_def or_status_def)

lemmas named_keep = io_keep inv_keep nodes_named_sql

lemma publishing_services [publishing]:
  "publishing X S (ServiceCreate X S svc)" "publishing X S (ServiceUpdate X S n svc)"
  "publishing X S (SetSubdomain X S n sub)" "publishing X S (Scale X S n k)" "publishing X S (ServiceDelete X S n)"
proof -
  have ret: "publishing X S (io_seq (SyncRoutes X S) (io_ret x))" for x
    by (rule publishing_seq_ret [OF publishing_sync]) (simp add: io_ret_def)
  note last = publishing_seq publishing_last publishing_sync ret
  show "publishing X S (ServiceCreate X S svc)" "publishing X S (ServiceUpdate X S n svc)"
    "publishing X S (SetSubdomain X S n sub)" "publishing X S (Scale X S n k)" "publishing X S (ServiceDelete X S n)"
    unfolding ServiceCreate_def ServiceUpdate_def SetSubdomain_def Scale_def ServiceDelete_def dockerFor_def Let_def
    by (intro last named_keep)+
qed

lemma publishing_view: "publishing X S m \<Longrightarrow> publishing X S (io_bind (or_status st m) (\<lambda>svc. reply_view X S k svc))"
  by (intro publishing_then publishing_status inv_keep)

lemma publishing_view_of: "publishing X S m \<Longrightarrow> publishing X S (io_seq (or_status st m) (reply_view X S k svc))"
  unfolding io_seq_def by (intro publishing_then publishing_status inv_keep)

lemma publishing_json: "publishing X S m \<Longrightarrow> publishing X S (io_seq (or_status st m) (writeJSON k v))"
  unfolding io_seq_def writeJSON_def by (intro publishing_then publishing_status io_keep)

lemma publishing_handlers:
  "publishing X S (handleCreateService X S b r)" "publishing X S (handleUpdateService X S b r)"
  "publishing X S (handleSetServiceSubdomain X S b3 r)" "publishing X S (handleScaleService X S b4 r)"
  "publishing X S (handleDeleteService X S r)"
proof -
  have st: "io_keeps nodes_named (or_status st m)" if "io_keeps nodes_named m" for st and m :: "('e, 'a) op"
    using that unfolding or_status_def by (rule io_keep)
  have dec: "io_keeps nodes_named (decoded b)" for b :: "goerr + 'a"
    unfolding decoded_def by (intro st io_keep)
  have tok: "io_keeps nodes_named (newToken X)" unfolding newToken_def by (intro named_keep)
  note core = publishing_view publishing_view_of publishing_json publishing_services publishing_if publishing_raise
    publishing_last publishing_seq
  show "publishing X S (handleCreateService X S b r)" "publishing X S (handleUpdateService X S b r)"
    "publishing X S (handleSetServiceSubdomain X S b3 r)" "publishing X S (handleScaleService X S b4 r)"
    "publishing X S (handleDeleteService X S r)"
    unfolding handleCreateService_def handleUpdateService_def handleSetServiceSubdomain_def handleScaleService_def
      handleDeleteService_def Let_def
    by (intro core st dec tok named_keep)+
qed

section \<open>Routes\<close>

text \<open>Under a driver without faults a publication never fails.\<close>

lemma sync_returns:
  assumes "faultless X" "accepting X" "nodes_named w"
  shows "\<exists>w'. SyncRoutes X S w = (Inr (), w') \<and> current S w'"
proof -
  obtain r w' where s: "SyncRoutes X S w = (r, w')" by (cases "SyncRoutes X S w")
  with sync_fails [of X S w _ w'] assms(1,2) obtain x where "r = Inr x" by (cases r) (auto simp: accepting_def)
  with s sync_current [OF assms(2), of w S x w'] assms(3) show ?thesis by (auto simp: nodes_named_def)
qed

lemma write_then_sync:
  fixes X :: "'e ext"
  assumes "faultless X" "\<And>d e d'. q d = (Inl e, d') \<Longrightarrow> routing d' = routing d"
  shows "io_keeps (published_ok X S) (io_bind (sql X q) (\<lambda>v. io_seq (SyncRoutes X S) (io_ret (g v))))"
proof (rule io_keepsI)
  fix w :: "'e world"
  assume I: "published_ok X S w"
  let ?m = "io_bind (sql X q) (\<lambda>v. io_seq (SyncRoutes X S) (io_ret (g v)))"
  show "published_ok X S (snd (?m w))"
  proof (cases "accepting X")
    case True
    with I have cur: "current S w" by (simp add: published_ok_def)
    obtain r d where q: "q ((w_db w)\<lparr>db_now := sql_time X w\<rparr>) = (r, d)" by (metis surj_pair)
    let ?v = "w\<lparr>w_db := d, w_ext := snd (x_sql X (w_ext w))\<rparr>"
    have s: "sql X q w = (r, ?v)" by (simp add: sql_faultless [OF assms(1)] q)
    show ?thesis
    proof (cases r)
      case (Inl e)
      with assms(2) q have "routing d = routing (w_db w)" by fastforce
      with cur current_routing [of ?v w] s Inl show ?thesis by (simp add: io_bind_def published_ok_def)
    next
      case (Inr x)
      have "nodes_named ?v" using cur by (simp add: nodes_named_def current_def)
      with sync_returns [OF assms(1) True, of ?v S] obtain w' where "SyncRoutes X S ?v = (Inr (), w')" "current S w'" by blast
      with s Inr show ?thesis by (simp add: io_bind_def io_seq_def io_ret_def published_ok_def)
    qed
  qed (simp add: published_ok_def)
qed

lemma route_writes:
  assumes "faultless X"
  shows "io_keeps (published_ok X S) (Upsert X S (Some (Upstreams X)) rt)"
    and "io_keeps (published_ok X S) (RouteDelete X S (Some (Upstreams X)) n)"
proof -
  have p: "publish X S (Some (Upstreams X)) = SyncRoutes X S" by (simp add: SyncRoutes_def Sync_def)
  have "io_keeps (published_ok X S) (io_bind (sql X (UpsertRoute rt)) (\<lambda>v. io_seq (SyncRoutes X S) (io_ret v)))"
    by (rule write_then_sync [OF assms]) (auto simp: UpsertRoute_def Let_def split: if_splits option.splits)
  then show "io_keeps (published_ok X S) (Upsert X S (Some (Upstreams X)) rt)"
    unfolding Upsert_def p by (intro io_keeps_if) simp_all
  have "io_seq (SyncRoutes X S) (io_ret ()) = SyncRoutes X S"
    by (simp add: fun_eq_iff io_seq_def io_bind_def io_ret_def split: prod.split sum.split)
  moreover have "io_keeps (published_ok X S) (io_bind (sql X (DeleteRoute n)) (\<lambda>v. io_seq (SyncRoutes X S) (io_ret ())))"
    by (rule write_then_sync [OF assms]) (auto simp: DeleteRoute_def)
  ultimately show "io_keeps (published_ok X S) (RouteDelete X S (Some (Upstreams X)) n)"
    by (simp add: RouteDelete_def p io_seq_def)
qed

lemma route_handlers:
  assumes "faultless X"
  shows "io_keeps (published_ok X S) (handleUpsertRoute X S b r)" "io_keeps (published_ok X S) (handleDeleteRoute X S r)"
    "io_keeps (published_ok X S) (handleEditContainer X S b2 r)"
  unfolding handleUpsertRoute_def handleDeleteRoute_def handleEditContainer_def old_subdomain_def edit_route_def Let_def
  by (intro io_keep inv_keep route_writes assms)+

section \<open>Requests\<close>

lemma publishing_reply: "publishing X S (h r) \<Longrightarrow> publishing X S (reply f h r)"
  unfolding reply_def by (intro publishing_then) (auto intro!: io_keep split: prod.split)

lemma publishing_serve:
  assumes "edits_service c"
  shows "publishing X S (serve X S c r)"
proof -
  have h: "publishing X S (handle X S c q)" for q
    using assms by (elim edits_service.elims(2)) (simp_all add: publishing_reply publishing_handlers)
  have "access_of c \<noteq> Public" using assms by (elim edits_service.elims(2)) simp_all
  moreover have "io_keeps nodes_named (admit X S a r)" for a
    unfolding admit_def writeJSON_def
    by (intro Middleware_keeps nodes.fr_ext nodes.keep_access nodes.keep_guarded io_keep)
  ultimately show ?thesis
    unfolding serve_admit [OF \<open>access_of c \<noteq> Public\<close>] by (intro publishing_last) (auto intro: h split: prod.split)
qed

lemma serve_published:
  assumes "faultless X" "\<not> edits_environment c" "\<not> edits_service c"
  shows "io_keeps (published_ok X S) (serve X S c r)"
proof (cases "edits_route c")
  case True
  then have "io_keeps (published_ok X S) (handle X S c q)" for q
    by (elim edits_route.elims(2)) (simp_all add: publication.keep_reply route_handlers assms(1))
  then show ?thesis by (rule publication.keep_request)
next
  case False
  with assms show ?thesis by (intro publication.keep_calm_serve) (simp add: publishes_def)
qed

text \<open>
  The requests a run may have: none that edits an environment, and none that fails while it edits a
  service.
\<close>

inductive publishing_step :: "'e ext \<Rightarrow> server \<Rightarrow> 'e world \<Rightarrow> 'e world \<Rightarrow> bool" for X S where
  request: "serve X S c r w = (res, w') \<Longrightarrow> \<not> edits_environment c \<Longrightarrow>
    (edits_service c \<Longrightarrow> \<exists>x. res = Inr x) \<Longrightarrow> publishing_step X S w w'"
| resync: "publishing_step X S w (snd (SyncAll X S w))"
| outside: "publishing_step X S w (w\<lparr>w_ext := e\<rparr>)"

lemma publishing_step_current:
  assumes "faultless X" "accepting X" "publishing_step X S w w'" "current S w"
  shows "current S w'"
  using assms(3,4)
proof (induction rule: publishing_step.induct)
  case (request c r w res w')
  have I: "published_ok X S w" and n: "nodes_named w"
    using request.prems by (simp_all add: published_ok_def nodes_named_def current_def)
  have "published_ok X S w'"
  proof (cases "edits_service c")
    case True
    with request.hyps(3) obtain x where "res = Inr x" by blast
    with publishing_serve [OF True, of X S r] request.hyps(1) n show ?thesis by (auto simp: publishing_def)
  next
    case False
    with io_keepsD [OF serve_published [OF assms(1) request.hyps(2)] I request.hyps(1)] show ?thesis .
  qed
  with assms(2) show ?case by (simp add: published_ok_def)
next
  case (resync w)
  then have "published_ok X S w" by (simp add: published_ok_def)
  then have "published_ok X S (snd (SyncAll X S w))" by (rule io_keepsE [OF publication.keep_SyncAll])
  with assms(2) show ?case by (simp add: published_ok_def)
next
  case (outside w e)
  then show ?case by (simp add: current_def)
qed

lemma run_current:
  assumes "faultless X" "accepting X" "\<not> hasPrefix (cf_EnvoyNodeID (Load (bt_getenv B))) ''easydeploy-edge-''"
    and "run X B w0 = (Inr S, w)"
  shows "current S w"
proof (rule run_Inr [OF assms(4)])
  fix cfg box key w1 w2 w3
  assume cfg: "cfg = Load (bt_getenv B)" and new: "new_managers (bt_unixMilli B) cfg w2 = (Inr (), w3)"
    and w: "w = snd (Sync X S (Some (Upstreams X)) (snd (SyncAll X S w3)))"
  have "nodes_named w3" using new assms(3) by (auto simp: new_managers_def nodes_named_def node_id_ok_def NewManager_def cfg)
  then have "nodes_named (snd (SyncAll X S w3))" by (rule io_keepsE [OF nodes.keep_SyncAll])
  from sync_returns [OF assms(1,2) this, of S] show ?thesis by (auto simp: w SyncRoutes_def)
qed

text \<open>
  C4: what is published is what is stored.  With a driver and an Envoy library that report no errors, and
  whatever Docker does, after a start and through any sequence of requests and reconciliations every node has a snapshot of
  exactly the upstreams that the services, the manual routes and the environments in the database ask
  for; excepted are requests that edit an environment, and requests that fail while they edit a service.
\<close>

theorem published_configuration_is_current:
  assumes "faultless X" "accepting X" "\<not> hasPrefix (cf_EnvoyNodeID (Load (bt_getenv B))) ''easydeploy-edge-''"
    and "run X B w0 = (Inr S, w)" "(publishing_step X S)\<^sup>*\<^sup>* w w'"
  shows "current S w'"
  using assms(5)
proof (induction rule: rtranclp_induct)
  case base
  from run_current [OF assms(1-4)] show ?case .
next
  case (step v u)
  from publishing_step_current [OF assms(1,2) step.hyps(2) step.IH] show ?case .
qed

lemma sim_accepting [simp]: "accepting sim_ext"
  by (simp add: accepting_def envoy_accepts_def) (simp add: sim_ext_def envoy_lib_plain_def)

theorem published_configuration_is_current_witness:
  "\<exists>S w. run sim_ext sim_boot (sim_world sim_services_db) = (Inr S, w) \<and>
     current S (snd (SyncAll sim_ext S (snd (serve sim_ext S (Exposure DelRoute) (sim_request (\<lambda>_. '''')) w))))"
proof -
  have "(case fst (run sim_ext sim_boot (sim_world sim_services_db)) of Inr S \<Rightarrow> True | Inl _ \<Rightarrow> False)" by code_simp
  then obtain S w where r: "run sim_ext sim_boot (sim_world sim_services_db) = (Inr S, w)"
    by (cases "run sim_ext sim_boot (sim_world sim_services_db)") (auto split: sum.splits)
  have n: "\<not> hasPrefix (cf_EnvoyNodeID (Load (bt_getenv sim_boot))) ''easydeploy-edge-''" by code_simp
  let ?v = "snd (serve sim_ext S (Exposure DelRoute) (sim_request (\<lambda>_. '''')) w)"
  have "publishing_step sim_ext S w ?v"
    by (rule publishing_step.request [OF surjective_pairing]) simp_all
  moreover have "publishing_step sim_ext S ?v (snd (SyncAll sim_ext S ?v))" by (rule publishing_step.resync)
  ultimately have "(publishing_step sim_ext S)\<^sup>*\<^sup>* w (snd (SyncAll sim_ext S ?v))" by simp
  from published_configuration_is_current [OF sim_faultless sim_accepting n r this] r show ?thesis by blast
qed

section \<open>What does not keep it\<close>

text \<open>The name of an environment is part of the addresses of its services.\<close>

definition named_env :: "string \<Rightarrow> endpoint" where
  "named_env n = \<lparr>ep_id = 1, ep_name = n, ep_host = ''tcp://h:2375'', ep_tlsCAEnc = '''', ep_tlsCertEnc = '''',
     ep_tlsKeyEnc = '''', ep_tls = False, ep_createdAt = 0\<rparr>"

definition named_db :: db where
  "named_db = db_empty\<lparr>db_endpoints := [named_env ''alpha''],
     db_services := [(sim_service 1)\<lparr>sv_endpointID := 1\<rparr>], db_seq := (\<lambda>_. 1)\<rparr>"

definition rename_to :: "string \<Rightarrow> endpoint_body" where
  "rename_to n = \<lparr>nb_name = n, nb_host = ''tcp://h:2375'', nb_tlsCA = '''', nb_tlsCert = '''', nb_tlsKey = ''''\<rparr>"

definition first_env :: request where
  "first_env = (sim_request (\<lambda>_. ''''))\<lparr>rq_param := (\<lambda>_. ''1'')\<rparr>"

text \<open>What the published configuration of an environment answers to a host name.\<close>

definition answers :: "'e world \<Rightarrow> int \<Rightarrow> string \<Rightarrow> route_action option" where
  "answers w i h = (case xm_cache (w_xds w) (NodeForEndpoint (w_xds w) i) of
     None \<Rightarrow> None | Some s \<Rightarrow> route_host (hd (sn_routes s)) h)"

text \<open>
  C8: edits of an environment are never published.  Adding, changing or deleting an environment
  leaves the control plane as it was; so after a published environment is renamed, the service
  list shows a new address for its service, which Envoy answers with 404, while it still routes
  the old address.
\<close>

theorem environment_edits_are_not_published:
  "w_xds (snd (handleCreateEndpoint X S b r w)) = w_xds w \<and> w_xds (snd (handleUpdateEndpoint X S b r w)) = w_xds w \<and>
   w_xds (snd (handleDeleteEndpoint X r w)) = w_xds w \<and>
   (let u = snd (SyncRoutes sim_ext sim_server (sim_world named_db));
        v = snd (handleUpdateEndpoint sim_ext sim_server (Inr (rename_to ''beta'')) first_env u)
    in current sim_server u \<and>
       fst (ServiceDomains sim_ext sim_server ''web'' '''' 1 u) = Inr [''web.alpha.apps.test''] \<and>
       fst (ServiceDomains sim_ext sim_server ''web'' '''' 1 v) = Inr [''web.beta.apps.test''] \<and>
       answers v 1 ''web.beta.apps.test'' = Some (DirectResponse 404) \<and>
       answers v 1 ''web.alpha.apps.test'' = Some (ToCluster ''cl_svc-alpha-web''))"
proof -
  define I where "I = (\<lambda>v :: 'a world. w_xds v = w_xds w)"
  have blind: "ext_blind I" by (simp add: ext_blind_def I_def)
  have q: "io_keeps I (sql X s)" for s :: "'c stmt" by (simp add: io_keeps_def I_def)
  have dec: "io_keeps I (decoded c)" for c :: "goerr + endpoint_body" unfolding decoded_def or_status_def by (intro io_keep)
  have un: "io_keeps I (uncache_client i)" for i by (simp add: uncache_client_def io_keeps_def io_modify_def I_def)
  have parts: "io_keeps I (EndpointCreate X S n h ca cert key)" "io_keeps I (EndpointUpdate X S i n h ca cert key)"
    "io_keeps I (EndpointDelete X i)" for i n h ca cert key
    unfolding EndpointCreate_def EndpointUpdate_def EndpointDelete_def Let_def
    by (intro io_keep q un blind | simp split: prod.split)+
  have "io_keeps I (handleCreateEndpoint X S b r)" "io_keeps I (handleUpdateEndpoint X S b r)"
    "io_keeps I (handleDeleteEndpoint X r)"
    unfolding handleCreateEndpoint_def handleUpdateEndpoint_def handleDeleteEndpoint_def Let_def or_status_def
      writeErr_def writeJSON_def
    by (intro io_keep dec parts)+
  from this[THEN io_keepsE, of w] have keep: "w_xds (snd (handleCreateEndpoint X S b r w)) = w_xds w"
    "w_xds (snd (handleUpdateEndpoint X S b r w)) = w_xds w" "w_xds (snd (handleDeleteEndpoint X r w)) = w_xds w"
    by (simp_all add: I_def)
  let ?w = "sim_world named_db"
  have "nodes_named ?w" by (simp add: nodes_named_def node_id_ok_def sim_world_def NewManager_def hasPrefix_def)
  from sync_returns [OF sim_faultless sim_accepting this] have "current sim_server (snd (SyncRoutes sim_ext sim_server ?w))"
    by (metis snd_conv)
  moreover have "(let u = snd (SyncRoutes sim_ext sim_server ?w);
        v = snd (handleUpdateEndpoint sim_ext sim_server (Inr (rename_to ''beta'')) first_env u)
    in fst (ServiceDomains sim_ext sim_server ''web'' '''' 1 u) = Inr [''web.alpha.apps.test''] \<and>
       fst (ServiceDomains sim_ext sim_server ''web'' '''' 1 v) = Inr [''web.beta.apps.test''] \<and>
       answers v 1 ''web.beta.apps.test'' = Some (DirectResponse 404) \<and>
       answers v 1 ''web.alpha.apps.test'' = Some (ToCluster ''cl_svc-alpha-web''))" by code_simp
  ultimately show ?thesis using keep by (simp add: Let_def)
qed

end
