(* ===== verification/Lifecycle.thy ===== *)
theory Lifecycle
  imports Startup
begin

text \<open>
  \<^verbatim>\<open>cmd/easydeploy/main.go\<close>: the life of the process.  \<^verbatim>\<open>main_run\<close> is the
  whole of the function \<^verbatim>\<open>run\<close>: the start (theory Startup), the time between the start and
  the signal, given by what it does to the world, and the shutdown.  Its state has, beside the world,
  what the process holds: the handler of the signals, the pool of the database, the connection to the
  local Docker daemon and the listener of the control plane.
\<close>

section \<open>What the process holds\<close>

datatype resource = SignalHandler | Pool | DockerConn | XdsListener

type_synonym ('e, 'a) proc = "(goerr, 'e world \<times> resource list, 'a) io"

definition inside :: "('e, 'a) op \<Rightarrow> ('e, 'a) proc" where
  "inside m = (\<lambda>(w, rs). case m w of (r, w') \<Rightarrow> (r, (w', rs)))"

definition hold :: "resource \<Rightarrow> ('e, unit) proc" where
  "hold q = (\<lambda>(w, rs). (Inr (), (w, q # rs)))"

definition release :: "resource \<Rightarrow> ('e, unit) proc" where
  "release q = (\<lambda>(w, rs). (Inr (), (w, remove1 q rs)))"

text \<open>\<^verbatim>\<open>defer\<close>: the call runs on every way out of the function, and does not change what it returns.\<close>

definition deferred :: "('e, unit) proc \<Rightarrow> ('e, 'a) proc \<Rightarrow> ('e, 'a) proc" where
  "deferred d m = (\<lambda>s. case m s of (r, s') \<Rightarrow> (r, snd (d s')))"

section \<open>The function run\<close>

text \<open>\<^verbatim>\<open>store.Open\<close>: no way out closes the pool.\<close>

definition openPool :: "boot \<Rightarrow> string \<Rightarrow> ('e, unit) proc" where
  "openPool B url =
     io_seq (inside (or_fail (map_option (Wrap ''connect postgres'') (bt_newPool B url))))
    (io_seq (hold Pool)
    (io_seq (inside (or_fail (map_option (Wrap ''ping postgres'') (bt_ping B url))))
            (inside (or_fail (migrate B url)))))"

definition openDocker :: "boot \<Rightarrow> string \<Rightarrow> ('e, unit) proc" where
  "openDocker B host = io_seq (inside (or_fail (dockerNew B host))) (hold DockerConn)"

text \<open>
  The shutdown: the HTTP server stops, the control plane's listener is closed, and the helper
  containers of the local host are removed.
\<close>

definition shutdown :: "'e ext \<Rightarrow> server \<Rightarrow> ('e, unit) proc" where
  "shutdown X S = io_seq (release XdsListener) (inside (CleanupVolumeHelpers X (srv_local S)))"

text \<open>
  \<^verbatim>\<open>K\<close> is what happens between the start and the signal; it is told whether the HTTP address
  could be bound, because a failure to bind it is only logged.
\<close>

definition main_run :: "'e ext \<Rightarrow> boot \<Rightarrow> (bool \<Rightarrow> server \<Rightarrow> 'e world \<Rightarrow> 'e world) \<Rightarrow> ('e, unit) proc" where
  "main_run X B K =
     (let cfg = Load (bt_getenv B) in
      io_seq (inside (or_fail (Validate cfg)))
     (io_seq (hold SignalHandler)
     (deferred (release SignalHandler)
     (io_seq (openPool B (cf_DatabaseURL cfg))
     (deferred (release Pool)
     (io_seq (openDocker B (cf_DockerHost cfg))
     (deferred (release DockerConn)
     (io_bind (inside (start_server X B cfg)) (\<lambda>S.
      io_seq (hold XdsListener)
     (io_seq (inside (io_modify (K (bt_listenHTTP B (cf_HTTPAddr cfg) = None) S)))
             (shutdown X S)))))))))))"

section \<open>Properties\<close>

lemma inside_pair [simp]: "inside m (w, rs) = (fst (m w), (snd (m w), rs))"
  by (simp add: inside_def split: prod.split)

lemma hold_pair [simp]: "hold q (w, rs) = (Inr (), (w, q # rs))"
  by (simp add: hold_def)

lemma release_pair [simp]: "release q (w, rs) = (Inr (), (w, remove1 q rs))"
  by (simp add: release_def)

lemma or_fail_eq: "or_fail e w = ((case e of None \<Rightarrow> Inr () | Some err \<Rightarrow> Inl err), w)"
  by (simp add: or_fail_def io_ret_def io_raise_def split: option.split)

lemma quiet_all_returns: "fst (io_foreach (\<lambda>x. quiet (f x)) xs w) = Inr ()"
  by (induction xs arbitrary: w) (simp_all add: io_defs quiet_def split: prod.split)

lemma cleanup_returns [simp]: "fst (CleanupVolumeHelpers X c w) = Inr ()"
  by (simp add: CleanupVolumeHelpers_def io_bind_def io_try_def io_ret_def quiet_all_returns split: prod.split sum.split)

text \<open>The pool is opened but the database does not answer, or refuses the schema.\<close>

definition pool_without_store :: "boot \<Rightarrow> bool" where
  "pool_without_store B \<longleftrightarrow> (let cfg = Load (bt_getenv B); url = cf_DatabaseURL cfg in
     Validate cfg = None \<and> bt_newPool B url = None \<and> storeOpen B url \<noteq> None)"

text \<open>
  C37: the process ends the way it started.  Its function \<^verbatim>\<open>run\<close> fails exactly when the start
  fails, and with the same error; otherwise what it leaves is what the start, the time until the
  signal and the removal of the local helper containers leave, in that order.  On every way out it
  has given back what it holds, except that a pool whose database does not answer or cannot be
  migrated is never closed.  Whether the HTTP address can be bound has no influence on the result.
\<close>

theorem process_releases_what_it_holds:
  "main_run X B K (w, rs) =
     (case run X B w of
        (Inl e, w1) \<Rightarrow> (Inl e, (w1, if pool_without_store B then Pool # rs else rs))
      | (Inr S, w1) \<Rightarrow> (Inr (),
          (snd (CleanupVolumeHelpers X (srv_local S)
            (K (bt_listenHTTP B (cf_HTTPAddr (Load (bt_getenv B))) = None) S w1)), rs)))"
  by (cases "start_server X B (Load (bt_getenv B)) w")
    (auto simp: main_run_def run_def openPool_def openDocker_def shutdown_def deferred_def io_seq_def io_bind_def
      or_fail_eq pool_without_store_def storeOpen_def Let_def io_modify_def split: option.split sum.split)

end
