(* ===== verification/ClientRace.thy ===== *)
theory ClientRace
  imports Endpoint
begin

text \<open>
  The operations of \<^verbatim>\<open>endpoint.Manager\<close> when requests run beside each other.  The mutex
  protects single accesses of the client cache, not whole operations, so an operation is a sequence of
  atomic steps: \<^verbatim>\<open>ClientFor\<close> misses the cache, loads the row, connects, and stores the client;
  \<^verbatim>\<open>Update\<close> writes the row and then drops the cached client; \<^verbatim>\<open>Delete\<close> drops the
  client and then deletes the row.  The sequential operations of theory Endpoint are runs of these
  steps, and the coherence of the cache holds exactly as long as edits of an environment do not overlap
  with connections to it.
\<close>

section \<open>Steps\<close>

text \<open>Where a running call is; an idle caller has no entry in the table of calls.\<close>

datatype call_point =
    Missed int
  | Loaded int endpoint
  | Connected int client
  | Written int
  | Dropped int

type_synonym calls = "nat \<rightharpoonup> call_point"

fun connecting :: "call_point \<Rightarrow> int option" where
  "connecting (Missed i) = Some i"
| "connecting (Loaded i ep) = Some i"
| "connecting (Connected i cl) = Some i"
| "connecting _ = None"

fun editing :: "call_point \<Rightarrow> int option" where
  "editing (Written i) = Some i"
| "editing (Dropped i) = Some i"
| "editing _ = None"

definition busy :: "(call_point \<Rightarrow> int option) \<Rightarrow> calls \<Rightarrow> int \<Rightarrow> bool" where
  "busy k f i \<longleftrightarrow> (\<exists>c p. f c = Some p \<and> k p = Some i)"

text \<open>
  \<^verbatim>\<open>excl\<close>: no connection to an environment is made while it is edited, and no edit begins
  while a connection to it is made.
\<close>

inductive cstep :: "'e ext \<Rightarrow> server \<Rightarrow> bool \<Rightarrow> 'e world \<times> calls \<Rightarrow> 'e world \<times> calls \<Rightarrow> bool" for X S excl where
  miss: "f c = None \<Longrightarrow> i \<noteq> LocalID \<Longrightarrow> w_clients w i = None \<Longrightarrow> \<not> (excl \<and> busy editing f i) \<Longrightarrow>
    cstep X S excl (w, f) (w, f(c \<mapsto> Missed i))"
| load: "f c = Some (Missed i) \<Longrightarrow> sql X (GetEndpoint i) w = (r, w') \<Longrightarrow>
    cstep X S excl (w, f) (w', f(c := (case r of Inl _ \<Rightarrow> None | Inr ep \<Rightarrow> Some (Loaded i ep))))"
| dial: "f c = Some (Loaded i ep) \<Longrightarrow> NewRemote X (ep_host ep) (endpoint_tls S ep) w = (r, w') \<Longrightarrow>
    cstep X S excl (w, f) (w', f(c := (case r of Inl _ \<Rightarrow> None | Inr cl \<Rightarrow> Some (Connected i cl))))"
| store: "f c = Some (Connected i cl) \<Longrightarrow>
    cstep X S excl (w, f) (w\<lparr>w_clients := (w_clients w)(i \<mapsto> cl)\<rparr>, f(c := None))"
| save: "f c = None \<Longrightarrow> \<not> (excl \<and> busy connecting f (ep_id ep)) \<Longrightarrow> sql X (UpdateEndpoint ep) w = (r, w') \<Longrightarrow>
    cstep X S excl (w, f) (w', f(c := (case r of Inl _ \<Rightarrow> None | Inr _ \<Rightarrow> Some (Written (ep_id ep)))))"
| drop: "f c = Some (Written i) \<Longrightarrow>
    cstep X S excl (w, f) (w\<lparr>w_clients := (w_clients w)(i := None)\<rparr>, f(c := None))"
| forget: "f c = None \<Longrightarrow> \<not> (excl \<and> busy connecting f i) \<Longrightarrow>
    cstep X S excl (w, f) (w\<lparr>w_clients := (w_clients w)(i := None)\<rparr>, f(c \<mapsto> Dropped i))"
| delete: "f c = Some (Dropped i) \<Longrightarrow> sql X (DeleteEndpoint i) w = (r, w') \<Longrightarrow>
    cstep X S excl (w, f) (w', f(c := None))"
| create: "cstep X S excl (w, f) (snd (EndpointCreate X S n h ca cert key w), f)"

section \<open>The operations are runs of steps\<close>

lemma calls_again [simp]: "f c = None \<Longrightarrow> f(c := None) = f"
  by auto

lemma ClientFor_run:
  assumes "f c = None" "i \<noteq> LocalID" "w_clients w i = None" "\<not> (excl \<and> busy editing f i)"
  shows "(cstep X S excl)\<^sup>*\<^sup>* (w, f) (snd (ClientFor X S i w), f)"
proof -
  note step = converse_rtranclp_into_rtranclp
  have m: "cstep X S excl (w, f) (w, f(c \<mapsto> Missed i))" using assms by (rule miss)
  obtain r w1 where g: "sql X (GetEndpoint i) w = (r, w1)" by (cases "sql X (GetEndpoint i) w")
  have l: "cstep X S excl (w, f(c \<mapsto> Missed i)) (w1, f(c := (case r of Inl _ \<Rightarrow> None | Inr ep \<Rightarrow> Some (Loaded i ep))))"
    using load [of "f(c \<mapsto> Missed i)" c i X w r w1 S excl] g by simp
  show ?thesis
  proof (cases r)
    case (Inl e)
    with g assms have "snd (ClientFor X S i w) = w1" by (simp add: ClientFor_def io_defs)
    with m l Inl assms(1) show ?thesis by (auto intro: step)
  next
    case (Inr ep)
    obtain q w2 where n: "NewRemote X (ep_host ep) (endpoint_tls S ep) w1 = (q, w2)"
      by (cases "NewRemote X (ep_host ep) (endpoint_tls S ep) w1")
    have d: "cstep X S excl (w1, f(c \<mapsto> Loaded i ep)) (w2, f(c := (case q of Inl _ \<Rightarrow> None | Inr cl \<Rightarrow> Some (Connected i cl))))"
      using dial [of "f(c \<mapsto> Loaded i ep)" c i ep X S w1 q w2 excl] n by simp
    show ?thesis
    proof (cases q)
      case (Inl e)
      with g n assms Inr have "snd (ClientFor X S i w) = w2" by (simp add: ClientFor_def io_defs)
      with m l d Inr Inl assms(1) show ?thesis by (auto intro: step)
    next
      case (Inr cl)
      have s: "cstep X S excl (w2, f(c \<mapsto> Connected i cl)) (w2\<lparr>w_clients := (w_clients w2)(i \<mapsto> cl)\<rparr>, f(c := None))"
        using store [of "f(c \<mapsto> Connected i cl)" c i cl X S excl w2] by simp
      have "snd (ClientFor X S i w) = w2\<lparr>w_clients := (w_clients w2)(i \<mapsto> cl)\<rparr>"
        using g n assms Inr \<open>r = Inr ep\<close> by (simp add: ClientFor_def io_defs cache_client_def)
      with m l d s Inr \<open>r = Inr ep\<close> assms(1) show ?thesis by (auto intro!: step)
    qed
  qed
qed

lemma EndpointDelete_run:
  assumes "f c = None" "\<not> (excl \<and> busy connecting f i)"
  shows "(cstep X S excl)\<^sup>*\<^sup>* (w, f) (snd (EndpointDelete X i w), f)"
proof -
  let ?v = "w\<lparr>w_clients := (w_clients w)(i := None)\<rparr>"
  have "cstep X S excl (w, f) (?v, f(c \<mapsto> Dropped i))" using assms by (rule forget)
  moreover have "cstep X S excl (?v, f(c \<mapsto> Dropped i)) (snd (sql X (DeleteEndpoint i) ?v), f)"
    using delete [of "f(c \<mapsto> Dropped i)" c i X ?v _ _ S excl] assms(1) by (cases "sql X (DeleteEndpoint i) ?v") auto
  moreover have "snd (EndpointDelete X i w) = snd (sql X (DeleteEndpoint i) ?v)"
    by (simp add: EndpointDelete_def uncache_client_def io_defs)
  ultimately show ?thesis by (simp add: converse_rtranclp_into_rtranclp)
qed

lemma update_run:
  assumes "f c = None" "\<not> (excl \<and> busy connecting f (ep_id ep))"
  shows "(cstep X S excl)\<^sup>*\<^sup>* (w, f) (snd (io_seq (sql X (UpdateEndpoint ep)) (uncache_client (ep_id ep)) w), f)"
proof -
  obtain r v where u: "sql X (UpdateEndpoint ep) w = (r, v)" by (cases "sql X (UpdateEndpoint ep) w")
  have s: "cstep X S excl (w, f) (v, f(c := (case r of Inl _ \<Rightarrow> None | Inr _ \<Rightarrow> Some (Written (ep_id ep)))))"
    using assms u by (rule save)
  show ?thesis
  proof (cases r)
    case (Inl e)
    with s u assms(1) show ?thesis by (simp add: io_defs r_into_rtranclp)
  next
    case (Inr x)
    have "cstep X S excl (v, f(c \<mapsto> Written (ep_id ep))) (v\<lparr>w_clients := (w_clients v)(ep_id ep := None)\<rparr>, f(c := None))"
      using drop [of "f(c \<mapsto> Written (ep_id ep))" c "ep_id ep" X S excl v] by simp
    with s Inr u assms(1) show ?thesis
      by (simp add: io_defs uncache_client_def converse_rtranclp_into_rtranclp)
  qed
qed

section \<open>Without overlaps the cache is coherent\<close>

text \<open>The row of an environment, as a connection reads it.\<close>

definition has_row :: "'e world \<Rightarrow> int \<Rightarrow> (endpoint \<Rightarrow> bool) \<Rightarrow> bool" where
  "has_row w i P \<longleftrightarrow> (\<exists>e \<in> set (db_endpoints (w_db w)). ep_id e = i \<and> P e)"

fun point_ok :: "'e ext \<Rightarrow> server \<Rightarrow> 'e world \<Rightarrow> call_point \<Rightarrow> bool" where
  "point_ok X S w (Loaded i ep) = has_row w i (\<lambda>e. ep = scanEndpoint e)"
| "point_ok X S w (Connected i cl) = has_row w i (\<lambda>e. serves X S e cl)"
| "point_ok X S w (Dropped i) = (w_clients w i = None)"
| "point_ok X S w _ = True"

definition race_free :: "'e ext \<Rightarrow> server \<Rightarrow> 'e world \<times> calls \<Rightarrow> bool" where
  "race_free X S = (\<lambda>(w, f). db_ok (w_db w) \<and>
     (\<forall>i cl. w_clients w i = Some cl \<longrightarrow> busy editing f i \<or> has_row w i (\<lambda>e. serves X S e cl)) \<and>
     (\<forall>i. \<not> (busy connecting f i \<and> busy editing f i)) \<and>
     (\<forall>c p. f c = Some p \<longrightarrow> point_ok X S w p))"

text \<open>A table of calls seen from one caller: its own point, and those of the others.\<close>

definition there :: "(call_point \<Rightarrow> int option) \<Rightarrow> call_point option \<Rightarrow> int \<Rightarrow> bool" where
  "there k v i \<longleftrightarrow> (\<exists>p. v = Some p \<and> k p = Some i)"

definition elsewhere :: "(call_point \<Rightarrow> int option) \<Rightarrow> calls \<Rightarrow> nat \<Rightarrow> int \<Rightarrow> bool" where
  "elsewhere k f c i \<longleftrightarrow> (\<exists>d p. d \<noteq> c \<and> f d = Some p \<and> k p = Some i)"

lemma busy_split: "busy k f i \<longleftrightarrow> there k (f c) i \<or> elsewhere k f c i"
  unfolding busy_def there_def elsewhere_def by metis

lemma elsewhere_upd [simp]: "elsewhere k (f(c := v)) c i = elsewhere k f c i"
  by (auto simp: elsewhere_def)

lemma there_simps [simp]: "\<not> there k None i" "there k (Some p) i \<longleftrightarrow> k p = Some i"
  by (simp_all add: there_def)

text \<open>
  One rule for all steps of a caller \<^verbatim>\<open>c\<close>: the rows and the cache may change for one environment
  \<^verbatim>\<open>i\<close> only.
\<close>

lemma race_free_step:
  assumes inv: "race_free X S (w, f)" and ok: "db_ok (w_db w')"
    and rows: "\<And>j P. j \<noteq> i \<or> same \<Longrightarrow> has_row w j P \<Longrightarrow> has_row w' j P"
    and cache: "\<And>j. j \<noteq> i \<Longrightarrow> w_clients w' j = w_clients w j"
    and entry: "\<And>cl. w_clients w' i = Some cl \<Longrightarrow>
      w_clients w i = Some cl \<and> (there editing (f c) i \<longrightarrow> there editing v i) \<and> (same \<or> busy editing (f(c := v)) i) \<or>
      has_row w' i (\<lambda>e. serves X S e cl) \<and> \<not> elsewhere editing f c i"
    and excl: "\<And>j. there connecting v j \<Longrightarrow> \<not> elsewhere editing f c j" "\<And>j. there editing v j \<Longrightarrow> \<not> elsewhere connecting f c j"
      "\<And>j. \<not> (there connecting v j \<and> there editing v j)"
    and quiet: "\<not> same \<Longrightarrow> \<not> elsewhere connecting f c i"
    and point: "\<And>p. v = Some p \<Longrightarrow> point_ok X S w' p"
    and others: "\<And>j. there editing (f c) j \<Longrightarrow> there editing v j \<or> w_clients w' j = None"
  shows "race_free X S (w', f(c := v))"
proof -
  have I: "\<And>j cl. w_clients w j = Some cl \<Longrightarrow> busy editing f j \<or> has_row w j (\<lambda>e. serves X S e cl)"
    "\<And>j. \<not> (busy connecting f j \<and> busy editing f j)" "\<And>d p. f d = Some p \<Longrightarrow> point_ok X S w p"
    using inv by (auto simp: race_free_def)
  have P: "point_ok X S w' p" if d: "d \<noteq> c" "f d = Some p" for d p
  proof (cases p)
    case (Dropped j)
    have e: "elsewhere editing f c j" using d Dropped by (auto simp: elsewhere_def)
    have n: "w_clients w j = None" using I(3) [OF d(2)] Dropped by simp
    show ?thesis
    proof (cases "j = i")
      case True
      with entry e n show ?thesis using Dropped by (cases "w_clients w' i") auto
    qed (use cache n Dropped in simp)
  next
    case (Loaded j ep)
    then have "elsewhere connecting f c j" using d by (auto simp: elsewhere_def)
    then show ?thesis using rows [of j] quiet I(3) [OF d(2)] Loaded by auto
  next
    case (Connected j cl)
    then have "elsewhere connecting f c j" using d by (auto simp: elsewhere_def)
    then show ?thesis using rows [of j] quiet I(3) [OF d(2)] Connected by auto
  qed simp_all
  have C: "busy editing (f(c := v)) j \<or> has_row w' j (\<lambda>e. serves X S e cl)" if cl: "w_clients w' j = Some cl" for j cl
  proof (cases "j = i \<and> \<not> w_clients w i = Some cl")
    case True
    with entry cl show ?thesis by blast
  next
    case False
    then have "w_clients w j = Some cl" using cache [of j] cl by (cases "j = i") auto
    then consider "there editing (f c) j" | "elsewhere editing f c j" | "has_row w j (\<lambda>e. serves X S e cl)"
      using I(1) by (auto simp: busy_split [where c = c])
    then show ?thesis
    proof cases
      case 1
      then show ?thesis using others [OF 1] cl by (auto simp: busy_split [where c = c])
    next
      case 2
      then show ?thesis by (auto simp: busy_split [where c = c])
    next
      case 3
      show ?thesis
      proof (cases "j \<noteq> i \<or> same")
        case True
        then show ?thesis using rows 3 by blast
      next
        case False
        then show ?thesis using entry cl by blast
      qed
    qed
  qed
  have "\<not> (busy connecting (f(c := v)) j \<and> busy editing (f(c := v)) j)" for j
    using I(2) [of j] excl [of j] by (auto simp: busy_split [where c = c])
  with ok C P point show ?thesis by (auto simp: race_free_def)
qed

lemma has_row_cong: "db_endpoints (w_db w') = db_endpoints (w_db w) \<Longrightarrow> has_row w' = has_row w"
  by (simp add: has_row_def fun_eq_iff)

text \<open>A step that changes neither the rows nor the cache.\<close>

lemma race_free_quiet:
  assumes inv: "race_free X S (w, f)" and ok: "db_ok (w_db w')"
    and rows: "db_endpoints (w_db w') = db_endpoints (w_db w)" and cache: "w_clients w' = w_clients w"
    and excl: "\<And>j. there connecting v j \<Longrightarrow> \<not> elsewhere editing f c j" "\<And>j. \<not> there editing v j"
      "\<And>j. \<not> there editing (f c) j"
    and point: "\<And>p. v = Some p \<Longrightarrow> point_ok X S w' p"
  shows "race_free X S (w', f(c := v))"
  using inv ok
proof (rule race_free_step [where i = LocalID and same = True])
  show "has_row w j P \<Longrightarrow> has_row w' j P" for j P by (simp add: has_row_cong [OF rows])
qed (use cache excl point in simp_all)

lemma sql_db_ok: "io_keeps db_ok q \<Longrightarrow> db_ok (w_db w) \<Longrightarrow> sql X q w = (r, w') \<Longrightarrow> db_ok (w_db w')"
  using io_keepsD [OF db_inv_sql] by (auto simp: db_inv_def)

lemma connecting_excl:
  assumes "race_free X S (w, f)" "f c = Some p" "connecting p = Some i"
  shows "\<not> elsewhere editing f c i"
  using assms by (auto simp: race_free_def busy_split [where c = c])

lemma editing_excl:
  assumes "race_free X S (w, f)" "f c = Some p" "editing p = Some i"
  shows "\<not> elsewhere connecting f c i"
  using assms by (auto simp: race_free_def busy_split [where c = c])

lemma race_free_point: "race_free X S (w, f) \<Longrightarrow> f c = Some p \<Longrightarrow> point_ok X S w p"
  by (simp add: race_free_def)

lemma race_free_ok: "race_free X S (w, f) \<Longrightarrow> db_ok (w_db w)"
  by (simp add: race_free_def)

lemma race_free_load:
  assumes inv: "race_free X S (w, f)" and c: "f c = Some (Missed i)" and q: "sql X (GetEndpoint i) w = (r, w')"
  shows "race_free X S (w', f(c := (case r of Inl _ \<Rightarrow> None | Inr ep \<Rightarrow> Some (Loaded i ep))))"
proof (rule race_free_quiet [OF inv])
  show "db_ok (w_db w')" by (rule sql_db_ok [OF GetEndpoint_keeps race_free_ok [OF inv] q])
  show rows: "db_endpoints (w_db w') = db_endpoints (w_db w)" using sql_GetEndpoint_frame [of X i w] q by simp
  show "w_clients w' = w_clients w" using sql_frame(2) [of X "GetEndpoint i" w] q by simp
  show "point_ok X S w' p" if "(case r of Inl _ \<Rightarrow> None | Inr ep \<Rightarrow> Some (Loaded i ep)) = Some p" for p
  proof -
    from that obtain ep where r: "r = Inr ep" "p = Loaded i ep" by (cases r) auto
    with q obtain d e n where "GetEndpoint i ((w_db w)\<lparr>db_now := n\<rparr>) = (Inr ep, d)" by (metis sql_Inr)
    with r rows show ?thesis by (auto simp: has_row_def dest!: GetEndpoint_Inr)
  qed
qed (use c connecting_excl [OF inv c] in \<open>auto split: sum.splits\<close>)

lemma race_free_dial:
  assumes inv: "race_free X S (w, f)" and c: "f c = Some (Loaded i ep)"
    and q: "NewRemote X (ep_host ep) (endpoint_tls S ep) w = (r, w')"
  shows "race_free X S (w', f(c := (case r of Inl _ \<Rightarrow> None | Inr cl \<Rightarrow> Some (Connected i cl))))"
proof (rule race_free_quiet [OF inv])
  note fr = NewRemote_frame(1,2) [of X "ep_host ep" "endpoint_tls S ep" w, unfolded q snd_conv]
  show "db_ok (w_db w')" using race_free_ok [OF inv] fr by simp
  show rows: "db_endpoints (w_db w') = db_endpoints (w_db w)" using fr by simp
  show "w_clients w' = w_clients w" by (rule fr)
  show "point_ok X S w' p" if "(case r of Inl _ \<Rightarrow> None | Inr cl \<Rightarrow> Some (Connected i cl)) = Some p" for p
  proof -
    from that obtain cl where r: "r = Inr cl" "p = Connected i cl" by (cases r) auto
    have "serves X S ep cl" using NewRemote_serves q r by blast
    with race_free_point [OF inv c] r show ?thesis by (auto simp: has_row_cong [OF rows] has_row_def)
  qed
qed (use c connecting_excl [OF inv c] in \<open>auto split: sum.splits\<close>)

lemma race_free_save:
  assumes ans: "answers_kept X" and inv: "race_free X S (w, f)" and c: "f c = None"
    and n: "\<not> busy connecting f (ep_id ep)" and q: "sql X (UpdateEndpoint ep) w = (r, w')"
  shows "race_free X S (w', f(c := (case r of Inl _ \<Rightarrow> None | Inr _ \<Rightarrow> Some (Written (ep_id ep)))))"
proof -
  have cl: "w_clients w' = w_clients w" using sql_frame(2) [of X "UpdateEndpoint ep" w] q by simp
  have ok: "db_ok (w_db w')" by (rule sql_db_ok [OF UpdateEndpoint_keeps race_free_ok [OF inv] q])
  show ?thesis
  proof (cases r)
    case (Inl e)
    with q ans have "db_endpoints (w_db w') = db_endpoints (w_db w)"
      by (auto simp: sql_def UpdateEndpoint_def Let_def answers_kept_def split: prod.splits fault.splits) (metis fst_conv)
    with Inl c show ?thesis by (intro race_free_quiet [OF inv ok _ cl]) simp_all
  next
    case (Inr x)
    with q obtain d e m where d: "UpdateEndpoint ep ((w_db w)\<lparr>db_now := m\<rparr>) = (Inr x, d)" "w' = w\<lparr>w_db := d, w_ext := e\<rparr>"
      by (metis sql_Inr)
    have "has_row w' j P" if "j \<noteq> ep_id ep" "has_row w j P" for j P
      using that d by (fastforce simp: has_row_def UpdateEndpoint_def set_upd_rows)
    with inv ok Inr c cl n show ?thesis
      by (intro race_free_step [where i = "ep_id ep" and same = False]) (auto simp: busy_split [where c = c])
  qed
qed

lemma race_free_delete:
  assumes inv: "race_free X S (w, f)" and c: "f c = Some (Dropped i)" and q: "sql X (DeleteEndpoint i) w = (r, w')"
  shows "race_free X S (w', f(c := None))"
proof (rule race_free_step [OF inv, where i = i and same = False])
  show "db_ok (w_db w')" by (rule sql_db_ok [OF DeleteEndpoint_keeps race_free_ok [OF inv] q])
  have cl: "w_clients w' = w_clients w" using sql_frame(2) [of X "DeleteEndpoint i" w] q by simp
  with race_free_point [OF inv c] have n: "w_clients w' i = None" by simp
  then show "there editing (f c) j \<Longrightarrow> there editing None j \<or> w_clients w' j = None" for j using c by simp
  show "w_clients w' j = w_clients w j" for j by (simp add: cl)
  have "db_endpoints (w_db w') = db_endpoints (w_db w) \<or>
      db_endpoints (w_db w') = del_rows (\<lambda>e. ep_id e = i) (db_endpoints (w_db w))"
    using sql_db [of X "DeleteEndpoint i" w] q by (auto simp: DeleteEndpoint_def)
  then show "j \<noteq> i \<or> False \<Longrightarrow> has_row w j P \<Longrightarrow> has_row w' j P" for j P
    by (auto simp: has_row_def del_rows_def)
qed (use c race_free_point [OF inv c] editing_excl [OF inv c] sql_frame(2) [of X "DeleteEndpoint i" w] q in auto)

lemma race_free_create:
  assumes inv: "race_free X S (w, f)"
  shows "race_free X S (snd (EndpointCreate X S n h ca cert key w), f)"
proof -
  let ?w = "snd (EndpointCreate X S n h ca cert key w)"
  define J where "J = (\<lambda>v :: 'a world. db_ok (w_db v) \<and> set (db_endpoints (w_db w)) \<subseteq> set (db_endpoints (w_db v)) \<and> w_clients v = w_clients w)"
  have J: "ext_blind J" by (simp add: ext_blind_def J_def)
  have "io_keeps J (sql X (CreateEndpoint e))" for e
  proof (rule io_keepsI)
    fix v assume v: "J v"
    obtain r u where q: "sql X (CreateEndpoint e) v = (r, u)" by (cases "sql X (CreateEndpoint e) v")
    have "db_ok (w_db u)" using sql_db_ok [OF CreateEndpoint_keeps _ q] v by (simp add: J_def)
    moreover have "set (db_endpoints (w_db v)) \<subseteq> set (db_endpoints (w_db u))"
      using sql_db [of X "CreateEndpoint e" v] q by (auto simp: CreateEndpoint_def Let_def bump_seq_def)
    ultimately show "J (snd (sql X (CreateEndpoint e) v))"
      using v q sql_frame(2) [of X "CreateEndpoint e" v] by (auto simp: J_def)
  qed
  then have "io_keeps J (EndpointCreate X S n h ca cert key)"
    unfolding EndpointCreate_def by (intro io_keep encrypted_keeps J)
  then have "J ?w" using race_free_ok [OF inv] by (auto simp: J_def dest: io_keepsE)
  then have r: "db_ok (w_db ?w)" "w_clients ?w = w_clients w" "has_row w j P \<Longrightarrow> has_row ?w j P" for j P
    by (auto simp: J_def has_row_def)
  have "point_ok X S ?w p" if "point_ok X S w p" for p using that r by (cases p) simp_all
  with inv r show ?thesis unfolding race_free_def by fastforce
qed

lemma race_free_cstep:
  assumes "answers_kept X" "cstep X S True s t" "race_free X S s"
  shows "race_free X S t"
  using assms(2,3)
proof cases
  case (miss f c i w)
  with assms(3) show ?thesis
    by (auto simp: busy_split [where c = c] race_free_ok intro!: race_free_quiet)
next
  case (load f c i w r w')
  with assms(3) show ?thesis by (auto intro: race_free_load)
next
  case (dial f c i ep w r w')
  with assms(3) show ?thesis by (auto intro: race_free_dial)
next
  case (store f c i cl w)
  have inv: "race_free X S (w, f)" using assms(3) store by simp
  have "has_row w i (\<lambda>e. serves X S e cl)" using race_free_point [OF inv store(3)] by simp
  then have "race_free X S (w\<lparr>w_clients := (w_clients w)(i \<mapsto> cl)\<rparr>, f(c := None))"
    using connecting_excl [OF inv store(3)] store(3) race_free_ok [OF inv]
    by (intro race_free_step [OF inv, where i = i and same = True]) (auto simp: has_row_def)
  with store show ?thesis by simp
next
  case (save f c ep w r w')
  with assms(1,3) show ?thesis by (auto intro: race_free_save)
next
  case (drop f c i w)
  have inv: "race_free X S (w, f)" using assms(3) drop by simp
  have "race_free X S (w\<lparr>w_clients := (w_clients w)(i := None)\<rparr>, f(c := None))"
    using drop(3) race_free_ok [OF inv]
    by (intro race_free_step [OF inv, where i = i and same = True]) (auto simp: has_row_def)
  with drop show ?thesis by simp
next
  case (forget f c i w)
  have inv: "race_free X S (w, f)" using assms(3) forget by simp
  have "race_free X S (w\<lparr>w_clients := (w_clients w)(i := None)\<rparr>, f(c \<mapsto> Dropped i))"
    using forget race_free_ok [OF inv]
    by (intro race_free_step [OF inv, where i = i and same = True]) (auto simp: has_row_def busy_split [where c = c])
  with forget show ?thesis by simp
next
  case (delete f c i w r w')
  with assms(3) show ?thesis by (auto intro: race_free_delete)
next
  case (create w f n h ca cert key)
  with assms(3) show ?thesis by (auto intro: race_free_create)
qed

lemma race_free_run:
  assumes "(cstep X S True)\<^sup>*\<^sup>* s t" "answers_kept X" "race_free X S s"
  shows "race_free X S t"
  using assms by (induction rule: rtranclp_induct) (auto intro: race_free_cstep)

lemma race_free_idle: "race_free X S (w, Map.empty) \<longleftrightarrow> cache_ok X S w"
  by (auto simp: race_free_def busy_def has_row_def cache_ok_def)

section \<open>With an overlap it may not be\<close>

definition race_row :: "string \<Rightarrow> endpoint" where
  "race_row host = \<lparr>ep_id = 1, ep_name = ''a'', ep_host = host, ep_tlsCAEnc = '''', ep_tlsCertEnc = '''',
     ep_tlsKeyEnc = '''', ep_tls = False, ep_createdAt = 0\<rparr>"

definition race_db :: "string \<Rightarrow> db" where
  "race_db host = db_empty\<lparr>db_endpoints := [race_row host], db_seq := (\<lambda>_. 1)\<rparr>"

definition race_client :: client where
  "race_client = \<lparr>cli_ref = 1, cli_host = ''tcp://h1:2375'', cli_tls = None\<rparr>"

text \<open>Before the edit, with the client connected and not stored, and at the end.\<close>

definition race_mid :: "string \<Rightarrow> (int \<rightharpoonup> client) \<Rightarrow> sim world" where
  "race_mid host cs = (sim_world (race_db host))\<lparr>w_next := 2, w_clients := cs\<rparr>"

lemma race_now [simp]: "(race_db h)\<lparr>db_now := 0\<rparr> = race_db h"
  by (simp add: race_db_def db_empty_def)

lemma race_steps:
  "(cstep sim_ext sim_server False)\<^sup>*\<^sup>* (sim_world (race_db ''tcp://h1:2375''), Map.empty)
     (race_mid ''tcp://h2:2375'' [1 \<mapsto> race_client], Map.empty)"
proof -
  let ?S = "cstep sim_ext sim_server False"
  let ?w = "sim_world (race_db ''tcp://h1:2375'')"
  let ?v = "race_mid ''tcp://h1:2375'' Map.empty"
  let ?u = "race_mid ''tcp://h2:2375'' Map.empty"
  let ?ep = "race_row ''tcp://h1:2375''"
  have 1: "?S (?w, Map.empty) (?w, [0 \<mapsto> Missed 1])"
    by (rule miss) (simp_all add: LocalID_def sim_world_def)
  have "sql sim_ext (GetEndpoint 1) ?w = (Inr ?ep, ?w)"
    by (simp add: sql_def sim_world_def GetEndpoint_def scanEndpoint_def race_db_def race_row_def db_empty_def)
  from load [where f = "[0 \<mapsto> Missed 1]" and c = 0, OF _ this] have 2: "?S (?w, [0 \<mapsto> Missed 1]) (?w, [0 \<mapsto> Loaded 1 ?ep])"
    by simp
  have "NewRemote sim_ext (ep_host ?ep) (endpoint_tls sim_server ?ep) ?w = (Inr race_client, ?v)"
    by (simp add: NewRemote_def endpoint_tls_def race_row_def connect_def new_client_def hasPrefix_def race_client_def
        race_mid_def sim_world_def sim_ext_def fun_eq_iff)
  from dial [where f = "[0 \<mapsto> Loaded 1 ?ep]" and c = 0 and i = 1, OF _ this]
  have 3: "?S (?w, [0 \<mapsto> Loaded 1 ?ep]) (?v, [0 \<mapsto> Connected 1 race_client])" by simp
  have "sql sim_ext (UpdateEndpoint (race_row ''tcp://h2:2375'')) ?v = (Inr (), ?u)"
    by (simp add: sql_def race_mid_def sim_world_def UpdateEndpoint_def upd_rows_def race_db_def race_row_def db_empty_def)
  from save [where f = "[0 \<mapsto> Connected 1 race_client]" and c = 1 and excl = False, OF _ _ this]
  have 4: "?S (?v, [0 \<mapsto> Connected 1 race_client]) (?u, [0 \<mapsto> Connected 1 race_client, 1 \<mapsto> Written 1])"
    by (simp add: race_row_def)
  have 5: "?S (?u, [0 \<mapsto> Connected 1 race_client, 1 \<mapsto> Written 1]) (?u, [0 \<mapsto> Connected 1 race_client])"
    using drop [where f = "[0 \<mapsto> Connected 1 race_client, 1 \<mapsto> Written 1]" and c = 1 and i = 1 and w = ?u
      and X = sim_ext and S = sim_server and excl = False] by (simp add: race_mid_def)
  have 6: "?S (?u, [0 \<mapsto> Connected 1 race_client]) (race_mid ''tcp://h2:2375'' [1 \<mapsto> race_client], Map.empty)"
    using store [where f = "[0 \<mapsto> Connected 1 race_client]" and c = 0 and i = 1 and w = ?u
      and X = sim_ext and S = sim_server and excl = False] by (simp add: race_mid_def)
  from 1 2 3 4 5 6 show ?thesis by (meson converse_rtranclp_into_rtranclp r_into_rtranclp)
qed

lemma race_before: "cache_ok sim_ext sim_server (sim_world (race_db h))"
  by (simp add: cache_ok_def sim_world_def race_db_def race_row_def db_empty_def db_ok_def db_ok_defs tbl_ok_def in_i32_def)

lemma race_after: "\<not> cache_ok sim_ext sim_server (race_mid ''tcp://h2:2375'' [1 \<mapsto> race_client])"
  by (auto simp: cache_ok_def race_mid_def sim_world_def race_db_def race_row_def serves_def race_client_def hasPrefix_def)

text \<open>
  C11: a stale client needs an overlap.  With a driver that does not lose the answer of a statement that
  took effect: if edits of an environment never overlap with connections to it, then after any interleaving of
  \<^verbatim>\<open>ClientFor\<close>, \<^verbatim>\<open>Update\<close>, \<^verbatim>\<open>Delete\<close> and
  \<^verbatim>\<open>Create\<close>, once no call is running, every cached client is connected the way its row says.
  With an overlap this fails, also on the sample outside, whose driver has no faults: a connection that was
  made before an edit can be stored after it, and the server then keeps talking to the old host.
\<close>

theorem stale_clients_need_an_overlap:
  assumes "answers_kept X" "cache_ok X S w"
  shows "((cstep X S True)\<^sup>*\<^sup>* (w, Map.empty) (w', Map.empty) \<longrightarrow> cache_ok X S w') \<and>
    (\<exists>u v. cache_ok sim_ext sim_server u \<and> (cstep sim_ext sim_server False)\<^sup>*\<^sup>* (u, Map.empty) (v, Map.empty) \<and>
       \<not> cache_ok sim_ext sim_server v)"
  using race_free_run [of X S "(w, Map.empty)" "(w', Map.empty)"] assms race_before race_steps race_after
  by (auto simp: race_free_idle)

theorem stale_clients_need_an_overlap_witness:
  "cache_ok sim_ext sim_server (snd (ClientFor sim_ext sim_server 1 (sim_world (race_db ''tcp://h1:2375''))))"
proof -
  have a: "answers_kept sim_ext" by (simp add: answers_kept_def)
  have "(cstep sim_ext sim_server True)\<^sup>*\<^sup>* (sim_world (race_db ''tcp://h1:2375''), Map.empty)
      (snd (ClientFor sim_ext sim_server 1 (sim_world (race_db ''tcp://h1:2375''))), Map.empty)"
    by (rule ClientFor_run [where c = 0]) (simp_all add: LocalID_def sim_world_def busy_def)
  with stale_clients_need_an_overlap [OF a race_before] show ?thesis by blast
qed

end
