(* ===== verification/ScaleRace.thy ===== *)
theory ScaleRace
  imports Replicas
begin

text \<open>
  The mutex of the service manager is taken by \<^verbatim>\<open>Update\<close> and \<^verbatim>\<open>Redeploy\<close> only.
  \<^verbatim>\<open>Scale\<close>, which requests and the autoscaler call, first stores the new count and then
  reconciles the service as it had read it; a \<^verbatim>\<open>Delete\<close> can run in between.
\<close>

section \<open>The two halves of Scale\<close>

definition scale_first :: "'e ext \<Rightarrow> string \<Rightarrow> int \<Rightarrow> ('e, service) op" where
  "scale_first X name replicas0 =
     io_bind (sql X (GetService name)) (\<lambda>svc.
       let replicas = (if replicas0 < 0 then 0 else replicas0) in
       io_seq (sql X (SetServiceReplicas (sv_id svc) replicas)) (io_ret (svc\<lparr>sv_replicas := replicas\<rparr>)))"

definition scale_rest :: "'e ext \<Rightarrow> server \<Rightarrow> service \<Rightarrow> ('e, unit) op" where
  "scale_rest X S svc = io_seq (reconcile X S svc) (SyncRoutes X S)"

lemma Scale_halves: "Scale X S n k = io_bind (scale_first X n k) (scale_rest X S)"
  by (simp add: Scale_def scale_first_def scale_rest_def io_bind_assoc Let_def io_seq_def)

section \<open>What a deletion leaves\<close>

lemma GetService_some:
  assumes "db_ok (w_db w)" and get: "sql X (GetService n) w = (Inr s, w')"
  shows "s \<in> set (db_services (w_db w)) \<and> sv_name s = n \<and> db_services (w_db w') = db_services (w_db w)"
proof (rule sql_Inr [OF get])
  fix d e now
  assume "GetService n ((w_db w)\<lparr>db_now := now\<rparr>) = (Inr s, d)" and "w' = w\<lparr>w_db := d, w_ext := e\<rparr>"
  with assms(1) show ?thesis by (simp add: GetService_Inr)
qed

lemma ServiceDelete_row:
  fixes X :: "'e ext"
  assumes "db_ok (w_db w)" "ServiceDelete X S n w = (Inr (), w')"
  shows "n \<notin> sv_name ` set (db_services (w_db w'))"
proof -
  from assms(2) obtain s w1 cli w2 reps w3 w4 w5 where
    get: "sql X (GetService n) w = (Inr s, w1)" and cli: "dockerFor X S s w1 = (Inr cli, w2)" and
    lst: "ListByLabel X cli (LabelService @ CHR ''='' # n) True w2 = (Inr reps, w3)" and
    rem: "(io_foreach (\<lambda>c. quiet (ContainerRemove X cli (su_id c))) reps :: ('e, unit) op) w3 = (Inr (), w4)" and
    del: "sql X (DeleteService (sv_id s)) w4 = (Inr (), w5)" and syn: "SyncRoutes X S w5 = (Inr (), w')"
    by (auto simp: ServiceDelete_def io_inr)
  define R where "R = db_services (w_db w)"
  let ?is = "\<lambda>P. services_are P :: 'e world \<Rightarrow> bool"
  have s: "s \<in> set R" "sv_name s = n" and 1: "db_services (w_db w1) = R"
    using GetService_some [OF assms(1) get] by (simp_all add: R_def)
  have "?is (\<lambda>ss. ss = R) w1" using 1 by (simp add: services_are_def)
  with io_keepsD [OF services_are_ClientFor _ cli [unfolded dockerFor_def]] have "?is (\<lambda>ss. ss = R) w2" .
  moreover have "io_keeps (?is (\<lambda>ss. ss = R)) (ListByLabel X cli (LabelService @ CHR ''='' # n) True)"
    by (intro docker_keep services_are_blind)
  ultimately have "?is (\<lambda>ss. ss = R) w3" using lst by (metis io_keepsD)
  moreover have "io_keeps (?is (\<lambda>ss. ss = R))
      (io_foreach (\<lambda>c. quiet (ContainerRemove X cli (su_id c))) reps :: ('e, unit) op)"
    by (intro io_keep docker_keep services_are_blind)
  ultimately have "?is (\<lambda>ss. ss = R) w4" using rem by (metis io_keepsD)
  then have 4: "db_services (w_db w4) = R" by (simp add: services_are_def)
  have 5: "db_services (w_db w5) = del_rows (\<lambda>r. sv_id r = sv_id s) R"
    by (rule sql_Inr [OF del]) (auto simp: DeleteService_def 4)
  have "distinct (map sv_name R)" using assms(1) by (simp add: R_def db_ok_def services_ok_iff tbl_ok_def)
  with s have "n \<notin> sv_name ` set (db_services (w_db w5))"
    by (auto simp: 5 del_rows_def distinct_map dest: inj_onD)
  then have "?is (\<lambda>ss. n \<notin> sv_name ` set ss) w5" by (simp add: services_are_def)
  with io_keepsD [OF services_are_sync _ syn] have "?is (\<lambda>ss. n \<notin> sv_name ` set ss) w'" .
  then show ?thesis by (simp add: services_are_def)
qed

section \<open>What each half does\<close>

lemma scale_first_Inr:
  assumes "db_ok (w_db w)" "scale_first X n k w = (Inr svc, w1)"
  shows "sv_name svc = n" "sv_replicas svc = max 0 k" "in_i32 (sv_replicas svc)" "db_ok (w_db w1)"
    "\<forall>s \<in> set (db_services (w_db w1)). sv_name s = n \<longrightarrow> sv_replicas s = max 0 k"
proof -
  from assms(2) obtain s v where get: "sql X (GetService n) w = (Inr s, v)"
    and set: "sql X (SetServiceReplicas (sv_id s) (max 0 k)) v = (Inr (), w1)"
    and svc: "svc = s\<lparr>sv_replicas := max 0 k\<rparr>"
    by (auto simp: scale_first_def io_inr Let_def max_def split: if_splits)
  note s = GetService_some [OF assms(1) get] and u = SetServiceReplicas_row [OF set]
  show "sv_name svc = n" "sv_replicas svc = max 0 k" "in_i32 (sv_replicas svc)" using s u svc by simp_all
  have "io_keeps db_inv (scale_first X n k)"
    unfolding scale_first_def Let_def by (intro io_keep stmt_keeps)
  with assms show "db_ok (w_db w1)" by (metis db_inv_def io_keepsD)
  have "distinct (map sv_name (db_services (w_db w)))" using assms(1) by (simp add: db_ok_def services_ok_iff tbl_ok_def)
  then have "t = s" if "t \<in> set (db_services (w_db v))" "sv_name t = n" for t
    using that s by (auto simp: distinct_map dest: inj_onD)
  then show "\<forall>s \<in> set (db_services (w_db w1)). sv_name s = n \<longrightarrow> sv_replicas s = max 0 k"
    unfolding conjunct2 [OF u] set_upd_rows by (intro ballI, elim imageE) (simp split: if_splits, metis)
qed

lemma scale_rest_Inr:
  assumes "docker_ok X V" "order_ok X" "labels_plain X svc" "in_i32 (sv_replicas svc)"
    and "fst (ClientFor X S (sv_endpointID svc) w) = Inr c" "distinct (map cv_id (V (w_ext w) c))"
    and "scale_rest X S svc w = (Inr (), w')" "0 \<le> i" "i < sv_replicas svc"
  shows "has_replica (sv_name svc) i (V (w_ext w') c)"
proof -
  from assms(7) obtain u where rec: "reconcile X S svc w = (Inr (), u)" and syn: "SyncRoutes X S u = (Inr (), w')"
    by (auto simp: scale_rest_def io_inr)
  have "has_replica (sv_name svc) i (V (w_ext u) c)"
    using reconcile_result [OF assms(1-6) rec] assms(8,9) by (auto simp: settled_def has_replica_def)
  moreover have "V (w_ext w') c = V (w_ext u) c"
    using io_keepsD [OF sync_view [OF assms(1), of c "\<lambda>vs. vs = V (w_ext u) c"] _ syn] by (simp add: on_host_def)
  ultimately show ?thesis by simp
qed

lemma services_are_rest: "io_keeps (services_are P) (scale_rest X S svc)"
  unfolding scale_rest_def by (intro io_keep services_are_reconcile services_are_sync)

text \<open>
  C13: a service that is deleted while it is scaled comes back as containers without a service.  For every
  outside that behaves like Docker, and a service whose own options do not set the two labels that mark
  replicas: when \<^verbatim>\<open>Delete\<close> runs between the two halves of \<^verbatim>\<open>Scale\<close> and all three return without an
  error, then at the end no row of the service is left, but its host has a container for each replica
  that was asked for.
\<close>

theorem scaling_a_deleted_service_leaves_containers:
  assumes "docker_ok X V" "order_ok X" "db_ok (w_db w)" "labels_plain X svc"
    and "scale_first X n k w = (Inr svc, w1)" "ServiceDelete X S n w1 = (Inr (), w2)"
    and "fst (ClientFor X S (sv_endpointID svc) w2) = Inr c" "distinct (map cv_id (V (w_ext w2) c))"
    and "scale_rest X S svc w2 = (Inr (), w3)"
  shows "n \<notin> sv_name ` set (db_services (w_db w3)) \<and>
    (\<forall>i. 0 \<le> i \<and> i < k \<longrightarrow> has_replica n i (V (w_ext w3) c))"
proof -
  note svc = scale_first_Inr [OF assms(3,5)]
  have "services_are (\<lambda>ss. n \<notin> sv_name ` set ss) w2"
    using ServiceDelete_row [OF svc(4) assms(6)] by (simp add: services_are_def)
  with io_keepsD [OF services_are_rest _ assms(9)] have "services_are (\<lambda>ss. n \<notin> sv_name ` set ss) w3" .
  with scale_rest_Inr [OF assms(1,2,4) svc(3) assms(7-9)] svc(1,2) show ?thesis by (simp add: services_are_def)
qed

theorem scaling_a_deleted_service_leaves_containers_witness:
  "let f = scale_first sim_ext ''web'' 2 (sim_world sim_services_db);
       d = ServiceDelete sim_ext sim_server ''web'' (snd f);
       r = scale_rest sim_ext sim_server (projr (fst f)) (snd d)
   in fst d = Inr () \<and> fst r = Inr () \<and> ''web'' \<notin> sv_name ` set (db_services (w_db (snd r))) \<and>
     has_replica ''web'' 0 (sim_view (w_ext (snd r)) sim_local) \<and> has_replica ''web'' 1 (sim_view (w_ext (snd r)) sim_local)"
proof -
  let ?w = "sim_world sim_services_db"
  let ?f = "scale_first sim_ext ''web'' 2 ?w"
  let ?svc = "(hd (db_services sim_services_db))\<lparr>sv_replicas := 2\<rparr>"
  let ?d = "ServiceDelete sim_ext sim_server ''web'' (snd ?f)"
  let ?r = "scale_rest sim_ext sim_server ?svc (snd ?d)"
  have f: "fst ?f = Inr ?svc" and d: "fst ?d = Inr ()" and r: "fst ?r = Inr ()" by code_simp+
  have svc: "sv_endpointID ?svc = 0" "sv_advanced ?svc = ''{}''" and v: "sim_view (w_ext (snd ?d)) sim_local = []"
    by code_simp+
  have lab: "labels_plain sim_ext ?svc"
    using svc(2) by (simp add: labels_plain_def option_labels_def sim_ext_def advanced_zero_def)
  have "db_ok (w_db ?w)" using sim_services_db_ok by (simp add: sim_world_def)
  moreover from f d r have "?f = (Inr ?svc, snd ?f)" "?d = (Inr (), snd ?d)" "?r = (Inr (), snd ?r)"
    by (simp_all add: prod_eq_iff)
  ultimately have "''web'' \<notin> sv_name ` set (db_services (w_db (snd ?r))) \<and>
      (\<forall>i. 0 \<le> i \<and> i < 2 \<longrightarrow> has_replica ''web'' i (sim_view (w_ext (snd ?r)) sim_local))"
    using scaling_a_deleted_service_leaves_containers [OF sim_docker_ok sim_order_ok _ lab, where w = ?w and k = 2
        and S = sim_server and c = sim_local] svc(1) v by simp
  with d r show ?thesis by (simp only: Let_def f sum.sel) simp
qed

text \<open>
  C14: of two scalings that overlap, the table keeps the second, but the host the replicas of the first.  For
  every outside that behaves like Docker, and a service whose own options do not set the two labels that
  mark replicas: when a second \<^verbatim>\<open>Scale\<close> stores its count and reconciles between the two halves of the
  first, and all return without an error, the stored count is that of the second, while the host has (at
  least) a container for every replica of the first, also for those beyond the stored count.
\<close>

theorem overlapping_scalings_disagree:
  assumes "docker_ok X V" "order_ok X" "db_ok (w_db w)" "labels_plain X a"
    and "scale_first X n k w = (Inr a, w1)" "scale_first X n j w1 = (Inr b, w2)"
    and "scale_rest X S b w2 = (Inr (), w3)"
    and "fst (ClientFor X S (sv_endpointID a) w3) = Inr c" "distinct (map cv_id (V (w_ext w3) c))"
    and "scale_rest X S a w3 = (Inr (), w4)"
  shows "(\<forall>s \<in> set (db_services (w_db w4)). sv_name s = n \<longrightarrow> sv_replicas s = max 0 j) \<and>
    (\<forall>i. 0 \<le> i \<and> i < k \<longrightarrow> has_replica n i (V (w_ext w4) c))"
proof -
  let ?P = "\<lambda>ss. \<forall>s \<in> set ss. sv_name s = n \<longrightarrow> sv_replicas s = max 0 j"
  note a = scale_first_Inr [OF assms(3,5)]
  have "services_are ?P w2" using scale_first_Inr(5) [OF a(4) assms(6)] by (simp add: services_are_def)
  with io_keepsD [OF services_are_rest _ assms(7)] io_keepsD [OF services_are_rest _ assms(10)]
  have "services_are ?P w4" by blast
  with scale_rest_Inr [OF assms(1,2,4) a(3) assms(8-10)] a(1,2) show ?thesis by (simp add: services_are_def)
qed

theorem overlapping_scalings_disagree_witness:
  "let f = scale_first sim_ext ''web'' 3 (sim_world sim_services_db);
       g = scale_first sim_ext ''web'' 1 (snd f);
       h = scale_rest sim_ext sim_server (projr (fst g)) (snd g);
       r = scale_rest sim_ext sim_server (projr (fst f)) (snd h)
   in fst h = Inr () \<and> fst r = Inr () \<and>
     (\<forall>s \<in> set (db_services (w_db (snd r))). sv_name s = ''web'' \<longrightarrow> sv_replicas s = 1) \<and>
     has_replica ''web'' 2 (sim_view (w_ext (snd r)) sim_local)"
proof -
  let ?w = "sim_world sim_services_db"
  let ?f = "scale_first sim_ext ''web'' 3 ?w"
  let ?g = "scale_first sim_ext ''web'' 1 (snd ?f)"
  let ?svc = "\<lambda>k. (hd (db_services sim_services_db))\<lparr>sv_replicas := k\<rparr>"
  let ?h = "scale_rest sim_ext sim_server (?svc 1) (snd ?g)"
  let ?r = "scale_rest sim_ext sim_server (?svc 3) (snd ?h)"
  have f: "fst ?f = Inr (?svc 3)" and g: "fst ?g = Inr (?svc 1)" and h: "fst ?h = Inr ()" and r: "fst ?r = Inr ()"
    by code_simp+
  have svc: "sv_endpointID (?svc 3) = 0" "sv_advanced (?svc 3) = ''{}''"
    and v: "distinct (map cv_id (sim_view (w_ext (snd ?h)) sim_local))" by code_simp+
  have lab: "labels_plain sim_ext (?svc 3)"
    using svc(2) by (simp add: labels_plain_def option_labels_def sim_ext_def advanced_zero_def)
  have "db_ok (w_db ?w)" using sim_services_db_ok by (simp add: sim_world_def)
  moreover from f g h r have "?f = (Inr (?svc 3), snd ?f)" "?g = (Inr (?svc 1), snd ?g)" "?h = (Inr (), snd ?h)"
    "?r = (Inr (), snd ?r)" by (simp_all add: prod_eq_iff)
  ultimately have "(\<forall>s \<in> set (db_services (w_db (snd ?r))). sv_name s = ''web'' \<longrightarrow> sv_replicas s = max 0 1) \<and>
      (\<forall>i. 0 \<le> i \<and> i < 3 \<longrightarrow> has_replica ''web'' i (sim_view (w_ext (snd ?r)) sim_local))"
    using overlapping_scalings_disagree [OF sim_docker_ok sim_order_ok _ lab, where w = ?w and k = 3 and j = 1
        and b = "?svc 1" and S = sim_server and c = sim_local] svc(1) v by simp
  with h r show ?thesis by (simp only: Let_def f g sum.sel) simp
qed

end
