(* ===== verification/Spa.thy ===== *)
theory Spa
  imports Volumes
begin

text \<open>
  The static files of the web interface, \<^verbatim>\<open>mountSPA\<close> in \<^verbatim>\<open>internal/api/server.go\<close>:
  which file a path outside \<^verbatim>\<open>/api\<close> is answered with, and how long it may be cached.  The
  standard library's part is \<^verbatim>\<open>filepath.Clean\<close> and \<^verbatim>\<open>Join\<close>, and what
  \<^verbatim>\<open>http.FileServer\<close> and \<^verbatim>\<open>http.ServeFile\<close> do before they read a file: both redirect
  a path that ends in \<^verbatim>\<open>/index.html\<close>, the first redirects a file's path that ends in a slash, the
  second refuses a path with a parent component.  The reading of the file is not modelled.
\<close>

section \<open>Paths\<close>

definition rooted :: "string \<Rightarrow> bool" where
  "rooted s \<longleftrightarrow> hasPrefix s ''/''"

text \<open>In a relative path the parent components at the front stay.\<close>

fun clean_relative :: "string list \<Rightarrow> string list \<Rightarrow> string list" where
  "clean_relative acc [] = rev acc"
| "clean_relative acc (p # ps) =
     (if p = '''' \<or> p = ''.'' then clean_relative acc ps
      else if p = ''..'' \<and> acc \<noteq> [] \<and> hd acc \<noteq> ''..'' then clean_relative (tl acc) ps
      else clean_relative (p # acc) ps)"

definition clean_list :: "string \<Rightarrow> string list" where
  "clean_list s =
     (if rooted s then clean_parts [] (splitChar CHR ''/'' s) else clean_relative [] (splitChar CHR ''/'' s))"

definition render_path :: "bool \<Rightarrow> string list \<Rightarrow> string" where
  "render_path r ps =
     (if r then CHR ''/'' # joinWith ''/'' ps else if ps = [] then ''.'' else joinWith ''/'' ps)"

definition filepath_Clean :: "string \<Rightarrow> string" where
  "filepath_Clean s = (if s = '''' then ''.'' else render_path (rooted s) (clean_list s))"

text \<open>\<^verbatim>\<open>filepath.Join\<close> of two elements that are not empty.\<close>

definition filepath_Join :: "string \<Rightarrow> string \<Rightarrow> string" where
  "filepath_Join a b = filepath_Clean (a @ ''/'' @ b)"

section \<open>Answers\<close>

datatype web_answer = FileContent string | RedirectTo string | BadPath

record web_reply =
  wr_cacheControl :: string
  wr_answer :: web_answer

text \<open>\<^verbatim>\<open>http.FileServer\<close> on a path that names a regular file below the directory.\<close>

definition fileServer :: "string \<Rightarrow> string \<Rightarrow> web_answer" where
  "fileServer dir url =
     (if hasSuffix url ''/index.html'' then RedirectTo ''./''
      else if hasSuffix url ''/'' then RedirectTo (''../'' @ path_base url)
      else FileContent (filepath_Join dir (filepath_Clean url)))"

definition dotDot :: "string \<Rightarrow> bool" where
  "dotDot url \<longleftrightarrow> ''..'' \<in> set (concat (map (splitChar (CHR 0x5C)) (splitChar CHR ''/'' url)))"

definition serveFile :: "string \<Rightarrow> string \<Rightarrow> web_answer" where
  "serveFile url name =
     (if dotDot url then BadPath
      else if hasSuffix url ''/index.html'' then RedirectTo ''./''
      else FileContent name)"

definition mountSPA :: "'e ext \<Rightarrow> server \<Rightarrow> string \<Rightarrow> ('e, web_reply) op" where
  "mountSPA X S url =
     (let index = filepath_Join (srv_webDir S) ''index.html'';
          path = filepath_Join (srv_webDir S) (filepath_Clean url)
      in io_bind (io_try (ext (x_stat X path))) (\<lambda>r. io_ret (case r of
          Inr False \<Rightarrow>
            \<lparr>wr_cacheControl = (if hasPrefix url ''/assets/'' then ''public, max-age=31536000, immutable'' else ''no-cache''),
             wr_answer = fileServer (srv_webDir S) url\<rparr>
        | _ \<Rightarrow> \<lparr>wr_cacheControl = ''no-cache'', wr_answer = serveFile url index\<rparr>)))"

section \<open>Paths stay below the directory\<close>

lemma splitChar_append: "splitChar b (s @ b # t) = splitChar b s @ splitChar b t"
proof (induction s)
  case (Cons c s)
  then show ?case by (cases "splitChar b s") (auto split: list.splits)
qed simp

lemma clean_parts_append: "clean_parts acc (xs @ ys) = clean_parts (rev (clean_parts acc xs)) ys"
  by (induction acc xs rule: clean_parts.induct) simp_all

lemma clean_relative_append: "clean_relative acc (xs @ ys) = clean_relative (rev (clean_relative acc xs)) ys"
  by (induction acc xs rule: clean_relative.induct) simp_all

lemma clean_relative_id: "(\<And>p. p \<in> set ps \<Longrightarrow> plain_part p) \<Longrightarrow> clean_relative acc ps = rev acc @ ps"
  by (induction ps arbitrary: acc) (auto simp: plain_part_def)

definition url_parts :: "string \<Rightarrow> string list" where
  "url_parts url = clean_parts [] (splitChar CHR ''/'' url)"

lemma url_parts_plain: "p \<in> set (url_parts url) \<Longrightarrow> plain_part p"
  unfolding url_parts_def by (erule clean_parts_plain [rotated 2]) (auto dest: splitChar_parts)

lemma clean_url: "rooted url \<Longrightarrow> filepath_Clean url = CHR ''/'' # joinWith ''/'' (url_parts url)"
  by (cases "url = []") (simp_all add: filepath_Clean_def clean_list_def render_path_def url_parts_def rooted_def hasPrefix_def)

lemma join_below:
  assumes "dir \<noteq> []" "\<And>p. p \<in> set ps \<Longrightarrow> plain_part p"
  shows "filepath_Clean (dir @ ''/'' @ CHR ''/'' # joinWith ''/'' ps) = render_path (rooted dir) (clean_list dir @ ps)"
proof -
  let ?s = "dir @ ''/'' @ CHR ''/'' # joinWith ''/'' ps"
  have "splitChar CHR ''/'' ?s = splitChar CHR ''/'' dir @ [] # splitChar CHR ''/'' (joinWith ''/'' ps)"
    using splitChar_append [of "CHR ''/''" dir "CHR ''/'' # joinWith ''/'' ps"] by simp
  moreover have "splitChar CHR ''/'' (joinWith ''/'' ps) = (if ps = [] then [[]] else ps)"
    using assms(2) by (auto simp: plain_part_def intro!: splitChar_joinWith)
  moreover have "rooted ?s = rooted dir" using assms(1) by (cases dir) (simp_all add: rooted_def hasPrefix_def)
  ultimately have "clean_list ?s = clean_list dir @ ps"
    using assms(2)
    by (auto simp: clean_list_def clean_parts_append clean_relative_append clean_parts_id clean_relative_id)
  with \<open>rooted ?s = rooted dir\<close> show ?thesis by (simp add: filepath_Clean_def)
qed

lemma web_path:
  assumes "dir \<noteq> []" "rooted url"
  shows "filepath_Join dir (filepath_Clean url) = render_path (rooted dir) (clean_list dir @ url_parts url)"
  using join_below [OF assms(1), of "url_parts url"] url_parts_plain
  by (simp add: filepath_Join_def clean_url [OF assms(2)])

section \<open>Properties\<close>

text \<open>
  C23: the web server never leaves its directory.  Whatever path is asked for, a file that is served is
  the application's \<^verbatim>\<open>index.html\<close>, or a regular file whose path is the path of the directory
  followed by components none of which is empty, contains a slash or is one of the two dot names.
\<close>

theorem web_files_are_below_the_directory:
  assumes "srv_webDir S \<noteq> ''''" "rooted url" "mountSPA X S url w = (Inr rep, w')" "wr_answer rep = FileContent file"
  shows "file = filepath_Join (srv_webDir S) ''index.html'' \<or>
    (\<exists>ps. file = render_path (rooted (srv_webDir S)) (clean_list (srv_webDir S) @ ps) \<and> list_all plain_part ps \<and>
       (\<exists>e. x_stat X file (w_ext w) = (Inr False, e)))"
proof -
  let ?p = "filepath_Join (srv_webDir S) (filepath_Clean url)"
  obtain r e where st: "x_stat X ?p (w_ext w) = (r, e)" by (cases "x_stat X ?p (w_ext w)")
  show ?thesis
  proof (cases "r = Inr False")
    case True
    with assms(3,4) st have "file = ?p"
      by (auto simp: mountSPA_def Let_def io_bind_def io_try_def ext_def io_ret_def fileServer_def split: if_splits)
    moreover have "?p = render_path (rooted (srv_webDir S)) (clean_list (srv_webDir S) @ url_parts url)"
      by (rule web_path [OF assms(1,2)])
    ultimately show ?thesis using st True url_parts_plain [of _ url] by (auto simp: list_all_iff)
  next
    case False
    with assms(3,4) st have "file = filepath_Join (srv_webDir S) ''index.html''"
      by (auto simp: mountSPA_def Let_def io_bind_def io_try_def ext_def io_ret_def serveFile_def
          split: if_splits sum.splits bool.splits)
    then show ?thesis ..
  qed
qed

definition web_ext :: "sim ext" where
  "web_ext = sim_ext\<lparr>x_stat := (\<lambda>p. if p = ''web/app.js'' \<or> p = ''web/assets/a.js'' then io_ret False else io_raise (Ext ''no such file''))\<rparr>"

definition web_server :: server where
  "web_server = sim_server\<lparr>srv_webDir := ''web''\<rparr>"

theorem web_files_are_below_the_directory_witness:
  "\<exists>ps. ''web/app.js'' = render_path False (clean_list ''web'' @ ps) \<and> list_all plain_part ps"
proof -
  have "fst (mountSPA web_ext web_server ''/x/../app.js'' (sim_world db_empty)) =
      Inr \<lparr>wr_cacheControl = ''no-cache'', wr_answer = FileContent ''web/app.js''\<rparr>" by code_simp
  then obtain w' where m: "mountSPA web_ext web_server ''/x/../app.js'' (sim_world db_empty) =
      (Inr \<lparr>wr_cacheControl = ''no-cache'', wr_answer = FileContent ''web/app.js''\<rparr>, w')"
    by (metis prod.collapse)
  have "filepath_Join ''web'' ''index.html'' = ''web/index.html''" "rooted ''/x/../app.js''" "\<not> rooted ''web''"
    by code_simp+
  with web_files_are_below_the_directory [OF _ _ m, of "''web/app.js''"] show ?thesis
    by (auto simp: web_server_def)
qed

text \<open>
  What may be cached for ever is an asset, unless the path was not clean.  A reply with the
  \<^verbatim>\<open>immutable\<close> header to a path without dot components is about a file below
  \<^verbatim>\<open>assets\<close>.  The header is chosen by the text of the path and the file by the cleaned path, so
  with a parent component a file outside \<^verbatim>\<open>assets\<close> is sent as immutable.
\<close>

lemma immutable_files_are_assets:
  "(srv_webDir S \<noteq> '''' \<and> mountSPA X S url w = (Inr rep, w') \<and> wr_cacheControl rep \<noteq> ''no-cache'' \<and>
      (\<forall>p \<in> set (splitChar CHR ''/'' url). p \<noteq> ''.'' \<and> p \<noteq> ''..'') \<longrightarrow>
    (\<exists>ps. url_parts url = ''assets'' # ps)) \<and>
   fst (mountSPA web_ext web_server ''/assets/../app.js'' (sim_world db_empty)) =
     Inr \<lparr>wr_cacheControl = ''public, max-age=31536000, immutable'', wr_answer = FileContent ''web/app.js''\<rparr>"
proof
  show "fst (mountSPA web_ext web_server ''/assets/../app.js'' (sim_world db_empty)) =
     Inr \<lparr>wr_cacheControl = ''public, max-age=31536000, immutable'', wr_answer = FileContent ''web/app.js''\<rparr>" by code_simp
  have clean: "clean_parts acc ps = rev acc @ filter (\<lambda>p. p \<noteq> []) ps" if "\<forall>p \<in> set ps. p \<noteq> ''.'' \<and> p \<noteq> ''..''" for acc ps
    using that by (induction ps arbitrary: acc) auto
  show "srv_webDir S \<noteq> '''' \<and> mountSPA X S url w = (Inr rep, w') \<and> wr_cacheControl rep \<noteq> ''no-cache'' \<and>
      (\<forall>p \<in> set (splitChar CHR ''/'' url). p \<noteq> ''.'' \<and> p \<noteq> ''..'') \<longrightarrow>
    (\<exists>ps. url_parts url = ''assets'' # ps)"
  proof (intro impI, elim conjE)
    assume m: "mountSPA X S url w = (Inr rep, w')" "wr_cacheControl rep \<noteq> ''no-cache''"
      and nd: "\<forall>p \<in> set (splitChar CHR ''/'' url). p \<noteq> ''.'' \<and> p \<noteq> ''..''"
    from m have "hasPrefix url ''/assets/''"
      by (auto simp: mountSPA_def Let_def io_bind_def io_try_def ext_def io_ret_def
          split: if_splits sum.splits bool.splits prod.splits)
    then obtain t where "url = CHR ''/'' # ''assets'' @ CHR ''/'' # t" by (auto simp: hasPrefix_iff)
    then have "splitChar CHR ''/'' url = [] # ''assets'' # splitChar CHR ''/'' t"
      using splitChar_append [of "CHR ''/''" "''assets''" t] by simp
    with clean [OF nd, of "[]"] show "\<exists>ps. url_parts url = ''assets'' # ps" by (simp add: url_parts_def)
  qed
qed

end
