(* ===== verification/Pipes.thy ===== *)
theory Pipes
  imports Streams Tunnel
begin

text \<open>
  What the goroutines of a running tunnel do, \<^verbatim>\<open>serve\<close> and \<^verbatim>\<open>pipe\<close> in
  \<^verbatim>\<open>internal/tunnel/tunnel.go\<close>: every connection accepted at the far end is copied to and from the
  local Envoy until one of the two sides ends.  Each accepted connection has its own events; it runs in a
  goroutine of its own and shares no state with the others, so one after the other is one of their orders.
  A stop of the tunnel closes its connection (theory Tunnel) and is seen here as a failed \<^verbatim>\<open>Accept\<close>.
\<close>

section \<open>Connections\<close>

text \<open>The functions of \<^verbatim>\<open>net\<close> on connections, which are named by handles.\<close>

record 'e net_lib =
  nl_dial :: "string \<Rightarrow> ('e, int) call"
  nl_write :: "int \<Rightarrow> string \<Rightarrow> ('e, unit) call"
  nl_close :: "int \<Rightarrow> ('e, unit) call"

datatype pipe_event = RemoteSends string | LocalSends string | RemoteEnds | LocalEnds

text \<open>The handler's deferred calls, the last one first.\<close>

definition close_both :: "'e net_lib \<Rightarrow> int \<Rightarrow> int \<Rightarrow> ('e, unit) web" where
  "close_both N remote loc = io_seq (quiet (ext (nl_close N loc))) (quiet (ext (nl_close N remote)))"

text \<open>Two copying loops; the first that returns, at its end or for a failed write, ends both.\<close>

fun copy_both :: "'e net_lib \<Rightarrow> int \<Rightarrow> int \<Rightarrow> pipe_event list \<Rightarrow> ('e, unit) web" where
  "copy_both N remote loc [] = io_ret ()"
| "copy_both N remote loc (RemoteSends d # es) =
     io_bind (io_try (ext (nl_write N loc d))) (\<lambda>r. case r of
         Inl _ \<Rightarrow> close_both N remote loc | Inr _ \<Rightarrow> copy_both N remote loc es)"
| "copy_both N remote loc (LocalSends d # es) =
     io_bind (io_try (ext (nl_write N remote d))) (\<lambda>r. case r of
         Inl _ \<Rightarrow> close_both N remote loc | Inr _ \<Rightarrow> copy_both N remote loc es)"
| "copy_both N remote loc (RemoteEnds # es) = close_both N remote loc"
| "copy_both N remote loc (LocalEnds # es) = close_both N remote loc"

definition pipe :: "'e net_lib \<Rightarrow> int \<Rightarrow> string \<Rightarrow> pipe_event list \<Rightarrow> ('e, unit) web" where
  "pipe N remote localAddr es =
     io_bind (io_try (ext (nl_dial N localAddr))) (\<lambda>r. case r of
         Inl _ \<Rightarrow> quiet (ext (nl_close N remote))
       | Inr loc \<Rightarrow> copy_both N remote loc es)"

text \<open>
  The accept loop: a connection with what happens on it, or the error that ends the loop.
\<close>

datatype accepted = Accepted int "pipe_event list" | AcceptFails

fun serve_tunnel :: "'e net_lib \<Rightarrow> string \<Rightarrow> accepted list \<Rightarrow> ('e, unit) web" where
  "serve_tunnel N localAddr [] = io_ret ()"
| "serve_tunnel N localAddr (Accepted remote es # as) =
     io_seq (pipe N remote localAddr es) (serve_tunnel N localAddr as)"
| "serve_tunnel N localAddr (AcceptFails # as) = io_ret ()"

definition local_addr :: "tunnel \<Rightarrow> string" where
  "local_addr t = ''127.0.0.1:'' @ goItoa (tn_localPort t)"

section \<open>What is copied\<close>

datatype net_op = NetWrite int string | NetClose int

definition net_logged :: "'e net_lib \<Rightarrow> ('e \<Rightarrow> net_op list) \<Rightarrow> bool" where
  "net_logged N rec \<longleftrightarrow> (\<forall>h e. rec (snd (nl_close N h e)) = rec e @ [NetClose h]) \<and>
     (\<forall>h d e. rec (snd (nl_write N h d e)) = rec e @ [NetWrite h d])"

definition net_works :: "'e net_lib \<Rightarrow> bool" where
  "net_works N \<longleftrightarrow> (\<forall>h d e. fst (nl_write N h d e) = Inr ())"

text \<open>The writes a pipe has to make: what either side sends before one of them ends.\<close>

fun pipe_writes :: "int \<Rightarrow> int \<Rightarrow> pipe_event list \<Rightarrow> net_op list" where
  "pipe_writes remote loc (RemoteSends d # es) = NetWrite loc d # pipe_writes remote loc es"
| "pipe_writes remote loc (LocalSends d # es) = NetWrite remote d # pipe_writes remote loc es"
| "pipe_writes remote loc _ = []"

lemma w_ext_ext: "w_ext (snd (ext f w)) = snd (f (w_ext w))" and fst_ext: "fst (ext f w) = fst (f (w_ext w))"
  by (simp_all add: ext_def split: prod.split)

lemma net_rec:
  assumes "net_logged N rec"
  shows "rec (w_ext (snd (ext (nl_close N h) w))) = rec (w_ext w) @ [NetClose h]"
    and "rec (w_ext (snd (ext (nl_write N h d) w))) = rec (w_ext w) @ [NetWrite h d]"
  using assms by (simp_all add: net_logged_def w_ext_ext)

lemma close_both_rec:
  "net_logged N rec \<Longrightarrow> rec (w_ext (snd (close_both N remote loc w))) = rec (w_ext w) @ [NetClose loc, NetClose remote]"
  by (simp add: close_both_def run_simps net_rec)

text \<open>
  A pipe copies in both directions, in order and without gaps, until one side ends or a write fails, and
  then closes both connections.
\<close>

lemma pipe_copies:
  assumes rec: "net_logged N rec" and "RemoteEnds \<in> set es \<or> LocalEnds \<in> set es"
  shows "\<exists>k. rec (w_ext (snd (copy_both N remote loc es w))) =
      rec (w_ext w) @ take k (pipe_writes remote loc es) @ [NetClose loc, NetClose remote] \<and>
    (net_works N \<longrightarrow> length (pipe_writes remote loc es) \<le> k)"
  using assms(2)
proof (induction es arbitrary: w)
  case (Cons e es)
  have copied: "\<exists>k. rec (w_ext (snd (io_bind (io_try (ext (nl_write N h d))) (\<lambda>r. case r of
         Inl _ \<Rightarrow> close_both N remote loc | Inr _ \<Rightarrow> copy_both N remote loc es) w))) =
      rec (w_ext w) @ take k (NetWrite h d # pipe_writes remote loc es) @ [NetClose loc, NetClose remote] \<and>
    (net_works N \<longrightarrow> Suc (length (pipe_writes remote loc es)) \<le> k)"
    if "RemoteEnds \<in> set es \<or> LocalEnds \<in> set es" for h d
  proof (cases "fst (ext (nl_write N h d) w)")
    case (Inl err)
    then have "\<not> net_works N" by (metis fst_ext net_works_def sum.distinct(1))
    with Inl show ?thesis
      by (intro exI [of _ 1]) (simp add: io_bind_try close_both_rec [OF rec] net_rec [OF rec])
  next
    case (Inr u)
    from Cons.IH [OF that, of "snd (ext (nl_write N h d) w)"] obtain k where
      "rec (w_ext (snd (copy_both N remote loc es (snd (ext (nl_write N h d) w))))) =
        rec (w_ext (snd (ext (nl_write N h d) w))) @ take k (pipe_writes remote loc es) @ [NetClose loc, NetClose remote]"
      "net_works N \<longrightarrow> length (pipe_writes remote loc es) \<le> k" by blast
    with Inr show ?thesis by (intro exI [of _ "Suc k"]) (simp add: io_bind_try net_rec [OF rec])
  qed
  show ?case
  proof (cases e)
    case (RemoteSends d)
    with Cons.prems copied [of loc d] show ?thesis by simp
  next
    case (LocalSends d)
    with Cons.prems copied [of remote d] show ?thesis by simp
  qed (simp_all add: close_both_rec [OF rec])
qed simp

section \<open>Broken tunnels\<close>

lemma running_blind: "ext_blind (\<lambda>w. w_running w = R)"
  by (simp add: ext_blind_def)

lemma serve_tunnel_running: "w_running (snd (serve_tunnel N a as w)) = w_running w"
proof -
  note io = io_keep ext_blind_ext [OF running_blind]
  have both: "io_keeps (\<lambda>w. w_running w = R) (close_both N remote loc)" for N and remote loc R
    unfolding close_both_def by (intro io)
  have copy: "io_keeps (\<lambda>w. w_running w = R) (copy_both N remote loc es)" for N and remote loc es R
    by (induction N remote loc es rule: copy_both.induct) (auto intro!: io both)
  have "io_keeps (\<lambda>w. w_running w = R) (serve_tunnel N a as)" for R
    by (induction N a as rule: serve_tunnel.induct) (auto simp: pipe_def intro!: io copy)
  then show ?thesis by (simp add: io_keeps_def)
qed

text \<open>
  C33: a tunnel whose connection breaks stays marked as running.  However the accept loop of a tunnel
  that was started goes and ends, the tunnel is still in the table afterwards: it is shown as running, and
  another start of it is refused until it is stopped, although nothing serves it any more.
\<close>

theorem broken_tunnels_stay_running:
  assumes "TunnelStart X S t w = (Inr (), w1)" and "w2 = snd (serve_tunnel N (local_addr t) as w1)"
  shows "fst (IsRunning (tn_id t) w2) = Inr True \<and>
    fst (TunnelStart X S t w2) = Inl (Err (''tunnel '' @ goItoa (tn_id t) @ '' already running'')) \<and>
    fst (IsRunning (tn_id t) (snd (TunnelStop X (tn_id t) w2))) = Inr False"
proof -
  have kind: "tn_kind t = TunnelSSH"
    using assms(1) by (simp add: TunnelStart_def io_raise_def split: if_splits)
  have "w_running w1 (tn_id t) \<noteq> None"
    using assms(1) kind by (auto simp: TunnelStart_def io_inr split: if_splits)
  then have "w_running w2 (tn_id t) \<noteq> None" by (simp add: assms(2) serve_tunnel_running)
  then show ?thesis
    by (auto simp: IsRunning_def TunnelStart_def TunnelStop_def kind io_defs quiet_def split: prod.split sum.split)
qed

definition sim_net :: "sim net_lib" where
  "sim_net = \<lparr>nl_dial = (\<lambda>a. io_ret 9), nl_write = (\<lambda>h d. io_ret ()), nl_close = (\<lambda>h. io_ret ())\<rparr>"

theorem broken_tunnels_stay_running_witness:
  "\<exists>w1. fst (TunnelStart sim_ext (sim_server\<lparr>srv_sshKeyPath := ''key''\<rparr>) sim_tunnel
      (snd (serve_tunnel sim_net (local_addr sim_tunnel) [Accepted 5 [RemoteSends ''GET'', LocalEnds], AcceptFails] w1))) =
    Inl (Err (''tunnel '' @ goItoa 1 @ '' already running''))"
proof -
  let ?m = "TunnelStart sim_ext (sim_server\<lparr>srv_sshKeyPath := ''key''\<rparr>) sim_tunnel (sim_world db_empty)"
  have "fst ?m = Inr ()" by code_simp
  then obtain w1 where m: "?m = (Inr (), w1)" by (cases ?m) simp
  have "tn_id sim_tunnel = 1" by (simp add: sim_tunnel_def)
  with broken_tunnels_stay_running [OF m refl, of sim_net "[Accepted 5 [RemoteSends ''GET'', LocalEnds], AcceptFails]"]
  show ?thesis by auto
qed

end
