(* ===== verification/Spec2Isabelle.thy ===== *)
theory Spec2Isabelle
  imports Quotas Reserve Confine Published Lifecycle ClientRace ScaleRace Spa Pipes
begin

text \<open>
  EasyDeploy is a management server for Docker hosts.  Users log in to a REST API; the server
  keeps accounts, quotas, environments (remote Docker daemons), registries, routes and services
  in PostgreSQL, talks to the daemons, and programs an Envoy proxy on every host so that
  containers are reachable under their own host names.  This development models the server, the
  Go program under \<^verbatim>\<open>src/server\<close>, and proves what makes its parts correct and what they
  guarantee together.

  \<^bold>\<open>How the program works.\<close>  A request passes the middleware of its route (session, environment
  grant, administrator, owner of the resource) and then its handler
  (\<^verbatim>\<open>internal/api\<close>).  A handler calls the managers: \<^verbatim>\<open>service\<close> (replica sets:
  reconcile, scale, rolling update, autoscale), \<^verbatim>\<open>endpoint\<close> (environments and a cache of
  Docker clients), \<^verbatim>\<open>registry\<close> (image registries), \<^verbatim>\<open>proxy\<close> (the route registry),
  \<^verbatim>\<open>tunnel\<close> (SSH reverse tunnels) and \<^verbatim>\<open>docker\<close> (containers, volumes, networks,
  the edge proxy).  They store rows through \<^verbatim>\<open>store\<close>, secrets through \<^verbatim>\<open>secret\<close>,
  and the route registry hands a snapshot per environment to \<^verbatim>\<open>xds\<close>, the control plane
  that the Envoy proxies subscribe to.

  \<^bold>\<open>How it is modelled.\<close>  Every operation of the server is a state-passing computation
  \<^verbatim>\<open>'a io\<close> on a \<^verbatim>\<open>world\<close> (theory World): the database \<^verbatim>\<open>db\<close>, the snapshot
  cache of the control plane, the cache of Docker clients with their helper containers, the
  table of running tunnels, and a state \<^verbatim>\<open>'e\<close> of everything outside.  It returns a sum:
  an error of the source (\<^verbatim>\<open>err\<close>) or a value; an early return, an ignored error and a
  deferred call are written as in the source.  What is not in the repository (the Docker SDK,
  the PostgreSQL driver's faults, bcrypt, JWT, AES-GCM, go-control-plane, SSH, the clock, the
  iteration order of Go maps) are the functions of the record \<^verbatim>\<open>ext\<close>, which may read and
  change \<^verbatim>\<open>'e\<close> and may fail at any call; the documented behaviour a theorem relies on is a
  named predicate (\<^verbatim>\<open>docker_ok\<close>, \<^verbatim>\<open>envoy_lib_ok\<close>, \<^verbatim>\<open>box_ok\<close>,
  \<^verbatim>\<open>jwt_ok\<close>, \<^verbatim>\<open>faultless\<close>, ...) and is shown to be satisfiable on the concrete
  outside of theory Sample, at which the witnesses are evaluated.  A SQL statement is a function
  on the tables with the constraints of the schema; the driver may report an error before the
  statement ran, after it ran, or none.  Go's \<^verbatim>\<open>int\<close> and \<^verbatim>\<open>int64\<close> are
  integers with the wrap-around of arithmetic written out (\<^verbatim>\<open>i64\<close> in Prelude, the value
  of a signed 64-bit word); an \<^verbatim>\<open>INTEGER\<close> column accepts 32 bits (\<^verbatim>\<open>in_i32\<close>).

  \<^bold>\<open>The theories, in the order of import.\<close>

  \<^descr> Prelude: errors, sums, the \<^verbatim>\<open>io\<close> computations with their laws and their
    invariants (\<^verbatim>\<open>io_keeps\<close>, \<^verbatim>\<open>io_post\<close>), the wrap-around of integers, lemmas on
    lists and maps.  GoLib: what the code uses of \<^verbatim>\<open>strings\<close>, \<^verbatim>\<open>strconv\<close>,
    \<^verbatim>\<open>path\<close> and \<^verbatim>\<open>net\<close>.
  \<^descr> StoreTypes, KeyValue, Store, StoreUsers, StoreEndpoints, StoreServices: the schema and
    every statement of \<^verbatim>\<open>internal/store\<close>; \<^verbatim>\<open>db_ok\<close> is the integrity the schema
    promises (keys, references, column ranges) and each statement keeps it.  The table of
    routes refines a map from subdomains to targets; \<^verbatim>\<open>itoa\<close> is right up to 9999 and
    panics beyond.
  \<^descr> Xds: \<^verbatim>\<open>internal/xds\<close>: clusters, virtual hosts, the removal of duplicate domains,
    snapshots, versions, node ids, the bootstrap of an edge proxy.  How Envoy searches the virtual hosts is
    a parameter with its documented order as hypothesis (\<^verbatim>\<open>envoy_search\<close>); \<^verbatim>\<open>search_host\<close> is one
    search with that order.
  \<^descr> DockerSpec, World, Float64, DockerClient: \<^verbatim>\<open>internal/docker\<close>: the container
    configuration a deployment sends, the world, the rounding of rationals to binary64, and the
    operations on containers, networks, images, usage, streams, shells, builds, and the edge proxy.  Secret: \<^verbatim>\<open>internal/secret\<close> with the base64 coding.
    Sample: a concrete outside.
  \<^descr> Endpoint, Registry, Proxy: \<^verbatim>\<open>internal/endpoint\<close> with
    \<^verbatim>\<open>docker/remote.go\<close>, \<^verbatim>\<open>internal/registry\<close>, \<^verbatim>\<open>internal/proxy\<close>.
    A cached client matches its stored row; passwords survive the storage; every node gets a
    snapshot of exactly its upstreams.
  \<^descr> Service, Replicas, Scaling: \<^verbatim>\<open>internal/service\<close>.  Service has the operations;
    Replicas proves what reconciling and scaling achieve for every outside that behaves like
    Docker, and what they leave alone; Scaling has limits, labels, ports, upstreams and the
    choices of the autoscaler, down to the rounding of its floating-point mean.
  \<^descr> Volumes: \<^verbatim>\<open>docker/volumes.go\<close>: confinement of user paths, helper containers, the
    listing of a directory read back.
  \<^descr> Http, Auth, Tunnel: the middleware and the ownership guards of
    \<^verbatim>\<open>api/server.go\<close> and \<^verbatim>\<open>api/handlers_users.go\<close>, \<^verbatim>\<open>internal/auth\<close>,
    \<^verbatim>\<open>internal/tunnel\<close>.  The manager of tunnels releases its lock while it dials, so
    its calls are also given as a step relation \<^verbatim>\<open>tstep\<close> whose steps interleave, and a call that
    runs alone is a run of these steps.
  \<^descr> Streams, Pipes: the WebSocket handlers of \<^verbatim>\<open>handlers.go\<close> (logs, statistics, shells)
    and the goroutines of a running tunnel.  The outside gives the events on a stream (a piece, a message
    of the browser, its end, the end of the request) or on a connection in their order; the goroutines of
    \<^verbatim>\<open>closeOnDisconnect\<close> close a stream at such an event or when the handler returns; what is sent on is compared with them through any record of the
    calls on connections.
  \<^descr> ClientRace, ScaleRace: operations that overlap.  ClientRace splits the operations of
    \<^verbatim>\<open>endpoint.Manager\<close> into their atomic steps (\<^verbatim>\<open>cstep\<close>), shows that the sequential
    definitions are runs of these steps, and that the cache of clients is coherent exactly without
    overlaps; ScaleRace lets a \<^verbatim>\<open>Delete\<close> or a second
    \<^verbatim>\<open>Scale\<close> run between the two halves of \<^verbatim>\<open>Scale\<close>.
  \<^descr> ApiUsers, ApiServices, ApiManage, ApiViews, Api: the handlers
    (\<^verbatim>\<open>handlers_users.go\<close>, \<^verbatim>\<open>handlers_services.go\<close>,
    \<^verbatim>\<open>handlers_manage.go\<close>, \<^verbatim>\<open>handlers.go\<close>,
    \<^verbatim>\<open>handlers_endpoints.go\<close>) and the routing table: one constructor of
    \<^verbatim>\<open>api_call\<close> per route, \<^verbatim>\<open>access_of\<close> for its middleware, \<^verbatim>\<open>handle\<close>
    for its handler and \<^verbatim>\<open>serve\<close> for the whole request.
  \<^descr> Integrity: what requests keep, as contracts (below).  Access, Confine, Accounts, Quotas, Reserve:
    properties of whole requests: admission, what a member's request cannot change, the administrators, the quotas.
  \<^descr> Config, Startup, Lifecycle: \<^verbatim>\<open>internal/config\<close>, \<^verbatim>\<open>cmd/easydeploy/main.go\<close> and the
    loop of the autoscaler.  \<^verbatim>\<open>run\<close> is the function of that name up to where the server listens,
    \<^verbatim>\<open>main_run\<close> (Lifecycle) the whole of it with what the process holds, its deferred calls and the
    shutdown.  Published: the published configuration compared with what the tables ask for
    (\<^verbatim>\<open>wanted\<close>, \<^verbatim>\<open>current\<close>), from a start through any requests.
  \<^descr> Spa: \<^verbatim>\<open>mountSPA\<close>, the static files of the web interface.

  \<^bold>\<open>The interfaces.\<close>  \<^verbatim>\<open>kv_writes\<close> and \<^verbatim>\<open>kv_store\<close> (KeyValue) are the contract
  of a keyed table, interpreted on routes, grants and volume budgets.  \<^verbatim>\<open>secret_box\<close>
  (Secret) is what the users of encryption need.  \<^verbatim>\<open>snapshotter\<close> (Proxy) is what the
  route registry needs of the control plane, \<^verbatim>\<open>service_source\<close> (Scaling) what it needs
  of the service manager.  \<^verbatim>\<open>owner_guard\<close> (Http) is the contract of the four ownership
  checks, \<^verbatim>\<open>users_store\<close> (Auth) what sessions need of the accounts.
  Three contracts of Integrity say what keeps a property of the whole server: \<^verbatim>\<open>server_frame\<close>
  asks that the statements keep it that change nothing of anybody, \<^verbatim>\<open>server_calm\<close> also those that
  change nothing of what is published, \<^verbatim>\<open>server_inv\<close> all of them.  Inside each, the operations and handlers
  that need no more are shown to keep the property, and each is a \<^verbatim>\<open>sublocale\<close> of the one before.
  \<^verbatim>\<open>server_inv\<close> is interpreted on the
  integrity of the database and on the coherence of the client cache, \<^verbatim>\<open>server_calm\<close> on the
  published configuration and the names of its nodes (Published), \<^verbatim>\<open>server_frame\<close> on what is not a
  member's (Confine).

  \<^bold>\<open>What is shown.\<close>  For the server as a whole: a request runs only with the right its route
  asks for and a refused one changes nothing; the database and the client cache stay consistent
  through any sequence of requests and autoscaler passes; what is published is what the tables ask for,
  except after edits of environments, which are never published; members list only their own things and
  change no account, environment, grant, or service or registry of another, but can take over names of routes and
  of volume budgets; the process gives back what it holds;
  administrators cannot lock themselves out; a review is one update of the map of quotas;
  services and volumes stay within the quotas that are checked; that the storage check wraps around,
  and that replicas an autoscaler may add later are not counted.  For services: reconciling and scaling provide every replica and touch no other
  container, replicas run with exactly their limits, published services are routed on their
  node, the autoscaler changes counts only, within their bounds.  For routing: domains and names of a configuration are
  distinct, the first claimant of a host gets it with and without a port, every node gets its snapshot and a new
  version.  For connections: a stream is copied in order and both its ends are closed,
  a shell session relays what is typed and printed, a broken tunnel stays marked as running.  For
  overlapping operations: which overlaps leave a stale client, a lost tunnel, containers without a
  service, or a stored count that the containers do not have.  For the rest: round trips of registry passwords and directory listings, the confinement of
  paths in volumes and of the files that are served.

  \<^bold>\<open>Bounds and fuel.\<close>  No definition uses fuel: every loop of the code is a structural
  recursion over the list it ranges over, or, where it counts, a function with an argument that
  decreases (\<^verbatim>\<open>itoa\<close> runs over the four bytes of its array).  The store refuses values outside a
  column's range, which bounds every product of the quota checks for services.  A
  \<^verbatim>\<open>float64\<close> is a rational that is rounded after every operation (\<^verbatim>\<open>fl\<close>, to nearest, ties to
  even); subnormals, infinities and NaN are left out, since the counters are 64-bit integers and no
  divisor is zero.

  \<^bold>\<open>Written by hand.\<close>  What the shell script of a volume listing prints (\<^verbatim>\<open>listing\<close>) and the
  separation of Docker's multiplexed streams into pieces are descriptions of the outside, not translations;
  \<^verbatim>\<open>service_hosts\<close> is the code that \<^verbatim>\<open>publish\<close> and \<^verbatim>\<open>ServiceDomains\<close> both contain.

  \<^bold>\<open>Not modelled.\<close>  The gRPC registration of the control plane and the delivery of signals are wiring
  of the runtime; the recovery of panics is middleware of the router library, and of its timeout the
  end of a stream is modelled, as an event.  The reading of a
  static file is the library's.  Operations run one after the other: an operation under a mutex is
  one step, and a goroutine started in the background runs as an ordinary call.  Tunnels, the cache
  of clients, and \<^verbatim>\<open>Scale\<close> beside \<^verbatim>\<open>Delete\<close> or another \<^verbatim>\<open>Scale\<close> are the exceptions; the
  interleaving of the steps inside two reconciliations, and of a quota check with the creation it
  guards, is not.  The interface that runs in the browser is another program.
\<close>

end
